(* ===== verification/Prelude.thy ===== *)
theory Prelude
  imports Main "HOL-Library.Word" "HOL-Library.Sublist"
begin

text \<open>
  Shared ground of the development: the machine types of the Rust sources, the fact
  collections the component theories feed, generic lemmas on sums, lists and words, and the
  reachability relation with its invariant interface (\<open>invariant_system\<close>), which every
  state machine of the library interprets on its own step relation.
\<close>

section \<open>Machine types\<close>

type_synonym u8 = "8 word"
type_synonym u16 = "16 word"
type_synonym u32 = "32 word"
type_synonym u64 = "64 word"
type_synonym bytes = "u8 list"

text \<open>A \<open>std::time::Duration\<close>, and every point of time, in milliseconds.\<close>

type_synonym duration = nat

section \<open>Fact collections\<close>

named_theorems io_simps \<open>evaluation of the asynchronous runtime's combinators\<close>
named_theorems tame_intros \<open>computations that respect clock, deadline and history\<close>

section \<open>Results\<close>

text \<open>
  A Rust \<open>Result<T, E>\<close> is \<open>'e + 'a\<close>, with \<open>Inl\<close> for \<open>Err\<close> and \<open>Inr\<close> for \<open>Ok\<close>.
\<close>

definition map_err :: "('e \<Rightarrow> 'f) \<Rightarrow> 'e + 'a \<Rightarrow> 'f + 'a" where
  "map_err f r = (case r of Inl e \<Rightarrow> Inl (f e) | Inr x \<Rightarrow> Inr x)"

definition map_ok :: "('a \<Rightarrow> 'b) \<Rightarrow> 'e + 'a \<Rightarrow> 'e + 'b" where
  "map_ok f r = (case r of Inl e \<Rightarrow> Inl e | Inr x \<Rightarrow> Inr (f x))"

definition and_then :: "'e + 'a \<Rightarrow> ('a \<Rightarrow> 'e + 'b) \<Rightarrow> 'e + 'b" where
  "and_then r f = (case r of Inl e \<Rightarrow> Inl e | Inr x \<Rightarrow> f x)"

lemma map_err_simps [simp]:
  "map_err f (Inl e) = Inl (f e)"
  "map_err f (Inr x) = Inr x"
  by (simp_all add: map_err_def)

lemma map_ok_simps [simp]:
  "map_ok g (Inl e) = Inl e"
  "map_ok g (Inr x) = Inr (g x)"
  by (simp_all add: map_ok_def)

lemma and_then_simps [simp]:
  "and_then (Inl e) f = Inl e"
  "and_then (Inr x) f = f x"
  by (simp_all add: and_then_def)

lemma map_err_eq_Inr [simp]: "map_err f r = Inr x \<longleftrightarrow> r = Inr x"
  by (cases r) auto

lemma Inr_eq_map_err [simp]: "Inr x = map_err f r \<longleftrightarrow> r = Inr x"
  by (cases r) auto

lemma map_err_eq_Inl [simp]: "map_err f r = Inl e \<longleftrightarrow> (\<exists>e'. r = Inl e' \<and> e = f e')"
  by (cases r) auto

lemma Inl_eq_map_err [simp]: "Inl e = map_err f r \<longleftrightarrow> (\<exists>e'. r = Inl e' \<and> e = f e')"
  by (cases r) auto

lemma map_ok_eq_Inr [simp]: "map_ok g r = Inr y \<longleftrightarrow> (\<exists>x. r = Inr x \<and> y = g x)"
  by (cases r) auto

lemma map_ok_eq_Inl [simp]: "map_ok g r = Inl e \<longleftrightarrow> r = Inl e"
  by (cases r) auto

lemma and_then_eq_Inr [simp]: "and_then r f = Inr y \<longleftrightarrow> (\<exists>x. r = Inr x \<and> f x = Inr y)"
  by (cases r) auto

section \<open>Reachability and invariants\<close>

inductive reach :: "('s \<Rightarrow> bool) \<Rightarrow> ('s \<Rightarrow> 's \<Rightarrow> bool) \<Rightarrow> 's \<Rightarrow> bool"
  for init :: "'s \<Rightarrow> bool" and step :: "'s \<Rightarrow> 's \<Rightarrow> bool"
where
  reach_init [intro]: "init s \<Longrightarrow> reach init step s"
| reach_step [intro]: "reach init step s \<Longrightarrow> step s t \<Longrightarrow> reach init step t"

text \<open>
  The contract of a state machine with an invariant: it holds initially and each step keeps
  it. What a client of the machine gets is that it holds wherever the machine can be, and
  after any further steps.
\<close>

locale invariant_system =
  fixes init :: "'s \<Rightarrow> bool"
    and step :: "'s \<Rightarrow> 's \<Rightarrow> bool"
    and inv :: "'s \<Rightarrow> bool"
  assumes init_inv: "init s \<Longrightarrow> inv s"
    and step_inv: "inv s \<Longrightarrow> step s t \<Longrightarrow> inv t"
begin

lemma reach_inv: "reach init step s \<Longrightarrow> inv s"
  by (induction rule: reach.induct) (auto intro: init_inv step_inv)

lemma steps_inv: "step\<^sup>*\<^sup>* s t \<Longrightarrow> inv s \<Longrightarrow> inv t"
  by (induction rule: rtranclp_induct) (auto intro: step_inv)

lemma reach_steps_inv: "reach init step s \<Longrightarrow> step\<^sup>*\<^sup>* s t \<Longrightarrow> inv t"
  by (rule steps_inv [OF _ reach_inv])

end

section \<open>Words\<close>

lemma unat_u8_less [simp]: "unat (b :: u8) < 256"
  using unsigned_less [of b] by simp

lemma unat_u8_le [simp]: "unat (b :: u8) \<le> 255"
  using unat_u8_less [of b] by linarith

lemma unat_u8_div [simp]: "unat (b :: u8) div 16 < 16"
  using unat_u8_less [of b] by linarith

section \<open>Lists\<close>

lemma first_occurrence_unique:
  assumes "x \<notin> set a" and "x \<notin> set b"
  shows "a @ x # c = b @ x # d \<longleftrightarrow> a = b \<and> c = d"
  using assms
proof (induction a arbitrary: b)
  case Nil
  then show ?case
    by (cases b) auto
next
  case (Cons y a)
  then show ?case
    by (cases b) auto
qed

section \<open>Panics\<close>

text \<open>
  An operation that may panic (indexing and slicing out of range, \<open>expect\<close>) yields \<open>Panic\<close>;
  \<open>ret_try\<close> is sequencing with \<open>?\<close> for such operations.
\<close>

datatype 'a guarded = Panic | Ret 'a

definition ret_bind :: "'a guarded \<Rightarrow> ('a \<Rightarrow> 'b guarded) \<Rightarrow> 'b guarded" where
  "ret_bind m f = (case m of Panic \<Rightarrow> Panic | Ret a \<Rightarrow> f a)"

definition ret_try :: "('e + 'a) guarded \<Rightarrow> ('a \<Rightarrow> ('e + 'b) guarded) \<Rightarrow> ('e + 'b) guarded" where
  "ret_try m f =
     ret_bind m (\<lambda>r. case r of Inl e \<Rightarrow> Ret (Inl e) | Inr a \<Rightarrow> f a)"

definition index_at :: "'a list \<Rightarrow> nat \<Rightarrow> 'a guarded" where
  "index_at xs i = (if i < length xs then Ret (xs ! i) else Panic)"

definition slice :: "'a list \<Rightarrow> nat \<Rightarrow> nat \<Rightarrow> 'a list guarded" where
  "slice xs a b = (if a \<le> b \<and> b \<le> length xs then Ret (take (b - a) (drop a xs)) else Panic)"

lemma ret_simps [simp]:
  "ret_bind Panic f = Panic"
  "ret_bind (Ret a) f = f a"
  "ret_try Panic g = Panic"
  "ret_try (Ret (Inl e)) g = Ret (Inl e)"
  "ret_try (Ret (Inr b)) g = g b"
  by (simp_all add: ret_bind_def ret_try_def)

lemma index_at_in [simp]: "i < length xs \<Longrightarrow> index_at xs i = Ret (xs ! i)"
  by (simp add: index_at_def)

lemma slice_in [simp]:
  "a \<le> b \<Longrightarrow> b \<le> length xs \<Longrightarrow> slice xs a b = Ret (take (b - a) (drop a xs))"
  by (simp add: slice_def)

section \<open>Decimal numbers\<close>

text \<open>The decimal digits \<open>format!("{}", n)\<close> prints for an unsigned integer.\<close>

definition digit :: "nat \<Rightarrow> char" where
  "digit d = char_of (48 + d)"

fun show_nat :: "nat \<Rightarrow> string" where
  "show_nat n = (if n < 10 then [digit n] else show_nat (n div 10) @ [digit (n mod 10)])"

declare show_nat.simps [simp del]

lemma digit_inject:
  assumes "a < 10" and "b < 10"
  shows "digit a = digit b \<longleftrightarrow> a = b"
proof -
  have "of_char (digit d) = 48 + d" if "d < 10" for d :: nat
    using that by (simp add: digit_def)
  with assms show ?thesis
    by (metis add_left_cancel)
qed

lemma show_nat_not_Nil [simp]: "show_nat n \<noteq> []" "[] \<noteq> show_nat n"
  by (simp_all add: show_nat.simps [of n])

lemma show_nat_inject: "show_nat m = show_nat n \<longleftrightarrow> m = n"
proof (induction m arbitrary: n rule: show_nat.induct)
  case (1 m)
  show ?case
  proof (cases "m < 10 \<or> n < 10")
    case True
    then show ?thesis
      by (auto simp: show_nat.simps [of m] show_nat.simps [of n] digit_inject)
  next
    case False
    then have "show_nat m = show_nat n \<longleftrightarrow> m div 10 = n div 10 \<and> m mod 10 = n mod 10"
      using 1 by (simp add: show_nat.simps [of m] show_nat.simps [of n] digit_inject)
    then show ?thesis
      by (metis div_mult_mod_eq)
  qed
qed

lemma show_nat_no_slash [simp]: "CHR ''/'' \<notin> set (show_nat n)"
proof (induction n rule: show_nat.induct)
  case (1 n)
  have "CHR ''/'' \<noteq> digit d" if "d < 10" for d
  proof
    assume "CHR ''/'' = digit d"
    then have "digit d = CHR ''/''"
      by simp
    then have "of_char (digit d) = (47 :: nat)"
      by simp
    with that show False
      by (simp add: digit_def)
  qed
  with 1 show ?case
    by (simp add: show_nat.simps [of n])
qed

end
