(* ===== verification/Protocol.thy ===== *)
theory Protocol
  imports Prelude
begin

text \<open>
  The vocabulary of the \<open>bloop-protocol\<close> crate as the client framework uses it. The crate is
  not part of this repository: its codecs are the parameter \<open>protocol\<close> of the model, a record
  of functions, and what the framework relies on is stated by the predicates at the end. Only
  names, fields and variants that occur in the repository appear here; an opaque error of
  another crate is represented by the text it displays.
\<close>

section \<open>Messages\<close>

type_synonym nfc_uid = bytes
type_synonym data_hash = bytes
type_synonym uuid = bytes
type_synonym ip_addr = string

record raw_message =
  message_type :: u8
  payload :: bytes

text \<open>
  \<open>Capabilities\<close> is a set of flags, \<open>Capabilities::none()\<close> the empty one. The only flag the
  repository names is \<open>PreloadCheck\<close>.
\<close>

datatype capability = PreloadCheckCapability | OtherCapability nat

type_synonym capabilities = "capability set"

record achievement_record =
  achievement_id :: uuid
  audio_hash :: "data_hash option"

record server_handshake =
  accepted_version :: u8
  handshake_capabilities :: capabilities

record preload_mismatch =
  audio_manifest_hash :: data_hash
  mismatch_achievements :: "achievement_record list"

text \<open>The requests the framework itself sends, with the fields it fills in.\<close>

datatype client_message =
    ClientHandshake (min_version: u8) (max_version: u8)
  | Authentication (client_id: string) (client_secret: string) (ip_address: ip_addr)
  | Ping
  | Quit
  | Bloop nfc_uid
  | RetrieveAudio uuid
  | PreloadCheck "data_hash option"

text \<open>
  The error codes the repository names; \<open>OtherErrorResponse\<close> stands for the crate's
  remaining ones.
\<close>

datatype error_response =
    UnsupportedVersionRange
  | InvalidCredentials
  | UnknownNfcUid
  | NfcUidThrottled
  | AudioUnavailable
  | Custom u8
  | OtherErrorResponse u8

section \<open>Codecs\<close>

type_synonym encode_error = string
type_synonym frame_error = string
type_synonym io_error = string

datatype message_set_error = UnknownOpcode u8 | OtherMessageSetError string

text \<open>
  The dictionary of a message type \<open>M: Payload + Decode\<close>: its \<open>OPCODE\<close> and
  \<open>decode_message::<M>\<close>.
\<close>

record 'm payload_ops =
  opcode :: u8
  decode_message :: "raw_message \<Rightarrow> message_set_error + 'm"

record protocol =
  encode_message :: "client_message \<Rightarrow> encode_error + raw_message"
  is_fatal :: "error_response \<Rightarrow> bool"
  error_response_ops :: "error_response payload_ops"
  pong_ops :: "unit payload_ops"
  server_handshake_ops :: "server_handshake payload_ops"
  authentication_accepted_ops :: "unit payload_ops"
  bloop_accepted_ops :: "achievement_record list payload_ops"
  audio_data_ops :: "bytes payload_ops"
  preload_match_ops :: "unit payload_ops"
  preload_mismatch_ops :: "preload_mismatch payload_ops"

section \<open>What the framework relies on\<close>

text \<open>\<open>decode_message\<close> reports exactly the frames of a foreign opcode as such.\<close>

definition opcode_checked :: "'m payload_ops \<Rightarrow> bool" where
  "opcode_checked M \<longleftrightarrow>
     (\<forall>raw c. decode_message M raw = Inl (UnknownOpcode c) \<longleftrightarrow>
        message_type raw \<noteq> opcode M \<and> c = message_type raw)"

lemma opcode_checkedD:
  "opcode_checked M \<Longrightarrow> message_type raw \<noteq> opcode M \<Longrightarrow>
     decode_message M raw = Inl (UnknownOpcode (message_type raw))"
  "opcode_checked M \<Longrightarrow> message_type raw = opcode M \<Longrightarrow>
     decode_message M raw \<noteq> Inl (UnknownOpcode c)"
  "opcode_checked M \<Longrightarrow> decode_message M raw = Inr m \<Longrightarrow> message_type raw = opcode M"
  unfolding opcode_checked_def by (blast, blast, metis sum.distinct(1))

section \<open>A small codec\<close>

text \<open>
  A codec with one opcode per message, on which the hypotheses above hold; the concrete
  executions of the development run with it.
\<close>

definition simple_ops :: "u8 \<Rightarrow> (bytes \<Rightarrow> 'm option) \<Rightarrow> 'm payload_ops" where
  "simple_ops c dec =
     \<lparr>opcode = c,
      decode_message = (\<lambda>raw.
        if message_type raw \<noteq> c then Inl (UnknownOpcode (message_type raw))
        else (case dec (payload raw) of
                None \<Rightarrow> Inl (OtherMessageSetError ''malformed'')
              | Some m \<Rightarrow> Inr m))\<rparr>"

fun simple_encode :: "client_message \<Rightarrow> encode_error + raw_message" where
  "simple_encode (ClientHandshake lo hi) = Inr \<lparr>message_type = 1, payload = [lo, hi]\<rparr>"
| "simple_encode (Authentication _ _ _) = Inr \<lparr>message_type = 2, payload = []\<rparr>"
| "simple_encode Ping = Inr \<lparr>message_type = 3, payload = []\<rparr>"
| "simple_encode Quit = Inr \<lparr>message_type = 4, payload = []\<rparr>"
| "simple_encode (Bloop uid) = Inr \<lparr>message_type = 5, payload = uid\<rparr>"
| "simple_encode (RetrieveAudio i) = Inr \<lparr>message_type = 6, payload = i\<rparr>"
| "simple_encode (PreloadCheck _) = Inr \<lparr>message_type = 7, payload = []\<rparr>"

fun simple_error :: "bytes \<Rightarrow> error_response option" where
  "simple_error [c] =
     (if c = 1 then Some UnsupportedVersionRange
      else if c = 2 then Some InvalidCredentials
      else if c = 3 then Some UnknownNfcUid
      else if c = 4 then Some AudioUnavailable
      else Some (Custom c))"
| "simple_error _ = None"

fun simple_unit :: "bytes \<Rightarrow> unit option" where
  "simple_unit [] = Some ()"
| "simple_unit _ = None"

fun simple_handshake :: "bytes \<Rightarrow> server_handshake option" where
  "simple_handshake [v] = Some \<lparr>accepted_version = v, handshake_capabilities = {}\<rparr>"
| "simple_handshake [v, _] =
     Some \<lparr>accepted_version = v, handshake_capabilities = {PreloadCheckCapability}\<rparr>"
| "simple_handshake _ = None"

definition simple_protocol :: protocol where
  "simple_protocol =
     \<lparr>encode_message = simple_encode,
      is_fatal = (\<lambda>e. e \<in> {UnsupportedVersionRange, Custom 255}),
      error_response_ops = simple_ops 16 simple_error,
      pong_ops = simple_ops 17 simple_unit,
      server_handshake_ops = simple_ops 18 simple_handshake,
      authentication_accepted_ops = simple_ops 19 simple_unit,
      bloop_accepted_ops = simple_ops 20 (\<lambda>_. Some []),
      audio_data_ops = simple_ops 21 Some,
      preload_match_ops = simple_ops 22 simple_unit,
      preload_mismatch_ops = simple_ops 23
        (\<lambda>h. Some \<lparr>audio_manifest_hash = h, mismatch_achievements = []\<rparr>)\<rparr>"

lemma opcode_checked_simple_ops [simp]: "opcode_checked (simple_ops c dec)"
  by (auto simp: opcode_checked_def simple_ops_def split: option.splits)

lemma simple_ops_simps [simp]:
  "opcode (simple_ops c dec) = c"
  "decode_message (simple_ops c dec) raw =
     (if message_type raw \<noteq> c then Inl (UnknownOpcode (message_type raw))
      else (case dec (payload raw) of
              None \<Rightarrow> Inl (OtherMessageSetError ''malformed'')
            | Some m \<Rightarrow> Inr m))"
  by (simp_all add: simple_ops_def)

lemma simple_protocol_simps [simp]:
  "encode_message simple_protocol = simple_encode"
  "is_fatal simple_protocol e \<longleftrightarrow> e \<in> {UnsupportedVersionRange, Custom 255}"
  "error_response_ops simple_protocol = simple_ops 16 simple_error"
  "pong_ops simple_protocol = simple_ops 17 simple_unit"
  "server_handshake_ops simple_protocol = simple_ops 18 simple_handshake"
  "authentication_accepted_ops simple_protocol = simple_ops 19 simple_unit"
  "audio_data_ops simple_protocol = simple_ops 21 Some"
  "preload_match_ops simple_protocol = simple_ops 22 simple_unit"
  by (simp_all add: simple_protocol_def)

end
