(* ===== verification/Request.thy ===== *)
theory Request
  imports Protocol
begin

text \<open>
  \<open>src/request.rs\<close>: the error type of a request and the routing of a server's answer,
  \<open>decode_response\<close>.
\<close>

datatype request_error =
    Disconnected
  | Shutdown
  | Error error_response
  | UnexpectedResponse raw_message
  | Malformed message_set_error
  | Encode encode_error

definition decode_response ::
  "protocol \<Rightarrow> 'm payload_ops \<Rightarrow> raw_message \<Rightarrow> request_error + 'm" where
  "decode_response P M raw =
     (if message_type raw = opcode (error_response_ops P) then
        (case decode_message (error_response_ops P) raw of
           Inr error \<Rightarrow> Inl (Error error)
         | Inl error \<Rightarrow> Inl (Malformed error))
      else
        (case decode_message M raw of
           Inr message \<Rightarrow> Inr message
         | Inl (UnknownOpcode _) \<Rightarrow> Inl (UnexpectedResponse raw)
         | Inl error \<Rightarrow> Inl (Malformed error)))"

section \<open>Routing of an answer\<close>

text \<open>The three opcode classes of an answer, each with the results it can have.\<close>

lemma decode_response_error_opcode:
  "message_type raw = opcode (error_response_ops P) \<Longrightarrow>
     decode_response P M raw =
       Inl (case decode_message (error_response_ops P) raw of
              Inr error \<Rightarrow> Error error | Inl error \<Rightarrow> Malformed error)"
  by (simp add: decode_response_def split: sum.splits)

lemma decode_response_ok:
  "decode_response P M raw = Inr m \<longleftrightarrow>
     message_type raw \<noteq> opcode (error_response_ops P) \<and> decode_message M raw = Inr m"
  by (auto simp: decode_response_def split: sum.splits message_set_error.splits)

lemma decode_response_error:
  "decode_response P M raw = Inl (Error error) \<longleftrightarrow>
     message_type raw = opcode (error_response_ops P) \<and>
     decode_message (error_response_ops P) raw = Inr error"
  by (auto simp: decode_response_def split: sum.splits message_set_error.splits)

lemma decode_response_unexpected:
  "decode_response P M raw = Inl (UnexpectedResponse raw') \<longleftrightarrow>
     raw' = raw \<and> message_type raw \<noteq> opcode (error_response_ops P) \<and>
     (\<exists>c. decode_message M raw = Inl (UnknownOpcode c))"
  by (auto simp: decode_response_def split: sum.splits message_set_error.splits)

lemma decode_response_never_transport:
  "decode_response P M raw \<noteq> Inl Disconnected"
  "decode_response P M raw \<noteq> Inl Shutdown"
  "decode_response P M raw \<noteq> Inl (Encode e)"
  by (auto simp: decode_response_def split: sum.splits message_set_error.splits)

text \<open>
  With a codec that checks opcodes, the opcode alone decides between the caller's message,
  a protocol error and an unexpected response.
\<close>

lemma decode_response_by_opcode:
  assumes "opcode_checked M" and "opcode M \<noteq> opcode (error_response_ops P)"
  shows "decode_response P M raw =
    (if message_type raw = opcode (error_response_ops P) then
       Inl (case decode_message (error_response_ops P) raw of
              Inr error \<Rightarrow> Error error | Inl error \<Rightarrow> Malformed error)
     else if message_type raw = opcode M then map_err Malformed (decode_message M raw)
     else Inl (UnexpectedResponse raw))"
proof (cases "decode_message M raw")
  case (Inl e)
  then show ?thesis
    using opcode_checkedD(1,2) [OF assms(1), of raw] assms(2)
    by (cases e) (auto simp: decode_response_def split: sum.splits)
next
  case (Inr m)
  then show ?thesis
    using opcode_checkedD(3) [OF assms(1) Inr] assms(2)
    by (auto simp: decode_response_def split: sum.splits)
qed

text \<open>
  C35: An answer is routed by its opcode alone. A frame with the error opcode never decodes
  to the caller's message: it arrives as the protocol error it carries, or as malformed. A
  frame of any third opcode comes back whole as the unexpected response. A frame of the
  caller's opcode is the decoded message or malformed, never an unexpected response.
\<close>

theorem decode_response_routing:
  assumes "opcode_checked M" and "opcode M \<noteq> opcode (error_response_ops P)"
  shows "decode_response P M raw =
    (if message_type raw = opcode (error_response_ops P) then
       Inl (case decode_message (error_response_ops P) raw of
              Inr error \<Rightarrow> Error error | Inl error \<Rightarrow> Malformed error)
     else if message_type raw = opcode M then map_err Malformed (decode_message M raw)
     else Inl (UnexpectedResponse raw))"
  using assms by (rule decode_response_by_opcode)

theorem decode_response_routing_witness:
  "decode_response simple_protocol (pong_ops simple_protocol)
      \<lparr>message_type = 16, payload = [3]\<rparr> = Inl (Error UnknownNfcUid) \<and>
   decode_response simple_protocol (pong_ops simple_protocol)
      \<lparr>message_type = 66, payload = []\<rparr>
      = Inl (UnexpectedResponse \<lparr>message_type = 66, payload = []\<rparr>)"
  using decode_response_routing [of "pong_ops simple_protocol" simple_protocol]
  by simp

end
