(* ===== verification/Client_Types.thy ===== *)
theory Client_Types
  imports Request
begin

text \<open>
  The public data types of \<open>src/client.rs\<close>: configuration, observable status, policy for
  rejected credentials, and the outcome of a preload check.
\<close>

record connection_config =
  host :: string
  port :: u16
  config_client_id :: string
  config_client_secret :: string

datatype connection_status =
    Unconfigured
  | Disconnected
  | Connected (connected_capabilities: capabilities)
  | InvalidCredentials
  | Shutdown

datatype invalid_credentials_policy = Latch | Retry

datatype preload_outcome =
    Match
  | Mismatch data_hash "achievement_record list"

end
