(* ===== verification/Runtime.thy ===== *)
theory Runtime
  imports Client_Types "HOL-Library.AList"
begin

text \<open>
  The asynchronous runtime the client runs on. An \<open>async\<close> computation is a function of the
  world that returns a value and the next world, or is dropped because an enclosing
  \<open>tokio::time::timeout\<close> expired while it was waiting. The world holds the clock, the
  innermost deadline in force, the cache directory's files, and the history of everything the
  client did that somebody else can observe. What the network, the server, the file system
  and the crates below answer is the parameter \<open>env\<close>: each operation's duration and result
  is an arbitrary function of the history so far.
\<close>

section \<open>The world\<close>

type_synonym stream = nat
type_synonym path = string

datatype fs_op =
    TryExists path
  | CreateDirAll path
  | FsWrite path bytes
  | Rename path path
  | ReadDir path
  | NextEntry path
  | RemoveFile path

datatype event =
    LookedUp string u16 "io_error + ip_addr list"
  | TcpConnected ip_addr "io_error option"
  | TlsConnected stream string "io_error option"
  | Wrote stream raw_message "frame_error option"
  | Read stream u32 "frame_error + raw_message"
  | Abandoned "stream option"
  | Fs fs_op "io_error option"
  | FsAbandoned fs_op
  | Published connection_status
  | Answered nat "request_error + raw_message"
  | Acknowledged nat

record world =
  clock :: duration
  deadline :: "duration option"
  history :: "event list"
  next_stream :: stream
  files :: "(path \<times> bytes) list"
  temp_counter :: u64

record env =
  env_lookup_host :: "event list \<Rightarrow> string \<Rightarrow> u16 \<Rightarrow> duration \<times> (io_error + ip_addr list)"
  env_tcp_connect :: "event list \<Rightarrow> ip_addr \<Rightarrow> duration \<times> io_error option"
  env_local_addr :: "event list \<Rightarrow> io_error + ip_addr"
  env_server_name :: "string \<Rightarrow> bool"
  env_tls_connect :: "event list \<Rightarrow> string \<Rightarrow> duration \<times> io_error option"
  env_write_frame :: "event list \<Rightarrow> stream \<Rightarrow> raw_message \<Rightarrow> duration \<times> frame_error option"
  env_read_frame :: "event list \<Rightarrow> stream \<Rightarrow> u32 \<Rightarrow> duration \<times> (frame_error + raw_message)"
  env_fs :: "event list \<Rightarrow> fs_op \<Rightarrow> duration \<times> io_error option"
  env_fs_partial :: "event list \<Rightarrow> fs_op \<Rightarrow> nat option"

text \<open>The history only grows: no world equals itself with an event more.\<close>

lemma history_grows [simp]:
  "w\<lparr>history := history w @ [e]\<rparr> \<noteq> (w :: world)"
  "(w :: world) \<noteq> w\<lparr>history := history w @ [e]\<rparr>"
  by (auto dest: arg_cong [where f = history])

section \<open>Computations\<close>

datatype 'a outcome = Done 'a | Cancelled

type_synonym 'a io = "world \<Rightarrow> 'a outcome \<times> world"

definition io_return :: "'a \<Rightarrow> 'a io" where
  "io_return a w = (Done a, w)"

definition io_bind :: "'a io \<Rightarrow> ('a \<Rightarrow> 'b io) \<Rightarrow> 'b io" where
  "io_bind m f w =
     (case m w of (Done a, w') \<Rightarrow> f a w' | (Cancelled, w') \<Rightarrow> (Cancelled, w'))"

text \<open>Rust's \<open>?\<close>: an \<open>Err\<close> is the result of the whole computation.\<close>

definition io_try :: "('e + 'a) io \<Rightarrow> ('a \<Rightarrow> ('e + 'b) io) \<Rightarrow> ('e + 'b) io" where
  "io_try m f = io_bind m (\<lambda>r. case r of Inl e \<Rightarrow> io_return (Inl e) | Inr a \<Rightarrow> f a)"

definition io_map :: "('a \<Rightarrow> 'b) \<Rightarrow> 'a io \<Rightarrow> 'b io" where
  "io_map g m = io_bind m (\<lambda>a. io_return (g a))"

definition io_history :: "event list io" where
  "io_history w = (Done (history w), w)"

text \<open>An effect that takes no time and cannot be dropped, such as \<open>oneshot::Sender::send\<close>.\<close>

definition emit :: "event \<Rightarrow> unit io" where
  "emit e w = (Done (), w\<lparr>history := history w @ [e]\<rparr>)"

text \<open>
  Waiting for an operation that takes \<open>dt\<close>: either it completes, or the deadline in force
  comes first and the waiting future is dropped at that moment.
\<close>

definition expires :: "world \<Rightarrow> duration \<Rightarrow> bool" where
  "expires w dt \<longleftrightarrow> (case deadline w of None \<Rightarrow> False | Some d \<Rightarrow> d < clock w + dt)"

definition await :: "duration \<Rightarrow> event \<Rightarrow> event \<Rightarrow> 'a \<Rightarrow> 'a io" where
  "await dt completed dropped r w =
     (if expires w dt then
        (Cancelled, w\<lparr>clock := max (clock w) (the (deadline w)),
                      history := history w @ [dropped]\<rparr>)
      else (Done r, w\<lparr>clock := clock w + dt, history := history w @ [completed]\<rparr>))"

text \<open>
  \<open>tokio::time::timeout\<close>: the computation runs under the earlier of its own deadline and the
  enclosing one. \<open>Inl ()\<close> is \<open>Err(Elapsed)\<close>; when the enclosing deadline is strictly
  earlier, it is the enclosing \<open>timeout\<close> that drops the computation.
\<close>

definition tighten :: "duration option \<Rightarrow> duration \<Rightarrow> duration" where
  "tighten outer d = (case outer of None \<Rightarrow> d | Some o' \<Rightarrow> min o' d)"

definition timeout :: "duration \<Rightarrow> 'a io \<Rightarrow> (unit + 'a) io" where
  "timeout d m w =
     (case m (w\<lparr>deadline := Some (tighten (deadline w) (clock w + d))\<rparr>) of
        (Done a, w') \<Rightarrow> (Done (Inr a), w'\<lparr>deadline := deadline w\<rparr>)
      | (Cancelled, w') \<Rightarrow>
          (if tighten (deadline w) (clock w + d) < clock w + d
           then (Cancelled, w'\<lparr>deadline := deadline w\<rparr>)
           else (Done (Inl ()), w'\<lparr>deadline := deadline w\<rparr>)))"

lemma io_return_run [io_simps]: "io_return a w = (Done a, w)"
  by (simp add: io_return_def)

lemma io_bind_return [simp]: "io_bind (io_return a) f = f a"
  by (rule ext) (simp add: io_bind_def io_return_def)

lemma io_bind_assoc: "io_bind (io_bind m f) g = io_bind m (\<lambda>a. io_bind (f a) g)"
  by (rule ext) (simp add: io_bind_def split: prod.split outcome.split)

lemma io_bind_eq_Done [io_simps]:
  "io_bind m f w = (Done b, w'') \<longleftrightarrow>
     (\<exists>a w'. m w = (Done a, w') \<and> f a w' = (Done b, w''))"
  by (auto simp: io_bind_def split: prod.split outcome.split)

lemma io_try_eq_Inr [io_simps]:
  "io_try m f w = (Done (Inr b), w'') \<longleftrightarrow>
     (\<exists>a w'. m w = (Done (Inr a), w') \<and> f a w' = (Done (Inr b), w''))"
proof -
  have "(case r of Inl e \<Rightarrow> io_return (Inl e) | Inr a \<Rightarrow> f a) w' = (Done (Inr b), w'') \<longleftrightarrow>
      (\<exists>a. r = Inr a \<and> f a w' = (Done (Inr b), w''))" for r w'
    by (cases r) (simp_all add: io_return_run)
  then show ?thesis
    by (auto simp: io_try_def io_bind_eq_Done)
qed

lemma io_try_eq_Inl [io_simps]:
  "io_try m f w = (Done (Inl e), w'') \<longleftrightarrow>
     m w = (Done (Inl e), w'') \<or>
     (\<exists>a w'. m w = (Done (Inr a), w') \<and> f a w' = (Done (Inl e), w''))"
proof -
  have "(case r of Inl e \<Rightarrow> io_return (Inl e) | Inr a \<Rightarrow> f a) w' = (Done (Inl e), w'') \<longleftrightarrow>
      (r = Inl e \<and> w' = w'') \<or> (\<exists>a. r = Inr a \<and> f a w' = (Done (Inl e), w''))" for r w'
    by (cases r) (auto simp: io_return_run)
  then show ?thesis
    by (auto simp: io_try_def io_bind_eq_Done)
qed

text \<open>Branching before a computation runs, as alternatives over the scrutinee.\<close>

lemma io_case_simps [io_simps]:
  "(case r of Inl e \<Rightarrow> f e | Inr a \<Rightarrow> g a) w = X \<longleftrightarrow>
     (\<exists>e. r = Inl e \<and> f e w = X) \<or> (\<exists>a. r = Inr a \<and> g a w = X)"
  "(case xs of [] \<Rightarrow> n | y # ys \<Rightarrow> h y ys) w = X \<longleftrightarrow>
     (xs = [] \<and> n w = X) \<or> (\<exists>y ys. xs = y # ys \<and> h y ys w = X)"
  "(case v of None \<Rightarrow> n | Some y \<Rightarrow> k y) w = X \<longleftrightarrow>
     (v = None \<and> n w = X) \<or> (\<exists>y. v = Some y \<and> k y w = X)"
  "(if b then m else m') w = X \<longleftrightarrow> (b \<and> m w = X) \<or> (\<not> b \<and> m' w = X)"
  by (auto split: sum.split list.split option.split)

lemma io_map_eq_Done [io_simps]:
  "io_map g m w = (Done b, w') \<longleftrightarrow> (\<exists>a. m w = (Done a, w') \<and> b = g a)"
  by (auto simp: io_map_def io_bind_eq_Done io_return_run)

lemma io_tryE:
  assumes "io_try m f w = (r, w'')"
  obtains (ok) a w' where "m w = (Done (Inr a), w')" "f a w' = (r, w'')"
    | (err) e where "m w = (Done (Inl e), w'')" "r = Done (Inl e)"
    | (cancelled) "m w = (Cancelled, w'')" "r = Cancelled"
  using assms
  by (auto simp: io_try_def io_bind_def io_return_def split: prod.splits outcome.splits sum.splits)

lemma io_map_err_run:
  "io_map (map_err f) m w = (Done (Inr a), w') \<longleftrightarrow> m w = (Done (Inr a), w')"
  "io_map (map_err f) m w = (Done (Inl e), w') \<longleftrightarrow> (\<exists>e'. m w = (Done (Inl e'), w') \<and> e = f e')"
  "io_map g m w = (Cancelled, w') \<longleftrightarrow> m w = (Cancelled, w')"
  by (auto simp: io_map_def io_bind_def io_return_def map_err_def
      split: prod.splits outcome.splits sum.splits)

lemma timeout_Inr:
  assumes "timeout d m w = (Done (Inr a), w')"
  obtains w1 where
    "m (w\<lparr>deadline := Some (tighten (deadline w) (clock w + d))\<rparr>) = (Done a, w1)"
    "w' = w1\<lparr>deadline := deadline w\<rparr>"
  using assms by (auto simp: timeout_def split: prod.splits outcome.splits if_splits)

lemma timeout_Inl:
  assumes "timeout d m w = (Done (Inl u), w')"
  obtains w1 where
    "m (w\<lparr>deadline := Some (tighten (deadline w) (clock w + d))\<rparr>) = (Cancelled, w1)"
    "tighten (deadline w) (clock w + d) = clock w + d"
    "w' = w1\<lparr>deadline := deadline w\<rparr>"
  using assms
  by (auto simp: timeout_def tighten_def split: prod.splits outcome.splits if_splits option.splits)

section \<open>Computations that respect the runtime\<close>

text \<open>
  A computation is \<open>tame\<close> when it only appends to the history, never turns the clock back,
  leaves the deadline as it found it, never runs past it, and is dropped only by it. All
  operations of the client are; of user code (the on-connect hook) it is the documented
  contract that its server I/O goes through the session, which is tame.
\<close>

definition tame :: "'a io \<Rightarrow> bool" where
  "tame m \<longleftrightarrow> (\<forall>w r w'. m w = (r, w') \<longrightarrow>
     prefix (history w) (history w') \<and> clock w \<le> clock w' \<and> deadline w' = deadline w \<and>
     next_stream w \<le> next_stream w' \<and>
     (\<forall>d. deadline w = Some d \<longrightarrow> clock w' \<le> max (clock w) d) \<and>
     (r = Cancelled \<longrightarrow> (\<exists>d. deadline w = Some d \<and> clock w' = max (clock w) d)))"

lemma tameI:
  assumes "\<And>w r w'. m w = (r, w') \<Longrightarrow> prefix (history w) (history w')"
    and "\<And>w r w'. m w = (r, w') \<Longrightarrow> clock w \<le> clock w'"
    and "\<And>w r w'. m w = (r, w') \<Longrightarrow> deadline w' = deadline w"
    and "\<And>w r w'. m w = (r, w') \<Longrightarrow> next_stream w \<le> next_stream w'"
    and "\<And>w r w' d. m w = (r, w') \<Longrightarrow> deadline w = Some d \<Longrightarrow> clock w' \<le> max (clock w) d"
    and "\<And>w w'. m w = (Cancelled, w') \<Longrightarrow>
           \<exists>d. deadline w = Some d \<and> clock w' = max (clock w) d"
  shows "tame m"
  unfolding tame_def using assms by blast

lemma tameD:
  assumes "tame m" and "m w = (r, w')"
  shows "prefix (history w) (history w')" and "clock w \<le> clock w'"
    and "deadline w' = deadline w" and "next_stream w \<le> next_stream w'"
    and "deadline w = Some d \<Longrightarrow> clock w' \<le> max (clock w) d"
    and "r = Cancelled \<Longrightarrow> \<exists>d. deadline w = Some d \<and> clock w' = max (clock w) d"
  using assms unfolding tame_def by blast+

lemma tame_undisturbed:
  assumes "tame m" and "deadline w = None"
  obtains a w' where "m w = (Done a, w')" and "deadline w' = None"
  using tameD [OF assms(1), of w] assms(2)
  by (metis option.distinct(1) outcome.exhaust surj_pair)

lemma tame_return [tame_intros]: "tame (io_return a)"
  by (auto intro!: tameI simp: io_return_def)

lemma tame_history [tame_intros]: "tame io_history"
  by (auto intro!: tameI simp: io_history_def)

lemma tame_emit [tame_intros]: "tame (emit e)"
  by (auto intro!: tameI simp: emit_def)

lemma tame_await [tame_intros]: "tame (await dt c d r)"
  by (auto intro!: tameI simp: await_def expires_def split: if_splits option.splits)

lemma tame_bind [tame_intros]:
  assumes m: "tame m" and f: "\<And>a. tame (f a)"
  shows "tame (io_bind m f)"
  unfolding tame_def
proof (intro allI impI)
  fix w r w''
  assume run: "io_bind m f w = (r, w'')"
  obtain r1 w' where 1: "m w = (r1, w')"
    by fastforce
  show "prefix (history w) (history w'') \<and> clock w \<le> clock w'' \<and> deadline w'' = deadline w \<and>
     next_stream w \<le> next_stream w'' \<and>
     (\<forall>d. deadline w = Some d \<longrightarrow> clock w'' \<le> max (clock w) d) \<and>
     (r = Cancelled \<longrightarrow> (\<exists>d. deadline w = Some d \<and> clock w'' = max (clock w) d))"
  proof (cases r1)
    case Cancelled
    with run 1 have "r = Cancelled" and "w'' = w'"
      by (auto simp: io_bind_def)
    then show ?thesis
      using tameD [OF m 1] Cancelled by auto
  next
    case (Done a)
    with run 1 have 2: "f a w' = (r, w'')"
      by (simp add: io_bind_def)
    note t1 = tameD [OF m 1] and t2 = tameD [OF f 2]
    have "clock w'' \<le> max (clock w) d" if "deadline w = Some d" for d
      using t1(2,3) t1(5) [OF that] t2(5) [of d] that by auto
    moreover have "\<exists>d. deadline w = Some d \<and> clock w'' = max (clock w) d" if "r = Cancelled"
    proof -
      from t2(6) [OF that] obtain d where d: "deadline w' = Some d" "clock w'' = max (clock w') d"
        by blast
      with t1(2,3) t1(5) [of d] have "deadline w = Some d" and "clock w'' = max (clock w) d"
        by auto
      then show ?thesis
        by blast
    qed
    ultimately show ?thesis
      using t1(1-4) t2(1-4) by (auto intro: prefix_order.order_trans)
  qed
qed

lemma tame_try [tame_intros]:
  "tame m \<Longrightarrow> (\<And>a. tame (f a)) \<Longrightarrow> tame (io_try m f)"
  unfolding io_try_def by (intro tame_bind) (auto intro: tame_return split: sum.split)

lemma tame_map [tame_intros]: "tame m \<Longrightarrow> tame (io_map g m)"
  unfolding io_map_def by (intro tame_intros)

lemma tame_timeout [tame_intros]:
  assumes m: "tame m"
  shows "tame (timeout d m)"
  unfolding tame_def
proof (intro allI impI)
  fix w r w''
  assume run: "timeout d m w = (r, w'')"
  let ?t = "tighten (deadline w) (clock w + d)"
  obtain r1 w' where 1: "m (w\<lparr>deadline := Some ?t\<rparr>) = (r1, w')"
    by fastforce
  from run 1 have w'': "w'' = w'\<lparr>deadline := deadline w\<rparr>"
    by (auto simp: timeout_def split: outcome.splits if_splits)
  note t = tameD [OF m 1]
  have "clock w'' \<le> max (clock w) d'" if "deadline w = Some d'" for d'
    using t(5) [of ?t] that w'' by (auto simp: tighten_def)
  moreover have "\<exists>d'. deadline w = Some d' \<and> clock w'' = max (clock w) d'" if "r = Cancelled"
  proof -
    from run 1 that have "r1 = Cancelled" and lt: "?t < clock w + d"
      by (auto simp: timeout_def split: outcome.splits if_splits)
    with t(6) w'' have "clock w'' = max (clock w) ?t"
      by auto
    with lt show ?thesis
      by (auto simp: tighten_def split: option.splits)
  qed
  ultimately show "prefix (history w) (history w'') \<and> clock w \<le> clock w'' \<and>
     deadline w'' = deadline w \<and> next_stream w \<le> next_stream w'' \<and>
     (\<forall>d. deadline w = Some d \<longrightarrow> clock w'' \<le> max (clock w) d) \<and>
     (r = Cancelled \<longrightarrow> (\<exists>d. deadline w = Some d \<and> clock w'' = max (clock w) d))"
    using t(1-4) w'' by auto
qed

text \<open>A timeout bounds what it wraps.\<close>

lemma timeout_bounded:
  assumes m: "tame m" and run: "timeout d m w = (r, w')"
  shows "clock w' \<le> clock w + d"
proof -
  let ?t = "tighten (deadline w) (clock w + d)"
  obtain r1 w1 where 1: "m (w\<lparr>deadline := Some ?t\<rparr>) = (r1, w1)"
    by fastforce
  with run have "clock w' = clock w1"
    by (auto simp: timeout_def split: outcome.splits if_splits)
  with tameD(5) [OF m 1, of ?t] show ?thesis
    by (auto simp: tighten_def split: option.splits)
qed

text \<open>And when it fires, it fires on time.\<close>

lemma timeout_exact:
  assumes m: "tame m" and run: "timeout d m w = (Done (Inl u), w')"
  shows "clock w' = clock w + d"
  using run
proof (rule timeout_Inl)
  fix w1
  let ?t = "tighten (deadline w) (clock w + d)"
  assume 1: "m (w\<lparr>deadline := Some ?t\<rparr>) = (Cancelled, w1)" and t: "?t = clock w + d"
    and w': "w' = w1\<lparr>deadline := deadline w\<rparr>"
  from tameD(6) [OF m 1] t w' show ?thesis
    by auto
qed

section \<open>Computations that leave the files alone\<close>

definition keeps_files :: "'a io \<Rightarrow> bool" where
  "keeps_files m \<longleftrightarrow> (\<forall>w. files (snd (m w)) = files w \<and> temp_counter (snd (m w)) = temp_counter w)"

named_theorems keeps_intros \<open>computations that leave the files alone\<close>

lemma keeps_filesD:
  "keeps_files m \<Longrightarrow> m w = (r, w') \<Longrightarrow> files w' = files w"
  "keeps_files m \<Longrightarrow> m w = (r, w') \<Longrightarrow> temp_counter w' = temp_counter w"
  unfolding keeps_files_def by (metis snd_conv)+

lemma keeps_basic [keeps_intros]:
  "keeps_files (io_return a)"
  "keeps_files io_history"
  "keeps_files (emit e)"
  "keeps_files (await dt c d r)"
  by (simp_all add: keeps_files_def io_return_def io_history_def emit_def await_def)

lemma keeps_bind [keeps_intros]:
  "keeps_files m \<Longrightarrow> (\<And>a. keeps_files (f a)) \<Longrightarrow> keeps_files (io_bind m f)"
  unfolding keeps_files_def io_bind_def
  by (auto split: prod.split outcome.split) (metis snd_conv)+

lemma keeps_try [keeps_intros]:
  "keeps_files m \<Longrightarrow> (\<And>a. keeps_files (f a)) \<Longrightarrow> keeps_files (io_try m f)"
  unfolding io_try_def by (intro keeps_bind) (auto intro: keeps_intros split: sum.split)

lemma keeps_map [keeps_intros]: "keeps_files m \<Longrightarrow> keeps_files (io_map g m)"
  unfolding io_map_def by (intro keeps_intros)

lemma keeps_timeout [keeps_intros]:
  assumes "keeps_files m"
  shows "keeps_files (timeout d m)"
  using assms unfolding keeps_files_def timeout_def
  by (auto split: prod.split outcome.split) (metis snd_conv world.select_convs(5,6) world.update_convs(2) world.surjective)+

section \<open>What a computation adds to the history\<close>

definition emits :: "(event \<Rightarrow> bool) \<Rightarrow> 'a io \<Rightarrow> bool" where
  "emits Q m \<longleftrightarrow>
     (\<forall>w. \<exists>es. history (snd (m w)) = history w @ es \<and> list_all Q es)"

named_theorems emits_intros \<open>events a computation can cause\<close>

lemma emitsD:
  assumes "emits Q m" and "m w = (r, w')"
  obtains es where "history w' = history w @ es" and "list_all Q es"
  using assms unfolding emits_def by (metis snd_conv)

lemma emits_return [emits_intros]: "emits Q (io_return a)"
  by (simp add: emits_def io_return_def)

lemma emits_history [emits_intros]: "emits Q io_history"
  by (simp add: emits_def io_history_def)

lemma emits_emit [emits_intros]: "Q e \<Longrightarrow> emits Q (emit e)"
  by (simp add: emits_def emit_def)

lemma emits_await [emits_intros]: "Q c \<Longrightarrow> Q d \<Longrightarrow> emits Q (await dt c d r)"
  by (simp add: emits_def await_def)

lemma emits_bind [emits_intros]:
  assumes "emits Q m" and "\<And>a. emits Q (f a)"
  shows "emits Q (io_bind m f)"
  unfolding emits_def
proof
  fix w
  obtain r w' where 1: "m w = (r, w')"
    by fastforce
  then obtain es where es: "history w' = history w @ es" "list_all Q es"
    using emitsD [OF assms(1)] by blast
  show "\<exists>es. history (snd (io_bind m f w)) = history w @ es \<and> list_all Q es"
  proof (cases r)
    case (Done a)
    obtain r2 w2 where 2: "f a w' = (r2, w2)"
      by fastforce
    then obtain es2 where "history w2 = history w' @ es2" "list_all Q es2"
      using emitsD [OF assms(2)] by blast
    with 1 2 Done es show ?thesis
      by (auto simp: io_bind_def)
  qed (use 1 es in \<open>auto simp: io_bind_def\<close>)
qed

lemma emits_try [emits_intros]:
  "emits Q m \<Longrightarrow> (\<And>a. emits Q (f a)) \<Longrightarrow> emits Q (io_try m f)"
  unfolding io_try_def by (intro emits_bind) (auto intro: emits_return split: sum.split)

lemma emits_map [emits_intros]: "emits Q m \<Longrightarrow> emits Q (io_map g m)"
  unfolding io_map_def by (intro emits_intros)

lemma emits_timeout [emits_intros]:
  assumes "emits Q m"
  shows "emits Q (timeout d m)"
  unfolding emits_def
proof
  fix w :: world
  let ?v = "w\<lparr>deadline := Some (tighten (deadline w) (clock w + d))\<rparr>"
  obtain r w' where 1: "m ?v = (r, w')"
    by fastforce
  then obtain es where "history w' = history ?v @ es" "list_all Q es"
    using emitsD [OF assms] by blast
  with 1 show "\<exists>es. history (snd (timeout d m w)) = history w @ es \<and> list_all Q es"
    by (auto simp: timeout_def split: outcome.splits)
qed

text \<open>
  Sequencing with \<open>?\<close> splits the history: what follows the first computation is there only
  if that one succeeded.
\<close>

lemma io_try_split:
  assumes "emits Q m" and "\<And>a. emits R (f a)"
  shows "\<exists>before after. history (snd (io_try m f w)) = history w @ before @ after \<and>
     list_all Q before \<and> list_all R after \<and>
     (after = [] \<or> (\<exists>a w'. m w = (Done (Inr a), w') \<and> history w' = history w @ before))"
proof -
  obtain r w' where 1: "m w = (r, w')"
    by fastforce
  then obtain es where es: "history w' = history w @ es" "list_all Q es"
    using emitsD [OF assms(1)] by blast
  show ?thesis
  proof (cases "\<exists>a. r = Done (Inr a)")
    case True
    then obtain a where r: "r = Done (Inr a)"
      by blast
    obtain r2 w2 where 2: "f a w' = (r2, w2)"
      by fastforce
    then obtain es2 where "history w2 = history w' @ es2" "list_all R es2"
      using emitsD [OF assms(2)] by blast
    with 1 2 r es show ?thesis
      by (auto simp: io_try_def io_bind_def)
  next
    case False
    with 1 have "snd (io_try m f w) = w'"
      by (auto simp: io_try_def io_bind_def io_return_def split: outcome.split sum.split)
    with es show ?thesis
      by (intro exI [of _ es] exI [of _ "[]"]) simp
  qed
qed

end
