(* ===== verification/Connection.thy ===== *)
theory Connection
  imports Runtime
begin

text \<open>
  \<open>src/connection.rs\<close>: an established connection and its request primitive, the session
  handed to the on-connect hook, and \<open>connect\<close> with its two exchanges, version negotiation
  and authentication.
\<close>

section \<open>Transport\<close>

text \<open>
  \<open>write_frame\<close> and \<open>read_frame\<close> of \<open>bloop_protocol::frame\<close> over a stream, \<open>lookup_host\<close>,
  \<open>TcpStream::connect\<close> and \<open>TlsConnector::connect\<close>: parameters of the model, each with the
  history entry it leaves when it completes or is dropped. A TLS handshake that succeeds
  yields a stream nobody used before.
\<close>

definition write_frame :: "env \<Rightarrow> stream \<Rightarrow> raw_message \<Rightarrow> (frame_error + unit) io" where
  "write_frame E s message =
     io_bind io_history (\<lambda>h. case env_write_frame E h s message of
       (dt, r) \<Rightarrow> await dt (Wrote s message r) (Abandoned (Some s))
         (case r of None \<Rightarrow> Inr () | Some e \<Rightarrow> Inl e))"

definition read_frame :: "env \<Rightarrow> stream \<Rightarrow> u32 \<Rightarrow> (frame_error + raw_message) io" where
  "read_frame E s limit =
     io_bind io_history (\<lambda>h. case env_read_frame E h s limit of
       (dt, r) \<Rightarrow> await dt (Read s limit r) (Abandoned (Some s)) r)"

definition lookup_host :: "env \<Rightarrow> string \<Rightarrow> u16 \<Rightarrow> (io_error + ip_addr list) io" where
  "lookup_host E name p =
     io_bind io_history (\<lambda>h. case env_lookup_host E h name p of
       (dt, r) \<Rightarrow> await dt (LookedUp name p r) (Abandoned None) r)"

definition tcp_connect :: "env \<Rightarrow> ip_addr \<Rightarrow> (io_error + unit) io" where
  "tcp_connect E address =
     io_bind io_history (\<lambda>h. case env_tcp_connect E h address of
       (dt, r) \<Rightarrow> await dt (TcpConnected address r) (Abandoned None)
         (case r of None \<Rightarrow> Inr () | Some e \<Rightarrow> Inl e))"

definition fresh_stream :: "stream io" where
  "fresh_stream w = (Done (next_stream w), w\<lparr>next_stream := Suc (next_stream w)\<rparr>)"

definition tls_connect :: "env \<Rightarrow> string \<Rightarrow> (io_error + stream) io" where
  "tls_connect E domain =
     io_bind fresh_stream (\<lambda>s. io_bind io_history (\<lambda>h. case env_tls_connect E h domain of
       (dt, r) \<Rightarrow> await dt (TlsConnected s domain r) (Abandoned (Some s))
         (case r of None \<Rightarrow> Inr s | Some e \<Rightarrow> Inl e)))"

section \<open>The connection\<close>

datatype connect_error =
    Resolve string
  | InvalidDnsName string
  | Io io_error
  | Frame frame_error
  | ConnectEncode encode_error
  | Timeout
  | UnsupportedVersion u8
  | ConnectUnsupportedVersionRange
  | Unexpected request_error

record connect_options =
  io_timeout :: duration
  option_max_payload_len :: u32

record connection =
  conn_stream :: stream
  conn_capabilities :: capabilities
  max_payload_len :: u32

datatype connect_outcome = OutcomeConnected connection | OutcomeInvalidCredentials

definition request_raw ::
  "env \<Rightarrow> connection \<Rightarrow> raw_message \<Rightarrow> (frame_error + raw_message) io" where
  "request_raw E c message =
     io_try (write_frame E (conn_stream c) message) (\<lambda>_.
       read_frame E (conn_stream c) (max_payload_len c))"

definition ping :: "protocol \<Rightarrow> env \<Rightarrow> connection \<Rightarrow> (request_error + unit) io" where
  "ping P E c =
     (case encode_message P Ping of
        Inl e \<Rightarrow> io_return (Inl (Encode e))
      | Inr message \<Rightarrow>
          io_try (io_map (map_err (\<lambda>_. request_error.Disconnected)) (request_raw E c message))
            (\<lambda>raw. io_return (decode_response P (pong_ops P) raw)))"

definition quit :: "protocol \<Rightarrow> env \<Rightarrow> connection \<Rightarrow> unit io" where
  "quit P E c =
     (case encode_message P Quit of
        Inr message \<Rightarrow> io_map (\<lambda>_. ()) (write_frame E (conn_stream c) message)
      | Inl _ \<Rightarrow> io_return ())"

section \<open>The session of the on-connect hook\<close>

record session =
  session_connection :: connection

definition session_new :: "connection \<Rightarrow> session" where
  "session_new c = \<lparr>session_connection = c\<rparr>"

definition session_capabilities :: "session \<Rightarrow> capabilities" where
  "session_capabilities se = conn_capabilities (session_connection se)"

definition session_custom ::
  "protocol \<Rightarrow> env \<Rightarrow> 'r payload_ops \<Rightarrow> session \<Rightarrow> encode_error + raw_message
     \<Rightarrow> (request_error + 'r) io" where
  "session_custom P E M se encoded =
     (case encoded of
        Inl e \<Rightarrow> io_return (Inl (Encode e))
      | Inr message \<Rightarrow>
          io_try (io_map (map_err (\<lambda>_. request_error.Disconnected))
              (request_raw E (session_connection se) message))
            (\<lambda>raw. io_return (decode_response P M raw)))"

definition session_request_raw ::
  "env \<Rightarrow> session \<Rightarrow> raw_message \<Rightarrow> (request_error + raw_message) io" where
  "session_request_raw E se message =
     io_map (map_err (\<lambda>_. request_error.Disconnected))
       (request_raw E (session_connection se) message)"

definition session_retrieve_audio ::
  "protocol \<Rightarrow> env \<Rightarrow> session \<Rightarrow> uuid \<Rightarrow> (request_error + bytes) io" where
  "session_retrieve_audio P E se i =
     (case encode_message P (RetrieveAudio i) of
        Inl e \<Rightarrow> io_return (Inl (Encode e))
      | Inr message \<Rightarrow>
          io_try (io_map (map_err (\<lambda>_. request_error.Disconnected))
              (request_raw E (session_connection se) message))
            (\<lambda>raw. io_return (decode_response P (audio_data_ops P) raw)))"

section \<open>Connecting\<close>

definition handshake_result ::
  "protocol \<Rightarrow> raw_message \<Rightarrow> connect_error + capabilities" where
  "handshake_result P raw =
     (case decode_response P (server_handshake_ops P) raw of
        Inr handshake \<Rightarrow>
          (if accepted_version handshake \<noteq> 3
           then Inl (UnsupportedVersion (accepted_version handshake))
           else Inr (handshake_capabilities handshake))
      | Inl error \<Rightarrow>
          (if error = Error error_response.UnsupportedVersionRange
           then Inl ConnectUnsupportedVersionRange
           else Inl (Unexpected error)))"

definition negotiate_version ::
  "protocol \<Rightarrow> env \<Rightarrow> connection \<Rightarrow> (connect_error + capabilities) io" where
  "negotiate_version P E c =
     (case encode_message P (ClientHandshake 3 3) of
        Inl e \<Rightarrow> io_return (Inl (ConnectEncode e))
      | Inr message \<Rightarrow>
          io_try (io_map (map_err Frame) (request_raw E c message))
            (\<lambda>raw. io_return (handshake_result P raw)))"

definition authentication_result :: "protocol \<Rightarrow> raw_message \<Rightarrow> connect_error + bool" where
  "authentication_result P raw =
     (case decode_response P (authentication_accepted_ops P) raw of
        Inr _ \<Rightarrow> Inr True
      | Inl error \<Rightarrow>
          (if error = Error error_response.InvalidCredentials then Inr False
           else Inl (Unexpected error)))"

definition authenticate ::
  "protocol \<Rightarrow> env \<Rightarrow> connection \<Rightarrow> connection_config \<Rightarrow> ip_addr
     \<Rightarrow> (connect_error + bool) io" where
  "authenticate P E c config local_ip =
     (case encode_message P (Authentication (config_client_id config)
             (config_client_secret config) local_ip) of
        Inl e \<Rightarrow> io_return (Inl (ConnectEncode e))
      | Inr message \<Rightarrow>
          io_try (io_map (map_err Frame) (request_raw E c message))
            (\<lambda>raw. io_return (authentication_result P raw)))"

text \<open>The part of \<open>connect\<close> under the \<open>io_timeout\<close>: resolve, connect, TLS handshake.\<close>

definition open_stream ::
  "env \<Rightarrow> connection_config \<Rightarrow> ip_addr \<Rightarrow> (connect_error + stream \<times> ip_addr) io" where
  "open_stream E config address =
     io_try (io_map (map_err Io) (tcp_connect E address)) (\<lambda>_.
       io_bind io_history (\<lambda>h. case env_local_addr E h of
           Inl e \<Rightarrow> io_return (Inl (Io e))
         | Inr local_ip \<Rightarrow>
             if \<not> env_server_name E (host config)
             then io_return (Inl (InvalidDnsName (host config)))
             else io_try (io_map (map_err Io) (tls_connect E (host config))) (\<lambda>s.
               io_return (Inr (s, local_ip)))))"

definition establish ::
  "env \<Rightarrow> connection_config \<Rightarrow> (connect_error + stream \<times> ip_addr) io" where
  "establish E config =
     io_try (io_map (map_err (\<lambda>_. Resolve (host config)))
         (lookup_host E (host config) (port config))) (\<lambda>addresses.
       case addresses of
         [] \<Rightarrow> io_return (Inl (Resolve (host config)))
       | address # _ \<Rightarrow> open_stream E config address)"

text \<open>The part after it, on the fresh TLS stream.\<close>

definition login ::
  "protocol \<Rightarrow> env \<Rightarrow> connection_config \<Rightarrow> connect_options \<Rightarrow> stream \<Rightarrow> ip_addr
     \<Rightarrow> (connect_error + connect_outcome) io" where
  "login P E config options s local_ip =
     (let c = \<lparr>conn_stream = s, conn_capabilities = {}, max_payload_len = 1024\<rparr> in
      io_try (negotiate_version P E c) (\<lambda>caps.
        let c = c\<lparr>conn_capabilities := caps\<rparr> in
        io_try (authenticate P E c config local_ip) (\<lambda>authenticated.
          if \<not> authenticated then io_return (Inr OutcomeInvalidCredentials)
          else io_return (Inr (OutcomeConnected
                 (c\<lparr>max_payload_len := option_max_payload_len options\<rparr>))))))"

definition connect ::
  "protocol \<Rightarrow> env \<Rightarrow> connection_config \<Rightarrow> connect_options
     \<Rightarrow> (connect_error + connect_outcome) io" where
  "connect P E config options =
     io_bind (timeout (io_timeout options) (establish E config)) (\<lambda>established.
       case established of
         Inl _ \<Rightarrow> io_return (Inl Timeout)
       | Inr result \<Rightarrow> io_try (io_return result) (\<lambda>stream_ip.
           login P E config options (fst stream_ip) (snd stream_ip)))"

section \<open>Every operation respects the runtime\<close>

lemma tame_transport [tame_intros]:
  "tame (write_frame E s message)"
  "tame (read_frame E s limit)"
  "tame (lookup_host E name p)"
  "tame (tcp_connect E address)"
  "tame fresh_stream"
  unfolding write_frame_def read_frame_def lookup_host_def tcp_connect_def
  by (auto intro!: tame_intros split: prod.split)
     (auto intro!: tameI simp: fresh_stream_def)

lemma tame_tls_connect [tame_intros]: "tame (tls_connect E domain)"
  unfolding tls_connect_def by (auto intro!: tame_intros split: prod.split)

lemma tame_request_raw [tame_intros]: "tame (request_raw E c message)"
  unfolding request_raw_def by (intro tame_intros)

lemma tame_ping [tame_intros]: "tame (ping P E c)"
  unfolding ping_def by (auto intro!: tame_intros split: sum.split)

lemma tame_quit [tame_intros]: "tame (quit P E c)"
  unfolding quit_def by (auto intro!: tame_intros split: sum.split)

lemma tame_session [tame_intros]:
  "tame (session_custom P E M se encoded)"
  "tame (session_request_raw E se message)"
  "tame (session_retrieve_audio P E se i)"
  unfolding session_custom_def session_request_raw_def session_retrieve_audio_def
  by (auto intro!: tame_intros split: sum.split)

lemma tame_negotiate_version [tame_intros]: "tame (negotiate_version P E c)"
  unfolding negotiate_version_def by (auto intro!: tame_intros split: sum.split)

lemma tame_authenticate [tame_intros]: "tame (authenticate P E c config ip)"
  unfolding authenticate_def by (auto intro!: tame_intros split: sum.split)

lemma tame_open_stream [tame_intros]: "tame (open_stream E config address)"
  unfolding open_stream_def by (auto intro!: tame_intros split: sum.split)

lemma tame_establish [tame_intros]: "tame (establish E config)"
  unfolding establish_def by (auto intro!: tame_intros split: list.split)

lemma tame_login [tame_intros]: "tame (login P E config options s ip)"
  unfolding login_def Let_def by (auto intro!: tame_intros)

lemma tame_connect [tame_intros]: "tame (connect P E config options)"
  unfolding connect_def by (auto intro!: tame_intros split: sum.split)

section \<open>What each operation leaves in the history\<close>

lemma write_frame_run:
  assumes "write_frame E s message w = (Done r, w')"
  obtains x where "history w' = history w @ [Wrote s message x]"
    and "r = (case x of None \<Rightarrow> Inr () | Some e \<Rightarrow> Inl e)"
    and "next_stream w' = next_stream w" and "files w' = files w"
  using assms
  by (cases "env_write_frame E (history w) s message")
     (auto simp: write_frame_def io_bind_def io_history_def await_def split: if_splits)

lemma read_frame_run:
  assumes "read_frame E s limit w = (Done r, w')"
  shows "history w' = history w @ [Read s limit r]"
    and "next_stream w' = next_stream w" and "files w' = files w"
  using assms
  by (cases "env_read_frame E (history w) s limit";
      auto simp: read_frame_def io_bind_def io_history_def await_def split: if_splits)+

text \<open>A completed exchange is one frame written and one frame read, on the same stream.\<close>

lemma request_raw_run:
  assumes "request_raw E c message w = (Done (Inr raw), w')"
  shows "history w' = history w @
      [Wrote (conn_stream c) message None, Read (conn_stream c) (max_payload_len c) (Inr raw)]"
    and "next_stream w' = next_stream w" and "files w' = files w"
proof -
  from assms obtain u w1 where
    1: "write_frame E (conn_stream c) message w = (Done (Inr u), w1)" and
    2: "read_frame E (conn_stream c) (max_payload_len c) w1 = (Done (Inr raw), w')"
    by (auto simp: request_raw_def io_simps)
  from 1 obtain x where "history w1 = history w @ [Wrote (conn_stream c) message x]" "x = None"
      "next_stream w1 = next_stream w" "files w1 = files w"
    by (elim write_frame_run) (auto split: option.splits)
  with read_frame_run [OF 2]
  show "history w' = history w @
      [Wrote (conn_stream c) message None, Read (conn_stream c) (max_payload_len c) (Inr raw)]"
    and "next_stream w' = next_stream w" and "files w' = files w"
    by auto
qed

lemma handshake_result_ok:
  "handshake_result P raw = Inr caps \<longleftrightarrow>
     (\<exists>handshake. decode_response P (server_handshake_ops P) raw = Inr handshake \<and>
        accepted_version handshake = 3 \<and> caps = handshake_capabilities handshake)"
  by (auto simp: handshake_result_def split: sum.splits)

lemma authentication_result_ok:
  "authentication_result P raw = Inr b \<longleftrightarrow>
     decode_response P (authentication_accepted_ops P) raw =
       (if b then Inr () else Inl (Error error_response.InvalidCredentials))"
  by (auto simp: authentication_result_def split: sum.splits)

lemma negotiate_version_run:
  assumes "negotiate_version P E c w = (Done (Inr caps), w')"
  obtains message raw where
    "encode_message P (ClientHandshake 3 3) = Inr message"
    "history w' = history w @ [Wrote (conn_stream c) message None,
       Read (conn_stream c) (max_payload_len c) (Inr raw)]"
    "handshake_result P raw = Inr caps" "next_stream w' = next_stream w"
  using assms that
  by (fastforce simp: negotiate_version_def io_simps dest: request_raw_run)

lemma authenticate_run:
  assumes "authenticate P E c config ip w = (Done (Inr b), w')"
  obtains message raw where
    "encode_message P (Authentication (config_client_id config)
       (config_client_secret config) ip) = Inr message"
    "history w' = history w @ [Wrote (conn_stream c) message None,
       Read (conn_stream c) (max_payload_len c) (Inr raw)]"
    "authentication_result P raw = Inr b" "next_stream w' = next_stream w"
  using assms that
  by (fastforce simp: authenticate_def io_simps dest: request_raw_run)

lemma open_stream_run:
  assumes "open_stream E config address w = (Done (Inr (s, ip)), w')"
  shows "history w' = history w @ [TcpConnected address None, TlsConnected s (host config) None]"
    and "env_local_addr E (history w @ [TcpConnected address None]) = Inr ip"
    and "env_server_name E (host config)"
    and "s = next_stream w" and "next_stream w' = Suc (next_stream w)"
proof -
  from assms obtain w1 where
    1: "tcp_connect E address w = (Done (Inr ()), w1)" and
    2: "env_local_addr E (history w1) = Inr ip" and
    3: "env_server_name E (host config)" and
    4: "tls_connect E (host config) w1 = (Done (Inr s), w')"
    by (auto simp: open_stream_def io_simps io_history_def)
  have "history w1 = history w @ [TcpConnected address None]" "next_stream w1 = next_stream w"
    using 1 by (auto simp: tcp_connect_def io_bind_def io_history_def await_def
        split: prod.splits if_splits option.splits)
  moreover have "history w' = history w1 @ [TlsConnected s (host config) None]"
      "s = next_stream w1" "next_stream w' = Suc (next_stream w1)"
    using 4 by (auto simp: tls_connect_def io_bind_def io_history_def await_def fresh_stream_def
        split: prod.splits if_splits option.splits)
  ultimately show "history w' = history w @
        [TcpConnected address None, TlsConnected s (host config) None]"
    and "env_local_addr E (history w @ [TcpConnected address None]) = Inr ip"
    and "env_server_name E (host config)"
    and "s = next_stream w" and "next_stream w' = Suc (next_stream w)"
    using 2 3 by simp_all
qed

lemma establish_run:
  assumes "establish E config w = (Done (Inr (s, ip)), w')"
  obtains address others where
    "history w' = history w @
       [LookedUp (host config) (port config) (Inr (address # others)),
        TcpConnected address None, TlsConnected s (host config) None]"
    "env_server_name E (host config)"
    "s = next_stream w" "next_stream w' = Suc (next_stream w)"
proof -
  from assms obtain address others w1 where
    1: "lookup_host E (host config) (port config) w = (Done (Inr (address # others)), w1)" and
    2: "open_stream E config address w1 = (Done (Inr (s, ip)), w')"
    by (auto simp: establish_def io_simps)
  have "history w1 = history w @ [LookedUp (host config) (port config) (Inr (address # others))]"
      "next_stream w1 = next_stream w"
    using 1 by (auto simp: lookup_host_def io_bind_def io_history_def await_def
        split: prod.splits if_splits)
  with open_stream_run [OF 2] show thesis
    using that [of address others] by simp
qed

section \<open>The network leaves the files alone\<close>

lemma keeps_transport [keeps_intros]:
  "keeps_files (write_frame E s message)"
  "keeps_files (read_frame E s limit)"
  unfolding write_frame_def read_frame_def by (auto intro!: keeps_intros split: prod.split)

lemma keeps_request_raw [keeps_intros]: "keeps_files (request_raw E c message)"
  unfolding request_raw_def by (intro keeps_intros)

lemma keeps_session [keeps_intros]:
  "keeps_files (session_custom P E M se encoded)"
  "keeps_files (session_request_raw E se message)"
  "keeps_files (session_retrieve_audio P E se i)"
  unfolding session_custom_def session_request_raw_def session_retrieve_audio_def
  by (auto intro!: keeps_intros split: sum.split)

section \<open>Which events an operation can cause\<close>

lemma emits_write_frame [emits_intros]:
  "(\<And>x. Q (Wrote s message x)) \<Longrightarrow> Q (Abandoned (Some s)) \<Longrightarrow> emits Q (write_frame E s message)"
  unfolding write_frame_def by (auto intro!: emits_intros split: prod.split)

lemma emits_read_frame [emits_intros]:
  "(\<And>r. Q (Read s limit r)) \<Longrightarrow> Q (Abandoned (Some s)) \<Longrightarrow> emits Q (read_frame E s limit)"
  unfolding read_frame_def by (auto intro!: emits_intros split: prod.split)

lemma emits_request_raw [emits_intros]:
  "(\<And>x. Q (Wrote (conn_stream c) message x)) \<Longrightarrow>
   (\<And>r. Q (Read (conn_stream c) (max_payload_len c) r)) \<Longrightarrow>
   Q (Abandoned (Some (conn_stream c))) \<Longrightarrow> emits Q (request_raw E c message)"
  unfolding request_raw_def by (intro emits_intros)

lemma emits_fresh_stream [emits_intros]: "emits Q fresh_stream"
  by (simp add: emits_def fresh_stream_def)

lemma emits_establish [emits_intros]:
  assumes "\<And>n p r. Q (LookedUp n p r)" and "\<And>a r. Q (TcpConnected a r)"
    and "\<And>s d r. Q (TlsConnected s d r)" and "\<And>s. Q (Abandoned s)"
  shows "emits Q (establish E config)"
  unfolding establish_def open_stream_def lookup_host_def tcp_connect_def tls_connect_def
  by (auto intro!: emits_intros assms split: prod.split list.split sum.split)

lemma emits_negotiate_version [emits_intros]:
  assumes "\<And>message x. encode_message P (ClientHandshake 3 3) = Inr message \<Longrightarrow>
       Q (Wrote (conn_stream c) message x)"
    and "\<And>r. Q (Read (conn_stream c) (max_payload_len c) r)"
    and "Q (Abandoned (Some (conn_stream c)))"
  shows "emits Q (negotiate_version P E c)"
  unfolding negotiate_version_def by (auto intro!: emits_intros assms split: sum.split)

lemma emits_authenticate [emits_intros]:
  assumes "\<And>message x. encode_message P (Authentication (config_client_id config)
         (config_client_secret config) ip) = Inr message \<Longrightarrow>
       Q (Wrote (conn_stream c) message x)"
    and "\<And>r. Q (Read (conn_stream c) (max_payload_len c) r)"
    and "Q (Abandoned (Some (conn_stream c)))"
  shows "emits Q (authenticate P E c config ip)"
  unfolding authenticate_def by (auto intro!: emits_intros assms split: sum.split)

section \<open>What connecting guarantees\<close>


fun reads_with_limit :: "u32 \<Rightarrow> event \<Rightarrow> bool" where
  "reads_with_limit limit (Read _ l _) = (l = limit)"
| "reads_with_limit limit _ = True"

fun writes_only :: "(raw_message \<Rightarrow> bool) \<Rightarrow> event \<Rightarrow> bool" where
  "writes_only ok (Wrote _ message _) = ok message"
| "writes_only ok _ = True"

text \<open>
  C8: Whatever the server does and however the attempt ends, every frame read during
  \<open>connect\<close> is read under the 1024-byte limit: the configured multi-MiB allowance is not in
  force before the server accepted the credentials.
\<close>

theorem connect_reads_bounded:
  "\<exists>es. history (snd (connect P E config options w)) = history w @ es \<and>
     list_all (reads_with_limit 1024) es"
proof -
  have "emits (reads_with_limit 1024) (connect P E config options)"
    unfolding connect_def login_def Let_def by (auto intro!: emits_intros split: sum.split)
  then show ?thesis
    unfolding emits_def by blast
qed

abbreviation hello_frame :: "protocol \<Rightarrow> raw_message \<Rightarrow> bool" where
  "hello_frame P m \<equiv> Inr m = encode_message P (ClientHandshake 3 3)"

abbreviation auth_frame :: "protocol \<Rightarrow> connection_config \<Rightarrow> raw_message \<Rightarrow> bool" where
  "auth_frame P config m \<equiv> \<exists>ip. Inr m = encode_message P
     (Authentication (config_client_id config) (config_client_secret config) ip)"

lemma emits_writes_establish: "emits (writes_only ok) (timeout d (establish E config))"
  by (auto intro!: emits_intros)

lemma login_split:
  "\<exists>before after. history (snd (login P E config options s ip w)) = history w @ before @ after \<and>
     list_all (writes_only (hello_frame P)) before \<and>
     list_all (writes_only (auth_frame P config)) after \<and>
     (after = [] \<or> (\<exists>start s raw caps. before = start @ [Read s 1024 (Inr raw)] \<and>
         handshake_result P raw = Inr caps))"
proof -
  let ?c = "\<lparr>conn_stream = s, conn_capabilities = {}, max_payload_len = 1024\<rparr>"
  have 1: "emits (writes_only (hello_frame P)) (negotiate_version P E ?c)"
    by (auto intro!: emits_intros)
  let ?f = "\<lambda>caps. io_try (authenticate P E (?c\<lparr>conn_capabilities := caps\<rparr>) config ip)
      (\<lambda>authenticated. if \<not> authenticated then io_return (Inr OutcomeInvalidCredentials)
         else io_return (Inr (OutcomeConnected (?c\<lparr>conn_capabilities := caps,
                max_payload_len := option_max_payload_len options\<rparr>))))"
  have 2: "emits (writes_only (auth_frame P config)) (?f caps)" for caps
    by (auto intro!: emits_intros) metis
  from io_try_split [where f = ?f and w = w, OF 1 2] obtain before after where
    split: "history (snd (login P E config options s ip w)) = history w @ before @ after"
      "list_all (writes_only (hello_frame P)) before"
      "list_all (writes_only (auth_frame P config)) after" and
    cont: "after = [] \<or> (\<exists>caps w'. negotiate_version P E ?c w = (Done (Inr caps), w') \<and>
        history w' = history w @ before)"
    unfolding login_def Let_def by blast
  have "\<exists>start s raw caps. before = start @ [Read s 1024 (Inr raw)] \<and>
      handshake_result P raw = Inr caps" if "after \<noteq> []"
    using cont that by (auto elim!: negotiate_version_run)
  with split show ?thesis
    by blast
qed


lemma never_timeout:
  "establish E config w \<noteq> (Done (Inl Timeout), w')"
  "negotiate_version P E c w \<noteq> (Done (Inl Timeout), w')"
  "authenticate P E c config ip w \<noteq> (Done (Inl Timeout), w')"
  by (auto simp: establish_def open_stream_def negotiate_version_def authenticate_def
      handshake_result_def authentication_result_def io_simps io_history_def split: sum.splits)


section \<open>A concrete network\<close>

text \<open>
  A server that speaks the small codec and answers every request after a millisecond; the
  concrete executions of the development talk to it, or to a variation of it.
\<close>

fun last_written :: "event list \<Rightarrow> raw_message \<Rightarrow> raw_message" where
  "last_written [] m = m"
| "last_written (Wrote s m' r # es) m = last_written es m'"
| "last_written (e # es) m = last_written es m"

definition simple_reply :: "raw_message \<Rightarrow> raw_message" where
  "simple_reply m =
     (if message_type m = 1 then \<lparr>message_type = 18, payload = [3, 0]\<rparr>
      else if message_type m = 2 then \<lparr>message_type = 19, payload = []\<rparr>
      else if message_type m = 3 then \<lparr>message_type = 17, payload = []\<rparr>
      else if message_type m = 6 then \<lparr>message_type = 21, payload = [1, 2, 3]\<rparr>
      else \<lparr>message_type = 16, payload = [3]\<rparr>)"

definition simple_env :: env where
  "simple_env =
     \<lparr>env_lookup_host = (\<lambda>h n p. (1, Inr [''10.0.0.1''])),
      env_tcp_connect = (\<lambda>h a. (1, None)),
      env_local_addr = (\<lambda>h. Inr ''10.0.0.2''),
      env_server_name = (\<lambda>n. True),
      env_tls_connect = (\<lambda>h d. (1, None)),
      env_write_frame = (\<lambda>h s m. (1, None)),
      env_read_frame = (\<lambda>h s l. (1, Inr (simple_reply
        (last_written h \<lparr>message_type = 0, payload = []\<rparr>)))),
      env_fs = (\<lambda>h op. (1, None)),
      env_fs_partial = (\<lambda>h op. None)\<rparr>"

definition simple_config :: connection_config where
  "simple_config = \<lparr>host = ''bloop'', port = 12345, config_client_id = ''client'',
     config_client_secret = ''secret''\<rparr>"

definition simple_options :: connect_options where
  "simple_options = \<lparr>io_timeout = 5000, option_max_payload_len = 16777216\<rparr>"

definition fresh_world :: world where
  "fresh_world = \<lparr>clock = 0, deadline = None, history = [], next_stream = 0, files = [],
     temp_counter = 0\<rparr>"

lemma fresh_world_simps [simp]:
  "clock fresh_world = 0" "deadline fresh_world = None" "history fresh_world = []"
  "next_stream fresh_world = 0" "files fresh_world = []" "temp_counter fresh_world = 0"
  by (simp_all add: fresh_world_def)

lemmas network_defs = write_frame_def read_frame_def lookup_host_def tcp_connect_def
  tls_connect_def fresh_stream_def request_raw_def open_stream_def establish_def
  negotiate_version_def authenticate_def login_def connect_def handshake_result_def
  authentication_result_def decode_response_def quit_def ping_def

lemmas runtime_defs = io_bind_def io_return_def io_try_def io_map_def io_history_def
  await_def expires_def timeout_def tighten_def emit_def

lemmas simple_defs = simple_env_def simple_config_def simple_options_def fresh_world_def
  simple_reply_def

lemma simple_connect:
  "connect simple_protocol simple_env simple_config simple_options fresh_world =
     (Done (Inr (OutcomeConnected \<lparr>conn_stream = 0,
        conn_capabilities = {PreloadCheckCapability}, max_payload_len = 16777216\<rparr>)),
      \<lparr>clock = 7, deadline = None, history =
        [LookedUp ''bloop'' 12345 (Inr [''10.0.0.1'']), TcpConnected ''10.0.0.1'' None,
         TlsConnected 0 ''bloop'' None,
         Wrote 0 \<lparr>message_type = 1, payload = [3, 3]\<rparr> None,
         Read 0 1024 (Inr \<lparr>message_type = 18, payload = [3, 0]\<rparr>),
         Wrote 0 \<lparr>message_type = 2, payload = []\<rparr> None,
         Read 0 1024 (Inr \<lparr>message_type = 19, payload = []\<rparr>)],
       next_stream = 1, files = [], temp_counter = 0\<rparr>)"
  by (simp add: network_defs runtime_defs simple_defs)


lemma stalled_connect:
  "connect simple_protocol (simple_env\<lparr>env_lookup_host := \<lambda>h n p. (6000, Inr [])\<rparr>)
     simple_config simple_options fresh_world =
     (Done (Inl Timeout), fresh_world\<lparr>clock := 5000, history := [Abandoned None]\<rparr>)"
  by (simp add: network_defs runtime_defs simple_defs)


end
