(* ===== verification/Wire.thy ===== *)
theory Wire
  imports Connection
begin

text \<open>
  The discipline of the wire: per stream, requests are strictly serialised. A stream is a small
  state machine over the history; \<open>None\<close> means the discipline was broken: a frame written
  while an answer is outstanding, a frame read that no request asked for, or any use of a
  stream on which an operation was abandoned half-way.
\<close>

section \<open>The state of a stream\<close>

datatype wire = Unopened | Idle | Awaiting raw_message | Dead

fun event_stream :: "event \<Rightarrow> stream option" where
  "event_stream (TlsConnected s _ _) = Some s"
| "event_stream (Wrote s _ _) = Some s"
| "event_stream (Read s _ _) = Some s"
| "event_stream (Abandoned s) = s"
| "event_stream _ = None"

fun wire_next :: "wire \<Rightarrow> event \<Rightarrow> wire option" where
  "wire_next Unopened (TlsConnected _ _ None) = Some Idle"
| "wire_next Unopened (TlsConnected _ _ (Some _)) = Some Dead"
| "wire_next Unopened (Abandoned _) = Some Dead"
| "wire_next Idle (Wrote _ m None) = Some (Awaiting m)"
| "wire_next Idle (Wrote _ _ (Some _)) = Some Idle"
| "wire_next Idle (Abandoned _) = Some Dead"
| "wire_next (Awaiting _) (Read _ _ _) = Some Idle"
| "wire_next (Awaiting _) (Abandoned _) = Some Dead"
| "wire_next _ _ = None"

fun wire_run :: "stream \<Rightarrow> wire \<Rightarrow> event list \<Rightarrow> wire option" where
  "wire_run s st [] = Some st"
| "wire_run s st (e # es) =
     (if event_stream e = Some s
      then (case wire_next st e of None \<Rightarrow> None | Some st' \<Rightarrow> wire_run s st' es)
      else wire_run s st es)"

definition wire_state :: "stream \<Rightarrow> event list \<Rightarrow> wire option" where
  "wire_state s h = wire_run s Unopened h"

lemma wire_run_append:
  "wire_run s st (xs @ ys) =
     (case wire_run s st xs of None \<Rightarrow> None | Some st' \<Rightarrow> wire_run s st' ys)"
  by (induction xs arbitrary: st) (auto split: option.split)

lemma wire_state_append:
  "wire_state s h = Some st \<Longrightarrow> wire_state s (h @ es) = wire_run s st es"
  by (simp add: wire_state_def wire_run_append)

lemma wire_run_other: "list_all (\<lambda>e. event_stream e \<noteq> Some s) es \<Longrightarrow> wire_run s st es = Some st"
  by (induction es) auto

lemma wire_state_other:
  "list_all (\<lambda>e. event_stream e \<noteq> Some s) es \<Longrightarrow> wire_state s (h @ es) = wire_state s h"
  by (cases "wire_state s h")
     (simp_all add: wire_state_def wire_run_append wire_run_other)

text \<open>
  The invariant of the world's history: no stream ever broke the discipline, and no stream
  that is yet to be opened was used.
\<close>

definition wire_inv :: "world \<Rightarrow> bool" where
  "wire_inv w \<longleftrightarrow>
     (\<forall>s. wire_state s (history w) \<noteq> None) \<and>
     (\<forall>s \<ge> next_stream w. list_all (\<lambda>e. event_stream e \<noteq> Some s) (history w))"

lemma wire_inv_fresh:
  "wire_inv w \<Longrightarrow> next_stream w \<le> s \<Longrightarrow> wire_state s (history w) = Some Unopened"
  using wire_run_other [of s "history w" Unopened] by (simp add: wire_inv_def wire_state_def)

lemma wire_inv_used:
  "wire_inv w \<Longrightarrow> wire_state s (history w) = Some Idle \<Longrightarrow> s < next_stream w"
  using wire_inv_fresh [of w s] by (cases "s < next_stream w") auto

text \<open>Adding events of one opened stream, or of none.\<close>

lemma wire_inv_extend:
  assumes inv: "wire_inv w" and hist: "history w' = history w @ es"
    and grow: "next_stream w \<le> next_stream w'"
    and own: "list_all (\<lambda>e. event_stream e = None \<or> event_stream e = Some s) es"
    and below: "s < next_stream w'"
    and run: "wire_state s (history w') \<noteq> None"
  shows "wire_inv w'"
proof -
  have other: "list_all (\<lambda>e. event_stream e \<noteq> Some s') es" if "s' \<noteq> s" for s'
    using own that by (auto simp: list_all_iff)
  have "wire_state s' (history w') \<noteq> None" for s'
    using inv run other [of s'] by (cases "s' = s") (auto simp: hist wire_state_other wire_inv_def)
  moreover have "list_all (\<lambda>e. event_stream e \<noteq> Some s') (history w')" if "next_stream w' \<le> s'" for s'
    using inv grow below that other [of s'] by (auto simp: hist wire_inv_def)
  ultimately show ?thesis
    by (simp add: wire_inv_def)
qed

lemma wire_inv_offline:
  assumes "wire_inv w" and "history w' = history w @ es" and "next_stream w \<le> next_stream w'"
    and "list_all (\<lambda>e. event_stream e = None) es"
  shows "wire_inv w'" and "wire_state s (history w') = wire_state s (history w)"
proof -
  have other: "list_all (\<lambda>e. event_stream e \<noteq> Some s) es" for s
    using assms(4) by (auto simp: list_all_iff)
  then show "wire_state s (history w') = wire_state s (history w)" for s
    by (simp add: assms(2) wire_state_other)
  then show "wire_inv w'"
    using assms(1,3) other by (auto simp: wire_inv_def assms(2))
qed

section \<open>Computations that keep the discipline\<close>

text \<open>
  A computation serves a stream when, started on it idle, it keeps the discipline and leaves
  it idle unless it was dropped; it closes a stream when it keeps the discipline but may leave
  the stream unusable.
\<close>

definition serves :: "stream \<Rightarrow> 'a io \<Rightarrow> bool" where
  "serves s m \<longleftrightarrow> (\<forall>w r w'. m w = (r, w') \<longrightarrow> wire_inv w \<longrightarrow> wire_state s (history w) = Some Idle \<longrightarrow>
     wire_inv w' \<and> (r \<noteq> Cancelled \<longrightarrow> wire_state s (history w') = Some Idle))"

definition closes :: "stream \<Rightarrow> 'a io \<Rightarrow> bool" where
  "closes s m \<longleftrightarrow> (\<forall>w r w'. m w = (r, w') \<longrightarrow> wire_inv w \<longrightarrow>
     wire_state s (history w) = Some Idle \<longrightarrow> wire_inv w')"

named_theorems serves_intros \<open>computations that keep a stream's discipline\<close>

lemma servesD:
  "serves s m \<Longrightarrow> m w = (r, w') \<Longrightarrow> wire_inv w \<Longrightarrow> wire_state s (history w) = Some Idle \<Longrightarrow> wire_inv w'"
  "serves s m \<Longrightarrow> m w = (Done a, w') \<Longrightarrow> wire_inv w \<Longrightarrow> wire_state s (history w) = Some Idle \<Longrightarrow>
     wire_state s (history w') = Some Idle"
  unfolding serves_def by blast+

lemma serves_closes: "serves s m \<Longrightarrow> closes s m"
  unfolding serves_def closes_def by blast

lemma serves_return [serves_intros]: "serves s (io_return a)"
  by (simp add: serves_def io_return_def)

lemma serves_bind [serves_intros]:
  assumes m: "serves s m" and f: "\<And>a. serves s (f a)"
  shows "serves s (io_bind m f)"
  unfolding serves_def
proof (intro allI impI)
  fix w r w''
  assume run: "io_bind m f w = (r, w'')" and inv: "wire_inv w" and idle: "wire_state s (history w) = Some Idle"
  obtain r1 w' where 1: "m w = (r1, w')"
    by fastforce
  show "wire_inv w'' \<and> (r \<noteq> Cancelled \<longrightarrow> wire_state s (history w'') = Some Idle)"
  proof (cases r1)
    case Cancelled
    with run 1 have "r = Cancelled" and "w'' = w'"
      by (auto simp: io_bind_def)
    then show ?thesis
      using servesD(1) [OF m 1 inv idle] by simp
  next
    case (Done a)
    with run 1 have 2: "f a w' = (r, w'')"
      by (simp add: io_bind_def)
    have "wire_inv w'" and "wire_state s (history w') = Some Idle"
      using servesD [OF m 1 [unfolded Done] inv idle] by auto
    then show ?thesis
      using f 2 unfolding serves_def by blast
  qed
qed

lemma serves_try [serves_intros]:
  "serves s m \<Longrightarrow> (\<And>a. serves s (f a)) \<Longrightarrow> serves s (io_try m f)"
  unfolding io_try_def by (intro serves_bind) (auto intro: serves_return split: sum.split)

lemma serves_map [serves_intros]: "serves s m \<Longrightarrow> serves s (io_map g m)"
  unfolding io_map_def by (intro serves_intros)

text \<open>Under a timeout the discipline survives; the idle state only if it did not fire.\<close>

lemma timeout_serves:
  assumes m: "serves s m" and run: "timeout d m w = (r, w')"
    and inv: "wire_inv w" and idle: "wire_state s (history w) = Some Idle"
  shows "wire_inv w'" and "r = Done (Inr a) \<Longrightarrow> wire_state s (history w') = Some Idle"
proof -
  let ?v = "w\<lparr>deadline := Some (tighten (deadline w) (clock w + d))\<rparr>"
  have inv': "wire_inv ?v" "wire_state s (history ?v) = Some Idle"
    using inv idle by (simp_all add: wire_inv_def)
  obtain r1 w1 where 1: "m ?v = (r1, w1)"
    by fastforce
  with run have w': "w' = w1\<lparr>deadline := deadline w\<rparr>" and r1: "r = Done (Inr a) \<Longrightarrow> r1 = Done a"
    by (auto simp: timeout_def split: outcome.splits if_splits)
  show "wire_inv w'"
    using servesD(1) [OF m 1 inv'] by (simp add: w' wire_inv_def)
  show "wire_state s (history w') = Some Idle" if "r = Done (Inr a)"
    using servesD(2) [OF m 1 [unfolded r1 [OF that]] inv'] by (simp add: w')
qed

section \<open>The client's operations keep it\<close>

lemma write_frame_any:
  assumes "write_frame E s message w = (r, w')"
  obtains x where "history w' = history w @ [Wrote s message x]" "next_stream w' = next_stream w"
      "r = Done (case x of None \<Rightarrow> Inr () | Some e \<Rightarrow> Inl e)"
    | "history w' = history w @ [Abandoned (Some s)]" "next_stream w' = next_stream w"
      "r = Cancelled"
  using assms
  by (cases "env_write_frame E (history w) s message")
     (auto simp: write_frame_def io_bind_def io_history_def await_def split: if_splits)

lemma read_frame_any:
  assumes "read_frame E s limit w = (r, w')"
  obtains x where "history w' = history w @ [Read s limit x]" "next_stream w' = next_stream w"
      "r = Done x"
    | "history w' = history w @ [Abandoned (Some s)]" "next_stream w' = next_stream w"
      "r = Cancelled"
  using assms
  by (cases "env_read_frame E (history w) s limit")
     (auto simp: read_frame_def io_bind_def io_history_def await_def split: if_splits)

lemma closes_write_frame: "closes s (write_frame E s message)"
  unfolding closes_def
proof (intro allI impI)
  fix w r w'
  assume run: "write_frame E s message w = (r, w')" and inv: "wire_inv w"
    and idle: "wire_state s (history w) = Some Idle"
  from run show "wire_inv w'"
  proof (rule write_frame_any)
    fix x
    assume "history w' = history w @ [Wrote s message x]" "next_stream w' = next_stream w"
    then show ?thesis
      using inv idle wire_inv_used [OF inv idle]
      by (cases x) (auto intro!: wire_inv_extend [OF inv, where s = s] simp: wire_state_append)
  next
    assume "history w' = history w @ [Abandoned (Some s)]" "next_stream w' = next_stream w"
    then show ?thesis
      using inv idle wire_inv_used [OF inv idle]
      by (intro wire_inv_extend [OF inv, where s = s]) (auto simp: wire_state_append)
  qed
qed

lemma wire_after_read:
  assumes inv: "wire_inv w" and await: "wire_state s (history w) = Some (Awaiting message)"
    and run: "read_frame E s limit w = (r, w')"
  shows "wire_inv w'" and "r \<noteq> Cancelled \<Longrightarrow> wire_state s (history w') = Some Idle"
proof -
  have below: "s < next_stream w"
    using wire_inv_fresh [OF inv, of s] await by (cases "s < next_stream w") auto
  have "wire_inv w' \<and> (r \<noteq> Cancelled \<longrightarrow> wire_state s (history w') = Some Idle)"
    using run
  proof (rule read_frame_any)
    fix x
    assume "history w' = history w @ [Read s limit x]" "next_stream w' = next_stream w"
    then show ?thesis
      using inv await below
      by (auto intro!: wire_inv_extend [OF inv, where s = s] simp: wire_state_append)
  next
    assume "history w' = history w @ [Abandoned (Some s)]" "next_stream w' = next_stream w"
      "r = Cancelled"
    then show ?thesis
      using inv await below
      by (auto intro!: wire_inv_extend [OF inv, where s = s] simp: wire_state_append)
  qed
  then show "wire_inv w'" and "r \<noteq> Cancelled \<Longrightarrow> wire_state s (history w') = Some Idle"
    by blast+
qed

lemma serves_request_raw [serves_intros]:
  fixes c :: connection
  shows "serves (conn_stream c) (request_raw E c message)"
  unfolding serves_def
proof (intro allI impI)
  fix w r w'
  let ?s = "conn_stream c"
  assume run: "request_raw E c message w = (r, w')" and inv: "wire_inv w"
    and idle: "wire_state ?s (history w) = Some Idle"
  obtain r1 w1 where 1: "write_frame E ?s message w = (r1, w1)"
    by fastforce
  have inv1: "wire_inv w1"
    using closes_write_frame [of ?s E message] 1 inv idle by (auto simp: closes_def)
  from 1 show "wire_inv w' \<and> (r \<noteq> Cancelled \<longrightarrow> wire_state ?s (history w') = Some Idle)"
  proof (rule write_frame_any)
    fix x
    assume x: "history w1 = history w @ [Wrote ?s message x]"
      "r1 = Done (case x of None \<Rightarrow> Inr () | Some e \<Rightarrow> Inl e)"
    show ?thesis
    proof (cases x)
      case None
      then have "read_frame E ?s (max_payload_len c) w1 = (r, w')"
        using run 1 x by (simp add: request_raw_def io_try_def io_bind_def)
      moreover have "wire_state ?s (history w1) = Some (Awaiting message)"
        using x None idle by (simp add: wire_state_append)
      ultimately show ?thesis
        using wire_after_read [OF inv1] by blast
    next
      case (Some e)
      then have "w' = w1" and "wire_state ?s (history w1) = Some Idle"
        using run 1 x idle
        by (auto simp: request_raw_def io_try_def io_bind_def io_return_def wire_state_append)
      with inv1 show ?thesis
        by simp
    qed
  next
    assume "r1 = Cancelled"
    with run 1 inv1 show ?thesis
      by (auto simp: request_raw_def io_try_def io_bind_def)
  qed
qed

lemma serves_requests [serves_intros]:
  fixes c :: connection and se :: session
  shows "serves (conn_stream c) (ping P E c)"
    and "serves (conn_stream (session_connection se)) (session_custom P E M se encoded)"
    and "serves (conn_stream (session_connection se)) (session_request_raw E se message)"
    and "serves (conn_stream (session_connection se)) (session_retrieve_audio P E se i)"
    and "serves (conn_stream c) (negotiate_version P E c)"
    and "serves (conn_stream c) (authenticate P E c config ip)"
  unfolding ping_def session_custom_def session_request_raw_def session_retrieve_audio_def
    negotiate_version_def authenticate_def
  by (auto intro!: serves_intros split: sum.split)

lemma closes_quit:
  fixes c :: connection
  shows "closes (conn_stream c) (quit P E c)"
proof -
  have "closes s (io_map g m)" if "closes s m" for s g and m :: "'a io"
    using that by (auto simp: closes_def io_map_def io_bind_def io_return_def
        split: prod.splits outcome.splits)
  then show ?thesis
    unfolding quit_def
    by (auto simp: serves_closes serves_return intro: closes_write_frame split: sum.split)
qed

lemma wire_inv_deadline [simp]: "wire_inv (w\<lparr>deadline := d\<rparr>) = wire_inv w"
  by (simp add: wire_inv_def)

lemma offline_run:
  assumes "tame m" and "emits (\<lambda>e. event_stream e = None) m" and run: "m w = (r, w')"
    and inv: "wire_inv w"
  shows "wire_inv w'" and "wire_state s (history w') = wire_state s (history w)"
proof -
  obtain es where es: "history w' = history w @ es" "list_all (\<lambda>e. event_stream e = None) es"
    by (rule emitsD [OF assms(2) run])
  show "wire_inv w'" and "wire_state s (history w') = wire_state s (history w)"
    using wire_inv_offline [OF inv es(1) tameD(4) [OF assms(1) run] es(2)] by blast+
qed

text \<open>Opening a stream: whatever happens the discipline holds, and an opened stream is idle.\<close>

definition opens :: "('e + stream \<times> 'b) io \<Rightarrow> bool" where
  "opens m \<longleftrightarrow> (\<forall>w r w'. m w = (r, w') \<longrightarrow> wire_inv w \<longrightarrow>
     wire_inv w' \<and> (\<forall>s b. r = Done (Inr (s, b)) \<longrightarrow> wire_state s (history w') = Some Idle))"

lemma opens_error: "opens (io_return (Inl e))"
  by (simp add: opens_def io_return_def)

lemma opens_after_offline:
  assumes m: "tame m" "emits (\<lambda>e. event_stream e = None) m" and f: "\<And>a. opens (f a)"
  shows "opens (io_try (io_map (map_err g) m) f)"
  unfolding opens_def
proof (intro allI impI)
  fix w r w'
  assume run: "io_try (io_map (map_err g) m) f w = (r, w')" and inv: "wire_inv w"
  obtain r1 w1 where 1: "m w = (r1, w1)"
    by fastforce
  have inv1: "wire_inv w1"
    by (rule offline_run [OF m 1 inv])
  show "wire_inv w' \<and> (\<forall>s b. r = Done (Inr (s, b)) \<longrightarrow> wire_state s (history w') = Some Idle)"
  proof (cases "\<exists>a. r1 = Done (Inr a)")
    case True
    then obtain a where "r1 = Done (Inr a)"
      by blast
    with run 1 have "f a w1 = (r, w')"
      by (simp add: io_try_def io_map_def io_bind_def io_return_def)
    with f [of a] inv1 show ?thesis
      unfolding opens_def by blast
  next
    case False
    with run 1 have "w' = w1" and "\<forall>s b. r \<noteq> Done (Inr (s, b))"
      by (auto simp: io_try_def io_map_def io_bind_def io_return_def
          split: outcome.splits sum.splits)
    with inv1 show ?thesis
      by simp
  qed
qed

lemma opens_tls_connect: "opens (io_try (io_map (map_err g) (tls_connect E d)) (\<lambda>s. io_return (Inr (s, b))))"
  unfolding opens_def
proof (intro allI impI)
  fix w r w'
  assume run: "io_try (io_map (map_err g) (tls_connect E d)) (\<lambda>s. io_return (Inr (s, b))) w = (r, w')"
    and inv: "wire_inv w"
  let ?s = "next_stream w"
  obtain e where e: "history w' = history w @ [e]" "next_stream w' = Suc ?s"
      "e = Abandoned (Some ?s) \<and> r = Cancelled \<or>
       (\<exists>x. e = TlsConnected ?s d x \<and>
          (x = None \<longrightarrow> r = Done (Inr (?s, b))) \<and> (x \<noteq> None \<longrightarrow> (\<exists>err. r = Done (Inl err))))"
    using run
    by (cases "env_tls_connect E (history w) d"; cases "snd (env_tls_connect E (history w) d)")
       (auto simp: tls_connect_def io_try_def io_map_def io_bind_def io_return_def
        io_history_def fresh_stream_def await_def split: if_splits)
  have "wire_state ?s (history w) = Some Unopened"
    using wire_inv_fresh [OF inv] by simp
  then have state: "wire_state ?s (history w') = wire_next Unopened e"
    using e by (auto simp: wire_state_append split: option.split)
  have known: "wire_next Unopened e \<noteq> None"
  proof (cases e)
    case (TlsConnected s' d' x)
    then show ?thesis by (cases x) auto
  qed (use e(3) in auto)
  have "wire_inv w'"
    by (rule wire_inv_extend [OF inv e(1), where s = ?s]) (use e known state in auto)
  with state show "wire_inv w' \<and>
      (\<forall>s b. r = Done (Inr (s, b)) \<longrightarrow> wire_state s (history w') = Some Idle)"
    using e by (auto split: option.splits)
qed

lemma opens_establish: "opens (establish E config)"
proof -
  have "opens (open_stream E config address)" for address
    unfolding open_stream_def
  proof (rule opens_after_offline)
    show "emits (\<lambda>e. event_stream e = None) (tcp_connect E address)"
      unfolding tcp_connect_def by (auto intro!: emits_intros split: prod.split)
    have bind: "opens (io_bind io_history f)" if "\<And>h. opens (f h)" for f :: "_ \<Rightarrow> ('e + stream \<times> 'b) io"
      using that by (simp add: opens_def io_bind_def io_history_def)
    show "opens (io_bind io_history (\<lambda>h. case env_local_addr E h of
           Inl e \<Rightarrow> io_return (Inl (Io e))
         | Inr local_ip \<Rightarrow>
             if \<not> env_server_name E (host config)
             then io_return (Inl (InvalidDnsName (host config)))
             else io_try (io_map (map_err Io) (tls_connect E (host config))) (\<lambda>s.
               io_return (Inr (s, local_ip)))))" for u
      by (rule bind) (auto intro: opens_error opens_tls_connect split: sum.split)
  qed (intro tame_intros)
  then show ?thesis
    unfolding establish_def
    by (intro opens_after_offline tame_intros)
       (auto simp: lookup_host_def intro!: emits_intros opens_error split: prod.split list.split)
qed

lemma serves_login: "serves s (login P E config options s ip)"
proof -
  have "serves s (negotiate_version P E c)" "serves s (authenticate P E c config ip)"
    if "conn_stream c = s" for c :: connection
    using serves_requests(5) [of c P E] serves_requests(6) [of c P E config ip] that
    by simp_all
  then show ?thesis
    unfolding login_def Let_def by (auto intro!: serves_intros)
qed

text \<open>A connection that \<open>connect\<close> hands out is idle; and no attempt breaks the discipline.\<close>

lemma connect_wire:
  assumes run: "connect P E config options w = (r, w')" and inv: "wire_inv w"
  shows "wire_inv w'"
    and "r = Done (Inr (OutcomeConnected c)) \<Longrightarrow> wire_state (conn_stream c) (history w') = Some Idle"
proof -
  let ?v = "w\<lparr>deadline := Some (tighten (deadline w) (clock w + io_timeout options))\<rparr>"
  obtain r0 w0 where 0: "establish E config ?v = (r0, w0)"
    by fastforce
  have inv0: "wire_inv w0"
    and idle0: "\<And>s ip. r0 = Done (Inr (s, ip)) \<Longrightarrow> wire_state s (history w0) = Some Idle"
    using opens_establish [of E config] 0 inv unfolding opens_def by fastforce+
  have "wire_inv w' \<and>
    (r = Done (Inr (OutcomeConnected c)) \<longrightarrow> wire_state (conn_stream c) (history w') = Some Idle)"
  proof (cases "\<exists>s ip. r0 = Done (Inr (s, ip))")
    case True
    then obtain s ip where r0: "r0 = Done (Inr (s, ip))"
      by blast
    let ?w1 = "w0\<lparr>deadline := deadline w\<rparr>"
    have 1: "login P E config options s ip ?w1 = (r, w')"
      using run 0 r0 by (simp add: connect_def io_bind_def timeout_def io_try_def io_return_def)
    have idle1: "wire_state s (history ?w1) = Some Idle"
      using idle0 [OF r0] by simp
    have "conn_stream c = s" if "r = Done (Inr (OutcomeConnected c))"
      using 1 that by (auto simp: login_def Let_def io_simps split: if_splits)
    then show ?thesis
      using servesD [OF serves_login] 1 inv0 idle1 by (metis wire_inv_deadline)
  next
    case False
    then have "history w' = history w0 \<and> next_stream w' = next_stream w0 \<and>
        r \<noteq> Done (Inr (OutcomeConnected c))"
      using run 0 by (auto simp: connect_def io_bind_def timeout_def io_try_def io_return_def
          split: outcome.splits sum.splits if_splits prod.splits)
    with inv0 show ?thesis
      by (simp add: wire_inv_def)
  qed
  then show "wire_inv w'"
    and "r = Done (Inr (OutcomeConnected c)) \<Longrightarrow> wire_state (conn_stream c) (history w') = Some Idle"
    by blast+
qed

end
