(* ===== verification/Client_Task.thy ===== *)
theory Client_Task
  imports Wire
begin

text \<open>
  The background connection task of \<open>src/client.rs\<close> (\<open>ClientTask\<close>): its state, the command and
  tick handlers, \<open>try_connect\<close> with the on-connect hook, and the status watch. A handler is a
  computation that returns the task's next state; publishing a status and answering a request
  are events of the history, in the order the code performs them.
\<close>

section \<open>State\<close>

type_synonym hook = "session \<Rightarrow> (string + unit) io"

record client_task =
  config :: "connection_config option"
  connection :: "connection option"
  status :: connection_status
  ping_interval :: duration
  request_timeout :: duration
  options :: connect_options
  invalid_credentials_policy :: invalid_credentials_policy
  on_connect :: "hook option"
  credentials_invalid :: bool
  shutdown :: bool

text \<open>
  The response channel of a request or of a shutdown is named by a number; sending on it is
  the event \<open>Answered\<close> or \<open>Acknowledged\<close>.
\<close>

datatype command =
    Configure "connection_config option"
  | Request raw_message nat
  | ShutdownCommand nat

section \<open>Handlers\<close>

definition set_status :: "connection_status \<Rightarrow> client_task \<Rightarrow> client_task io" where
  "set_status s t =
     (if status t = s then io_return t
      else io_map (\<lambda>_. t\<lparr>status := s\<rparr>) (emit (Published s)))"

definition drop_connection :: "client_task \<Rightarrow> client_task io" where
  "drop_connection t = set_status Disconnected (t\<lparr>connection := None\<rparr>)"

definition quit_connection :: "protocol \<Rightarrow> env \<Rightarrow> client_task \<Rightarrow> client_task io" where
  "quit_connection P E t =
     (case connection t of
        None \<Rightarrow> io_return t
      | Some c \<Rightarrow> io_map (\<lambda>_. t\<lparr>connection := None\<rparr>) (quit P E c))"

definition fatal_answer :: "protocol \<Rightarrow> raw_message \<Rightarrow> bool" where
  "fatal_answer P raw \<longleftrightarrow>
     message_type raw = opcode (error_response_ops P) \<and>
     (case decode_message (error_response_ops P) raw of Inr e \<Rightarrow> is_fatal P e | Inl _ \<Rightarrow> False)"

definition handle_configure ::
  "protocol \<Rightarrow> env \<Rightarrow> connection_config option \<Rightarrow> client_task \<Rightarrow> client_task io" where
  "handle_configure P E cfg t =
     (if shutdown t then io_return t
      else io_bind (quit_connection P E t) (\<lambda>t.
        io_bind (set_status (if cfg \<noteq> None then Disconnected else Unconfigured)
                   (t\<lparr>credentials_invalid := False\<rparr>)) (\<lambda>t.
          io_return (t\<lparr>config := cfg\<rparr>))))"

definition handle_request ::
  "protocol \<Rightarrow> env \<Rightarrow> raw_message \<Rightarrow> client_task
     \<Rightarrow> ((request_error + raw_message) \<times> client_task) io" where
  "handle_request P E message t =
     (if shutdown t then io_return (Inl request_error.Shutdown, t)
      else case connection t of
        None \<Rightarrow> io_return (Inl request_error.Disconnected, t)
      | Some c \<Rightarrow>
          io_bind (timeout (request_timeout t) (request_raw E c message)) (\<lambda>r. case r of
              Inr (Inr raw) \<Rightarrow>
                io_map (\<lambda>t. (Inr raw, t))
                  (if fatal_answer P raw then drop_connection t else io_return t)
            | Inr (Inl _) \<Rightarrow>
                io_map (\<lambda>t. (Inl request_error.Disconnected, t)) (drop_connection t)
            | Inl _ \<Rightarrow>
                io_map (\<lambda>t. (Inl request_error.Disconnected, t)) (drop_connection t)))"

definition handle_shutdown :: "protocol \<Rightarrow> env \<Rightarrow> client_task \<Rightarrow> client_task io" where
  "handle_shutdown P E t =
     io_bind (quit_connection P E t) (\<lambda>t. set_status Shutdown (t\<lparr>shutdown := True\<rparr>))"

fun handle_command :: "protocol \<Rightarrow> env \<Rightarrow> command \<Rightarrow> client_task \<Rightarrow> client_task io" where
  "handle_command P E (Configure cfg) t = handle_configure P E cfg t"
| "handle_command P E (Request message response) t =
     io_bind (handle_request P E message t) (\<lambda>result.
       io_map (\<lambda>_. snd result) (emit (Answered response (fst result))))"
| "handle_command P E (ShutdownCommand response) t =
     io_bind (handle_shutdown P E t) (\<lambda>t.
       io_map (\<lambda>_. t) (emit (Acknowledged response)))"

text \<open>
  The on-connect hook runs on the fresh connection; \<open>Some\<close> of a task is the early return of
  \<open>try_connect\<close> after a failed hook.
\<close>

definition run_hook ::
  "protocol \<Rightarrow> env \<Rightarrow> connection \<Rightarrow> client_task \<Rightarrow> client_task option io" where
  "run_hook P E c t =
     (case on_connect t of
        None \<Rightarrow> io_return None
      | Some hook \<Rightarrow>
          io_bind (timeout (request_timeout t) (hook (session_new c))) (\<lambda>r. case r of
              Inr (Inr _) \<Rightarrow> io_return None
            | Inr (Inl _) \<Rightarrow>
                io_bind (quit P E c) (\<lambda>_. io_map Some (set_status Disconnected t))
            | Inl _ \<Rightarrow> io_map Some (set_status Disconnected t)))"

definition try_connect :: "protocol \<Rightarrow> env \<Rightarrow> client_task \<Rightarrow> client_task io" where
  "try_connect P E t =
     (if credentials_invalid t \<and> invalid_credentials_policy t = Latch then io_return t
      else case config t of
        None \<Rightarrow> io_return t
      | Some cfg \<Rightarrow>
          io_bind (timeout (request_timeout t) (connect P E cfg (options t))) (\<lambda>outcome.
            case outcome of
              Inl _ \<Rightarrow> set_status Disconnected t
            | Inr (Inr (OutcomeConnected c)) \<Rightarrow>
                io_bind (run_hook P E c t) (\<lambda>failed. case failed of
                    Some t \<Rightarrow> io_return t
                  | None \<Rightarrow>
                      io_map (\<lambda>t. t\<lparr>connection := Some c\<rparr>)
                        (set_status (Connected (conn_capabilities c))
                           (t\<lparr>credentials_invalid := False\<rparr>)))
            | Inr (Inr OutcomeInvalidCredentials) \<Rightarrow>
                set_status InvalidCredentials (t\<lparr>credentials_invalid := True\<rparr>)
            | Inr (Inl _) \<Rightarrow> set_status Disconnected t))"

definition handle_tick :: "protocol \<Rightarrow> env \<Rightarrow> client_task \<Rightarrow> client_task io" where
  "handle_tick P E t =
     (if shutdown t then io_return t
      else case connection t of
        Some c \<Rightarrow>
          io_bind (timeout (request_timeout t) (ping P E c)) (\<lambda>r. case r of
              Inr (Inr _) \<Rightarrow> io_return t
            | Inr (Inl _) \<Rightarrow> drop_connection t
            | Inl _ \<Rightarrow> drop_connection t)
      | None \<Rightarrow> try_connect P E t)"

text \<open>What \<open>run\<close> does after its loop, when every handle is gone.\<close>

definition wind_down :: "protocol \<Rightarrow> env \<Rightarrow> client_task \<Rightarrow> client_task io" where
  "wind_down P E t = io_bind (quit_connection P E t) (set_status Shutdown)"

section \<open>The task's invariant\<close>

text \<open>
  The status on the watch tells the truth about the task: \<open>Connected\<close> exactly while a
  connection is held, with that connection's capabilities; \<open>Shutdown\<close> exactly after shutdown;
  \<open>Unconfigured\<close> exactly without a configuration; and rejected credentials that latch stay
  visible as \<open>InvalidCredentials\<close>.
\<close>

definition task_inv :: "client_task \<Rightarrow> bool" where
  "task_inv t \<longleftrightarrow>
     (case connection t of
        Some c \<Rightarrow> status t = Connected (conn_capabilities c) \<and> config t \<noteq> None \<and>
                  \<not> shutdown t \<and> \<not> credentials_invalid t
      | None \<Rightarrow>
          (if shutdown t then status t = Shutdown
           else if config t = None then status t = Unconfigured \<and> \<not> credentials_invalid t
           else status t = Disconnected \<and>
                  \<not> (credentials_invalid t \<and> invalid_credentials_policy t = Latch) \<or>
                status t = InvalidCredentials \<and> credentials_invalid t))"

section \<open>Running the handlers\<close>

lemma io_case_outcome [io_simps]:
  "(case o' of OutcomeConnected c \<Rightarrow> f c | OutcomeInvalidCredentials \<Rightarrow> m) w = X \<longleftrightarrow>
     (\<exists>c. o' = OutcomeConnected c \<and> f c w = X) \<or> (o' = OutcomeInvalidCredentials \<and> m w = X)"
  by (auto split: connect_outcome.split)

lemma set_status_run [io_simps]:
  "set_status s t w = (r, w') \<longleftrightarrow>
     r = Done (t\<lparr>status := s\<rparr>) \<and>
     w' = (if status t = s then w else w\<lparr>history := history w @ [Published s]\<rparr>)"
  by (auto simp: set_status_def io_return_def io_map_def io_bind_def emit_def)

lemma drop_connection_run [io_simps]:
  "drop_connection t w = (r, w') \<longleftrightarrow>
     r = Done (t\<lparr>connection := None, status := Disconnected\<rparr>) \<and>
     w' = (if status t = Disconnected then w
           else w\<lparr>history := history w @ [Published Disconnected]\<rparr>)"
  by (simp add: drop_connection_def set_status_run)

lemma emit_run [io_simps]:
  "emit e w = (r, w') \<longleftrightarrow> r = Done () \<and> w' = w\<lparr>history := history w @ [e]\<rparr>"
  by (auto simp: emit_def)

lemma quit_connection_state:
  assumes "quit_connection P E t w = (Done t', w')"
  shows "t' = t\<lparr>connection := None\<rparr>"
  using assms by (auto simp: quit_connection_def io_simps)

lemma run_hook_state:
  assumes "run_hook P E c t w = (Done failed, w')"
  shows "failed = None \<or> failed = Some (t\<lparr>status := Disconnected\<rparr>)"
  using assms by (auto simp: run_hook_def io_simps)

text \<open>The task each handler can return, up to what the environment decides.\<close>

lemma handle_configure_state:
  assumes "handle_configure P E cfg t w = (Done t', w')"
  shows "t' = (if shutdown t then t
     else t\<lparr>connection := None, credentials_invalid := False, config := cfg,
            status := (if cfg \<noteq> None then Disconnected else Unconfigured)\<rparr>)"
  using assms by (auto simp: handle_configure_def io_simps dest!: quit_connection_state)

lemma handle_request_state:
  assumes "handle_request P E message t w = (Done (result, t'), w')"
  shows "t' = t \<or> connection t \<noteq> None \<and> \<not> shutdown t \<and>
           t' = t\<lparr>connection := None, status := Disconnected\<rparr>"
  using assms by (auto simp: handle_request_def io_simps)

lemma handle_shutdown_state:
  assumes "handle_shutdown P E t w = (Done t', w')"
  shows "t' = t\<lparr>connection := None, shutdown := True, status := Shutdown\<rparr>"
  using assms by (auto simp: handle_shutdown_def io_simps dest!: quit_connection_state)

lemma try_connect_state:
  assumes "try_connect P E t w = (Done t', w')"
  shows "t' = t \<and> (config t = None \<or> credentials_invalid t \<and> invalid_credentials_policy t = Latch) \<or>
     config t \<noteq> None \<and> \<not> (credentials_invalid t \<and> invalid_credentials_policy t = Latch) \<and>
     (t' = t\<lparr>status := Disconnected\<rparr> \<or>
      t' = t\<lparr>credentials_invalid := True, status := InvalidCredentials\<rparr> \<or>
      (\<exists>c. t' = t\<lparr>credentials_invalid := False, status := Connected (conn_capabilities c),
                   connection := Some c\<rparr>))"
  using assms by (auto simp: try_connect_def io_simps dest!: run_hook_state)

lemma handle_tick_state:
  assumes "handle_tick P E t w = (Done t', w')"
  shows "t' = t \<or> \<not> shutdown t \<and>
     (connection t \<noteq> None \<and> t' = t\<lparr>connection := None, status := Disconnected\<rparr> \<or>
      connection t = None \<and> try_connect P E t w = (Done t', w'))"
  using assms by (auto simp: handle_tick_def io_simps)

section \<open>Every handler keeps the invariant\<close>

lemma task_inv_drop:
  "task_inv t \<Longrightarrow> connection t \<noteq> None \<Longrightarrow>
     task_inv (t\<lparr>connection := None, status := Disconnected\<rparr>)"
  by (auto simp: task_inv_def)

lemma task_inv_configured:
  "\<not> shutdown t \<Longrightarrow> s = (if cfg \<noteq> None then Disconnected else Unconfigured) \<Longrightarrow>
     task_inv (t\<lparr>connection := None, credentials_invalid := False, config := cfg,
       status := s\<rparr>)"
  by (auto simp: task_inv_def)

lemma handle_configure_inv:
  "task_inv t \<Longrightarrow> handle_configure P E cfg t w = (Done t', w') \<Longrightarrow> task_inv t'"
  by (cases "shutdown t") (auto dest!: handle_configure_state intro!: task_inv_configured)

lemma handle_request_inv:
  "task_inv t \<Longrightarrow> handle_request P E message t w = (Done (result, t'), w') \<Longrightarrow> task_inv t'"
  by (auto dest!: handle_request_state intro: task_inv_drop)

lemma handle_shutdown_inv:
  "task_inv t \<Longrightarrow> handle_shutdown P E t w = (Done t', w') \<Longrightarrow> task_inv t'"
  by (auto simp: task_inv_def dest!: handle_shutdown_state)

lemma handle_command_inv:
  assumes "task_inv t" and "handle_command P E cmd t w = (Done t', w')"
  shows "task_inv t'"
  using assms
  by (cases cmd)
     (auto simp: io_simps elim: handle_configure_inv handle_request_inv handle_shutdown_inv)

lemma try_connect_inv:
  assumes "task_inv t" and "connection t = None" and "\<not> shutdown t"
    and "try_connect P E t w = (Done t', w')"
  shows "task_inv t'"
  using assms(1-3) try_connect_state [OF assms(4)]
  by (auto simp: task_inv_def split: if_splits)

lemma handle_tick_inv:
  assumes "task_inv t" and "handle_tick P E t w = (Done t', w')"
  shows "task_inv t'"
  using assms(1) handle_tick_state [OF assms(2)]
  by (auto intro: try_connect_inv task_inv_drop)

section \<open>Hooks\<close>

text \<open>
  What the documentation of \<open>on_connect\<close> asks of a hook: it respects the runtime, and its I/O
  goes through the session it is given (or to the cache directory), never to the client. The
  session's methods perform whole exchanges, so the stream is idle whenever a hook returns.
\<close>

fun session_event :: "stream \<Rightarrow> event \<Rightarrow> bool" where
  "session_event s (Wrote s' _ _) = (s' = s)"
| "session_event s (Read s' _ _) = (s' = s)"
| "session_event s (Abandoned s') = (s' = Some s)"
| "session_event s (Fs _ _) = True"
| "session_event s (FsAbandoned _) = True"
| "session_event s _ = False"

definition hook_ok :: "hook \<Rightarrow> bool" where
  "hook_ok hook \<longleftrightarrow> (\<forall>se. tame (hook se) \<and>
     emits (session_event (conn_stream (session_connection se))) (hook se) \<and>
     serves (conn_stream (session_connection se)) (hook se))"

definition hooks_ok :: "client_task \<Rightarrow> bool" where
  "hooks_ok t \<longleftrightarrow> (\<forall>hook. on_connect t = Some hook \<longrightarrow> hook_ok hook)"

section \<open>Every handler respects the runtime\<close>

lemma tame_status [tame_intros]:
  "tame (set_status s t)"
  "tame (drop_connection t)"
  unfolding drop_connection_def set_status_def by (auto intro!: tame_intros)

lemma tame_quit_connection [tame_intros]: "tame (quit_connection P E t)"
  unfolding quit_connection_def by (auto intro!: tame_intros split: option.split)

lemma tame_handle_configure [tame_intros]: "tame (handle_configure P E cfg t)"
  unfolding handle_configure_def by (auto intro!: tame_intros)

lemma tame_handle_request [tame_intros]: "tame (handle_request P E message t)"
  unfolding handle_request_def
  by (auto intro!: tame_intros split: option.split sum.split)

lemma tame_handle_shutdown [tame_intros]: "tame (handle_shutdown P E t)"
  unfolding handle_shutdown_def by (auto intro!: tame_intros)

lemma tame_handle_command [tame_intros]: "tame (handle_command P E cmd t)"
  by (cases cmd) (auto intro!: tame_intros)

lemma tame_run_hook [tame_intros]: "hooks_ok t \<Longrightarrow> tame (run_hook P E c t)"
  unfolding run_hook_def hooks_ok_def hook_ok_def
  by (auto intro!: tame_intros split: option.split sum.split)

lemma tame_try_connect [tame_intros]: "hooks_ok t \<Longrightarrow> tame (try_connect P E t)"
  unfolding try_connect_def
  by (auto intro!: tame_intros split: option.split sum.split connect_outcome.split)

lemma tame_handle_tick [tame_intros]: "hooks_ok t \<Longrightarrow> tame (handle_tick P E t)"
  unfolding handle_tick_def
  by (auto intro!: tame_intros split: option.split sum.split)

section \<open>What a handler publishes\<close>

fun published :: "event list \<Rightarrow> connection_status list" where
  "published [] = []"
| "published (Published s # es) = s # published es"
| "published (e # es) = published es"

fun is_published :: "event \<Rightarrow> bool" where
  "is_published (Published _) = True"
| "is_published _ = False"

lemma published_append [simp]: "published (xs @ ys) = published xs @ published ys"
  by (induction xs rule: published.induct) simp_all

lemma published_quiet: "list_all (\<lambda>e. \<not> is_published e) es \<Longrightarrow> published es = []"
  by (induction es rule: published.induct) simp_all

text \<open>A computation is quiet when it publishes nothing.\<close>

abbreviation quiet :: "'a io \<Rightarrow> bool" where
  "quiet \<equiv> emits (\<lambda>e. \<not> is_published e)"

lemma quiet_run: "quiet m \<Longrightarrow> m w = (r, w') \<Longrightarrow> published (history w') = published (history w)"
  by (elim emitsD) (auto simp: published_quiet)

lemma emits_mono: "emits Q m \<Longrightarrow> (\<And>e. Q e \<Longrightarrow> R e) \<Longrightarrow> emits R m"
  unfolding emits_def by (meson list.pred_mono_strong)

lemma session_event_quiet: "session_event s e \<Longrightarrow> \<not> is_published e"
  by (cases e) auto

lemma quiet_hook: "hook_ok hook \<Longrightarrow> quiet (hook se)"
  by (rule emits_mono [where Q = "session_event (conn_stream (session_connection se))"])
     (auto simp: hook_ok_def session_event_quiet)

lemma quiet_network:
  "quiet (request_raw E c message)"
  "quiet (ping P E c)"
  "quiet (quit P E c)"
  "quiet (connect P E cfg opts)"
  "quiet (quit_connection P E t)"
  unfolding ping_def quit_def connect_def login_def quit_connection_def Let_def
  by (auto intro!: emits_intros split: sum.split option.split)

lemma set_status_published:
  "set_status s t w = (Done t', w') \<Longrightarrow>
     published (history w') = published (history w) @ (if status t' = status t then [] else [status t'])"
  by (auto simp: set_status_run)

text \<open>
  Each handler publishes at most one status, the one the task then has, and only when it
  changed.
\<close>

definition publishes_change ::
  "client_task \<Rightarrow> client_task \<Rightarrow> world \<Rightarrow> world \<Rightarrow> bool" where
  "publishes_change t t' w w' \<longleftrightarrow>
     published (history w') =
       published (history w) @ (if status t' = status t then [] else [status t'])"

text \<open>The parts of the handlers that wait, with what they leave on the watch: nothing.\<close>

lemma quit_connection_quiet:
  "quit_connection P E t w = (Done t', w') \<Longrightarrow>
     t' = t\<lparr>connection := None\<rparr> \<and> published (history w') = published (history w)"
  using quit_connection_state quiet_run [OF quiet_network(5)] by blast

lemma timeout_quiet:
  "quiet m \<Longrightarrow> timeout d m w = (r, w') \<Longrightarrow> published (history w') = published (history w)"
  by (rule quiet_run [OF emits_timeout])

lemma handle_configure_publishes:
  "handle_configure P E cfg t w = (Done t', w') \<Longrightarrow> publishes_change t t' w w'"
  by (auto simp: handle_configure_def io_simps publishes_change_def
      dest!: quit_connection_quiet split: if_splits)

lemma handle_request_publishes:
  "handle_request P E message t w = (Done (result, t'), w') \<Longrightarrow> publishes_change t t' w w'"
  by (auto simp: handle_request_def io_simps publishes_change_def
      dest!: timeout_quiet [OF quiet_network(1)] split: if_splits)

lemma handle_shutdown_publishes:
  "handle_shutdown P E t w = (Done t', w') \<Longrightarrow> publishes_change t t' w w'"
  by (auto simp: handle_shutdown_def io_simps publishes_change_def
      dest!: quit_connection_quiet split: if_splits)

lemma handle_command_publishes:
  assumes "handle_command P E cmd t w = (Done t', w')"
  shows "publishes_change t t' w w'"
proof (cases cmd)
  case (Configure cfg)
  with assms show ?thesis
    by (auto intro: handle_configure_publishes)
next
  case (Request message response)
  with assms obtain result w1 where
    1: "handle_request P E message t w = (Done (result, t'), w1)" and
    2: "published (history w') = published (history w1)"
    by (auto simp: io_simps)
  from handle_request_publishes [OF 1] 2 show ?thesis
    by (simp add: publishes_change_def)
next
  case (ShutdownCommand response)
  with assms obtain w1 where
    1: "handle_shutdown P E t w = (Done t', w1)" and
    2: "published (history w') = published (history w1)"
    by (auto simp: io_simps)
  from handle_shutdown_publishes [OF 1] 2 show ?thesis
    by (simp add: publishes_change_def)
qed

lemma run_hook_publishes:
  assumes "hooks_ok t" and run: "run_hook P E c t w = (Done failed, w')"
  shows "published (history w') = published (history w) @
    (if failed = None \<or> status t = Disconnected then [] else [Disconnected])"
proof -
  have hook: "published (history w2) = published (history w1)"
    if "timeout d (hook (session_new c)) w1 = (r, w2)" and "on_connect t = Some hook"
    for hook d w1 r w2
    using assms(1) that(2) timeout_quiet [OF _ that(1)] quiet_hook [of hook "session_new c"]
    by (simp add: hooks_ok_def)
  show ?thesis
    using run
    by (auto simp: run_hook_def io_simps dest!: hook quiet_run [OF quiet_network(3)])
qed

lemma run_hook_cases:
  assumes "hooks_ok t" and "run_hook P E c t w = (Done failed, w')"
  shows "failed = None \<and> published (history w') = published (history w) \<or>
    (failed = Some (t\<lparr>status := Disconnected\<rparr>) \<and>
     published (history w') = published (history w) @
       (if status t = Disconnected then [] else [Disconnected]))"
  using run_hook_state [OF assms(2)] run_hook_publishes [OF assms] by auto

lemma try_connect_publishes:
  assumes "hooks_ok t" and "try_connect P E t w = (Done t', w')"
  shows "publishes_change t t' w w'"
  using assms(2)
  by (auto simp: try_connect_def io_simps publishes_change_def
      dest!: timeout_quiet [OF quiet_network(4)] run_hook_cases [OF assms(1)])

lemma handle_tick_publishes:
  assumes "hooks_ok t" and "handle_tick P E t w = (Done t', w')"
  shows "publishes_change t t' w w'"
proof (cases "shutdown t \<or> connection t \<noteq> None")
  case True
  with assms(2) show ?thesis
    by (auto simp: handle_tick_def io_simps publishes_change_def
        dest!: timeout_quiet [OF quiet_network(2)])
next
  case False
  with assms(2) have "try_connect P E t w = (Done t', w')"
    by (auto simp: handle_tick_def)
  then show ?thesis
    by (rule try_connect_publishes [OF assms(1)])
qed

section \<open>Requests\<close>

fun is_answer :: "event \<Rightarrow> bool" where
  "is_answer (Answered _ _) = True"
| "is_answer _ = False"


lemma handle_request_clock:
  "handle_request P E message t w = (Done (result, t'), w') \<Longrightarrow>
     clock w' \<le> clock w + request_timeout t"
  by (auto simp: handle_request_def io_simps dest!: timeout_bounded [OF tame_request_raw])

lemma emits_status [emits_intros]:
  "Q (Published s) \<Longrightarrow> emits Q (set_status s t)"
  "Q (Published Disconnected) \<Longrightarrow> emits Q (drop_connection t)"
  unfolding drop_connection_def set_status_def by (auto intro!: emits_intros)

lemma handle_request_unanswered: "emits (\<lambda>e. \<not> is_answer e) (handle_request P E message t)"
  unfolding handle_request_def by (auto intro!: emits_intros split: option.split sum.split)

text \<open>
  C19: A request the task takes from its queue is always answered, exactly once, as the last
  thing the handler does, and no later than the request timeout, whatever the server does.
\<close>

theorem request_answered_in_time:
  assumes "deadline w = None"
  shows "\<exists>t' w' es r. handle_command P E (Request message response) t w = (Done t', w') \<and>
    history w' = history w @ es @ [Answered response r] \<and> list_all (\<lambda>e. \<not> is_answer e) es \<and>
    clock w' \<le> clock w + request_timeout t"
proof -
  obtain result t' w1 where 1: "handle_request P E message t w = (Done (result, t'), w1)"
    by (rule tame_undisturbed [OF tame_handle_request [of P E message t] assms]) (metis surj_pair)
  obtain es where es: "history w1 = history w @ es" "list_all (\<lambda>e. \<not> is_answer e) es"
    by (rule emitsD [OF handle_request_unanswered 1])
  let ?w = "w1\<lparr>history := history w1 @ [Answered response result]\<rparr>"
  have "handle_command P E (Request message response) t w = (Done t', ?w)"
    using 1 by (auto simp: io_simps)
  moreover have "clock ?w \<le> clock w + request_timeout t"
    using handle_request_clock [OF 1] by simp
  ultimately show ?thesis
    using es by (intro exI [of _ t'] exI [of _ ?w] exI [of _ es] exI [of _ result]) simp
qed

section \<open>Keep-alive\<close>


section \<open>Connecting and the hook\<close>

lemma run_hook_ok:
  assumes "run_hook P E c t w1 = (Done None, w2)"
  shows "case on_connect t of
       None \<Rightarrow> w2 = w1
     | Some hook \<Rightarrow> timeout (request_timeout t) (hook (session_new c)) w1
         = (Done (Inr (Inr ())), w2)"
  using assms by (auto simp: run_hook_def io_simps split: option.splits)

lemma connected_hook_ran:
  assumes "try_connect P E t w = (Done t', w')" and "connection t = None"
    and "connection t' = Some c" and "on_connect t = Some hook"
  shows "\<exists>w1 w2. timeout (request_timeout t) (hook (session_new c)) w1 = (Done (Inr (Inr ())), w2) \<and>
    files w' = files w2"
  using assms by (fastforce simp: try_connect_def io_simps dest: run_hook_ok run_hook_state)

text \<open>
  C9: The client reports \<open>Connected\<close> only after a successful connect and after the on-connect
  hook returned \<open>Ok\<close> on that very connection, within its deadline. The status with the
  server's declared capabilities is the first and only thing the attempt publishes, and it is
  the last event of the attempt.
\<close>

theorem hook_before_connected:
  assumes inv: "task_inv t" and idle: "connection t = None"
    and run: "try_connect P E t w = (Done t', w')" and conn: "connection t' = Some c"
  shows "\<exists>cfg w1 w2. config t = Some cfg \<and>
    timeout (request_timeout t) (connect P E cfg (options t)) w
      = (Done (Inr (Inr (OutcomeConnected c))), w1) \<and>
    (case on_connect t of
       None \<Rightarrow> w2 = w1
     | Some hook \<Rightarrow> timeout (request_timeout t) (hook (session_new c)) w1
         = (Done (Inr (Inr ())), w2)) \<and>
    w' = w2\<lparr>history := history w2 @ [Published (Connected (conn_capabilities c))]\<rparr> \<and>
    t' = t\<lparr>credentials_invalid := False, status := Connected (conn_capabilities c),
           connection := Some c\<rparr>"
proof -
  have fresh: "status t \<noteq> Connected caps" for caps
    using inv idle by (auto simp: task_inv_def split: if_splits)
  show ?thesis
    using run idle conn
    by (fastforce simp: try_connect_def io_simps fresh dest: run_hook_ok run_hook_state)
qed



section \<open>Reconfiguration and shutdown\<close>

text \<open>
  C23: Replacing the configuration drops the connection after announcing it: the only frame
  written is \<open>Quit\<close>, on the old connection. The latch is cleared, the new configuration is in
  force, and the status becomes \<open>Disconnected\<close> or, without a configuration, \<open>Unconfigured\<close>.
\<close>

theorem configure_effect:
  assumes up: "\<not> shutdown t" and top: "deadline w = None"
  shows "\<exists>t' w' es. handle_command P E (Configure new) t w = (Done t', w') \<and>
    connection t' = None \<and> config t' = new \<and> \<not> credentials_invalid t' \<and> \<not> shutdown t' \<and>
    status t' = (if new \<noteq> None then Disconnected else Unconfigured) \<and>
    history w' = history w @ es @ (if status t' = status t then [] else [Published (status t')]) \<and>
    (case (connection t, encode_message P Quit) of
       (Some c, Inr message) \<Rightarrow> \<exists>x. es = [Wrote (conn_stream c) message x]
     | _ \<Rightarrow> es = [])"
proof -
  obtain u w1 where 1: "quit_connection P E t w = (Done u, w1)"
    by (rule tame_undisturbed [OF tame_quit_connection [of P E t] top])
  have u: "u = t\<lparr>connection := None\<rparr>"
    by (rule quit_connection_state [OF 1])
  obtain es where es: "history w1 = history w @ es"
      "case (connection t, encode_message P Quit) of
         (Some c, Inr message) \<Rightarrow> \<exists>x. es = [Wrote (conn_stream c) message x]
       | _ \<Rightarrow> es = []"
    using 1
    by (auto simp: quit_connection_def quit_def io_simps elim!: write_frame_run
        split: option.splits sum.splits)
  let ?s = "if new \<noteq> None then Disconnected else Unconfigured"
  have "handle_command P E (Configure new) t w =
      (Done (u\<lparr>credentials_invalid := False, status := ?s, config := new\<rparr>),
       if status t = ?s then w1 else w1\<lparr>history := history w1 @ [Published ?s]\<rparr>)"
    using 1 up u by (simp add: handle_configure_def io_bind_def set_status_def io_return_def
        io_map_def emit_def)
  with es u up show ?thesis
    by auto
qed


section \<open>Concrete tasks\<close>

text \<open>
  A configured task that is not connected, one that is, one whose credentials were refused, and
  one with a hook that performs a raw exchange on its session.
\<close>

definition simple_task :: client_task where
  "simple_task =
     \<lparr>config = Some simple_config, connection = None, status = Disconnected,
      ping_interval = 3000, request_timeout = 60000, options = simple_options,
      invalid_credentials_policy = Latch, on_connect = None, credentials_invalid = False,
      shutdown = False\<rparr>"

definition simple_connection :: connection where
  "simple_connection = \<lparr>conn_stream = 0, conn_capabilities = {PreloadCheckCapability},
     max_payload_len = 16777216\<rparr>"

definition connected_task :: client_task where
  "connected_task = simple_task\<lparr>status := Connected {PreloadCheckCapability},
     connection := Some simple_connection\<rparr>"

definition latched_task :: client_task where
  "latched_task = simple_task\<lparr>status := InvalidCredentials, credentials_invalid := True\<rparr>"

definition simple_hook :: hook where
  "simple_hook se =
     io_map (\<lambda>r. map_ok (\<lambda>_. ()) (map_err (\<lambda>_. ''no answer'') r))
       (session_request_raw simple_env se \<lparr>message_type = 3, payload = []\<rparr>)"

definition hooked_task :: client_task where
  "hooked_task = simple_task\<lparr>on_connect := Some simple_hook\<rparr>"

lemmas task_defs = simple_task_def simple_connection_def connected_task_def latched_task_def
  hooked_task_def

lemma connected_task_simps [simp]:
  "\<not> shutdown connected_task" "connection connected_task = Some simple_connection"
  "request_timeout connected_task = 60000"
  "conn_stream simple_connection = 0" "max_payload_len simple_connection = 16777216"
  by (simp_all add: task_defs)

lemma simple_hook_ok: "hook_ok simple_hook"
  unfolding hook_ok_def simple_hook_def
  by (auto intro!: tame_intros serves_intros simp: session_request_raw_def intro!: emits_intros)

lemma hooked_task_ok: "hooks_ok hooked_task" "task_inv hooked_task"
  by (simp_all add: hooks_ok_def task_inv_def task_defs simple_hook_ok)

lemma simple_request:
  "handle_request simple_protocol simple_env \<lparr>message_type = 3, payload = []\<rparr> connected_task
     fresh_world =
     (Done (Inr \<lparr>message_type = 17, payload = []\<rparr>, connected_task),
      fresh_world\<lparr>clock := 2, history :=
        [Wrote 0 \<lparr>message_type = 3, payload = []\<rparr> None,
         Read 0 16777216 (Inr \<lparr>message_type = 17, payload = []\<rparr>)]\<rparr>)"
  by (simp add: handle_request_def fatal_answer_def task_defs network_defs runtime_defs simple_defs)


theorem request_answered_in_time_witness:
  "\<exists>t' w' es r. handle_command simple_protocol simple_env
       (Request \<lparr>message_type = 3, payload = []\<rparr> 7) connected_task fresh_world = (Done t', w') \<and>
     history w' = es @ [Answered 7 r] \<and> list_all (\<lambda>e. \<not> is_answer e) es \<and> clock w' \<le> 60000"
  using request_answered_in_time [of fresh_world simple_protocol simple_env
      "\<lparr>message_type = 3, payload = []\<rparr>" 7 connected_task]
  by simp


lemma hooked_connect:
  "try_connect simple_protocol simple_env hooked_task fresh_world =
     (Done (hooked_task\<lparr>credentials_invalid := False,
        status := Connected {PreloadCheckCapability}, connection := Some simple_connection\<rparr>),
      fresh_world\<lparr>clock := 9, history :=
        [LookedUp ''bloop'' 12345 (Inr [''10.0.0.1'']), TcpConnected ''10.0.0.1'' None,
         TlsConnected 0 ''bloop'' None,
         Wrote 0 \<lparr>message_type = 1, payload = [3, 3]\<rparr> None,
         Read 0 1024 (Inr \<lparr>message_type = 18, payload = [3, 0]\<rparr>),
         Wrote 0 \<lparr>message_type = 2, payload = []\<rparr> None,
         Read 0 1024 (Inr \<lparr>message_type = 19, payload = []\<rparr>),
         Wrote 0 \<lparr>message_type = 3, payload = []\<rparr> None,
         Read 0 16777216 (Inr \<lparr>message_type = 17, payload = []\<rparr>),
         Published (Connected {PreloadCheckCapability})], next_stream := 1\<rparr>)"
  by (simp add: try_connect_def run_hook_def simple_hook_def session_request_raw_def
      session_new_def set_status_def task_defs network_defs runtime_defs simple_defs)

lemma hooked_task_simps [simp]:
  "\<not> shutdown hooked_task" "connection hooked_task = None" "request_timeout hooked_task = 60000"
  "on_connect hooked_task = Some simple_hook"
  by (simp_all add: task_defs)

theorem hook_before_connected_witness:
  "\<exists>cfg w1 w2. timeout 60000 (connect simple_protocol simple_env cfg (options hooked_task))
       fresh_world = (Done (Inr (Inr (OutcomeConnected simple_connection))), w1) \<and>
     timeout 60000 (simple_hook (session_new simple_connection)) w1 = (Done (Inr (Inr ())), w2)"
  using hook_before_connected [OF hooked_task_ok(2) hooked_task_simps(2) hooked_connect,
      of simple_connection]
  by auto



theorem configure_effect_witness:
  "\<exists>t' w' x. handle_command simple_protocol simple_env (Configure None) connected_task fresh_world
       = (Done t', w') \<and> connection t' = None \<and> status t' = Unconfigured \<and>
     history w' = [Wrote 0 \<lparr>message_type = 4, payload = []\<rparr> x, Published Unconfigured]"
proof -
  have "status connected_task \<noteq> Unconfigured"
    by (simp add: task_defs)
  with configure_effect [OF connected_task_simps(1) fresh_world_simps(2),
      of simple_protocol simple_env None]
  show ?thesis
    by (auto split: if_splits)
qed


end
