(* ===== verification/Client_Wire.thy ===== *)
theory Client_Wire
  imports Client_Task
begin

text \<open>
  The connection task and the wire: every handler keeps the discipline of \<open>Wire\<close>, and the
  connection the task holds between two handlers is idle, so the next request starts on a
  stream with no answer outstanding.
\<close>

definition task_wire :: "client_task \<Rightarrow> world \<Rightarrow> bool" where
  "task_wire t w \<longleftrightarrow> wire_inv w \<and>
     (\<forall>c. connection t = Some c \<longrightarrow> wire_state (conn_stream c) (history w) = Some Idle)"

lemma wire_note [simp]:
  assumes "event_stream e = None"
  shows "wire_state s (h @ [e]) = wire_state s h"
    and "wire_inv (w\<lparr>history := history w @ [e]\<rparr>) = wire_inv w"
proof -
  have state: "wire_state s (h @ [e]) = wire_state s h" for s h
    using assms by (intro wire_state_other) simp
  show "wire_state s (h @ [e]) = wire_state s h"
    by (rule state)
  show "wire_inv (w\<lparr>history := history w @ [e]\<rparr>) = wire_inv w"
    using assms by (simp add: wire_inv_def state)
qed

lemma task_wire_alone [simp]: "connection t = None \<Longrightarrow> task_wire t w = wire_inv w"
  by (simp add: task_wire_def)

lemma quit_connection_wire:
  assumes "task_wire t w" and "quit_connection P E t w = (Done t', w')"
  shows "connection t' = None \<and> wire_inv w'"
  using assms closes_quit
  by (fastforce simp: quit_connection_def task_wire_def closes_def io_simps split: option.splits)

lemma handle_configure_wire:
  assumes "task_wire t w" and "handle_configure P E cfg t w = (Done t', w')"
  shows "task_wire t' w'"
  using assms
  by (auto simp: handle_configure_def io_simps dest!: quit_connection_wire [OF assms(1)])

lemma handle_shutdown_wire:
  assumes "task_wire t w" and "handle_shutdown P E t w = (Done t', w')"
  shows "task_wire t' w'"
  using assms
  by (auto simp: handle_shutdown_def io_simps dest!: quit_connection_wire [OF assms(1)])

lemma wind_down_wire:
  assumes "task_wire t w" and "wind_down P E t w = (Done t', w')"
  shows "task_wire t' w'"
  using assms
  by (auto simp: wind_down_def io_simps dest!: quit_connection_wire [OF assms(1)])

lemma handle_request_wire:
  assumes wire: "task_wire t w" and run: "handle_request P E message t w = (Done (result, t'), w')"
  shows "task_wire t' w'"
proof (cases "shutdown t \<or> connection t = None")
  case True
  with wire run show ?thesis
    by (auto simp: handle_request_def io_simps)
next
  case False
  then obtain c where c: "connection t = Some c" and up: "\<not> shutdown t"
    by auto
  from wire c have inv: "wire_inv w" "wire_state (conn_stream c) (history w) = Some Idle"
    by (simp_all add: task_wire_def)
  have "wire_inv w1 \<and> (\<forall>a. r = Inr a \<longrightarrow> wire_state (conn_stream c) (history w1) = Some Idle)"
    if "timeout (request_timeout t) (request_raw E c message) w = (Done r, w1)" for r w1
    using timeout_serves [OF serves_request_raw that inv] by simp
  with run c up show ?thesis
    by (fastforce simp: handle_request_def io_simps task_wire_def)
qed

lemma handle_command_wire:
  assumes "task_wire t w" and "handle_command P E cmd t w = (Done t', w')"
  shows "task_wire t' w'"
proof (cases cmd)
  case (Configure cfg)
  with assms show ?thesis
    by (auto intro: handle_configure_wire)
next
  case (Request message response)
  with assms obtain result w1 where
    1: "handle_request P E message t w = (Done (result, t'), w1)" and
    2: "w' = w1\<lparr>history := history w1 @ [Answered response result]\<rparr>"
    by (auto simp: io_simps)
  from handle_request_wire [OF assms(1) 1] 2 show ?thesis
    by (simp add: task_wire_def)
next
  case (ShutdownCommand response)
  with assms obtain w1 where
    1: "handle_shutdown P E t w = (Done t', w1)" and
    2: "w' = w1\<lparr>history := history w1 @ [Acknowledged response]\<rparr>"
    by (auto simp: io_simps)
  from handle_shutdown_wire [OF assms(1) 1] 2 show ?thesis
    by (simp add: task_wire_def)
qed

lemma timeout_connect_wire:
  assumes run: "timeout d (connect P E cfg opts) w = (r, w')" and inv: "wire_inv w"
  shows "wire_inv w'"
    and "r = Done (Inr (Inr (OutcomeConnected c))) \<Longrightarrow>
      wire_state (conn_stream c) (history w') = Some Idle"
proof -
  let ?v = "w\<lparr>deadline := Some (tighten (deadline w) (clock w + d))\<rparr>"
  obtain r1 w1 where 1: "connect P E cfg opts ?v = (r1, w1)"
    by fastforce
  with run have w': "w' = w1\<lparr>deadline := deadline w\<rparr>"
    and r1: "r = Done (Inr a) \<Longrightarrow> r1 = Done a" for a
    by (auto simp: timeout_def split: outcome.splits if_splits)
  have v: "wire_inv ?v"
    using inv by simp
  show "wire_inv w'"
    using connect_wire(1) [OF 1 v] by (simp add: w')
  show "wire_state (conn_stream c) (history w') = Some Idle"
    if "r = Done (Inr (Inr (OutcomeConnected c)))"
    using connect_wire(2) [OF 1 v r1 [OF that]] by (simp add: w')
qed

lemma run_hook_wire:
  assumes hooks: "hooks_ok t" and run: "run_hook P E c t w = (Done failed, w')"
    and inv: "wire_inv w" and idle: "wire_state (conn_stream c) (history w) = Some Idle"
  shows "wire_inv w'" and "failed = None \<Longrightarrow> wire_state (conn_stream c) (history w') = Some Idle"
proof -
  have hook: "wire_inv w1 \<and> (\<forall>a. r = Inr a \<longrightarrow> wire_state (conn_stream c) (history w1) = Some Idle)"
    if "on_connect t = Some hook" and 1: "timeout d (hook (session_new c)) w = (Done r, w1)"
    for hook d r w1
  proof -
    have "serves (conn_stream c) (hook (session_new c))"
      using hooks that(1) unfolding hooks_ok_def hook_ok_def by (metis session.select_convs(1) session_new_def)
    from timeout_serves [OF this 1 inv idle] show ?thesis
      by simp
  qed
  have quit: "wire_inv w2" if "quit P E c w1 = (r, w2)" "wire_inv w1"
    "wire_state (conn_stream c) (history w1) = Some Idle" for r w1 w2
    using closes_quit that unfolding closes_def by blast
  show "wire_inv w'" and "failed = None \<Longrightarrow> wire_state (conn_stream c) (history w') = Some Idle"
    using run inv idle by (auto simp: run_hook_def io_simps dest!: hook dest: quit)
qed

lemma try_connect_wire:
  assumes hooks: "hooks_ok t" and run: "try_connect P E t w = (Done t', w')"
    and alone: "connection t = None" and inv: "wire_inv w"
  shows "task_wire t' w'"
proof -
  have conn: "wire_inv w1 \<and> (\<forall>c. r = Inr (Inr (OutcomeConnected c)) \<longrightarrow>
      wire_state (conn_stream c) (history w1) = Some Idle)"
    if "timeout d (connect P E cfg opts) w = (Done r, w1)" for d cfg opts r w1
    using timeout_connect_wire [OF that inv] by simp
  have hook: "wire_inv w2 \<and> (failed = None \<longrightarrow> wire_state (conn_stream c) (history w2) = Some Idle) \<and>
      (\<forall>t1. failed = Some t1 \<longrightarrow> connection t1 = None)"
    if "run_hook P E c t w1 = (Done failed, w2)" "wire_inv w1"
      "wire_state (conn_stream c) (history w1) = Some Idle" for c w1 w2 failed
    using run_hook_wire [OF hooks that] run_hook_state [OF that(1)] alone by auto
  show ?thesis
    using run alone inv
    by (auto simp: try_connect_def io_simps task_wire_def dest!: conn dest: hook)
qed

lemma handle_tick_wire:
  assumes hooks: "hooks_ok t" and wire: "task_wire t w"
    and run: "handle_tick P E t w = (Done t', w')"
  shows "task_wire t' w'"
proof (cases "connection t")
  case None
  with wire run show ?thesis
    by (auto simp: handle_tick_def io_simps intro: try_connect_wire [OF hooks])
next
  case (Some c)
  with wire have inv: "wire_inv w" "wire_state (conn_stream c) (history w) = Some Idle"
    by (simp_all add: task_wire_def)
  have "wire_inv w1 \<and> (\<forall>a. r = Inr a \<longrightarrow> wire_state (conn_stream c) (history w1) = Some Idle)"
    if "timeout (request_timeout t) (ping P E c) w = (Done r, w1)" for r w1
    using timeout_serves [OF serves_requests(1) that inv] by simp
  with run Some inv show ?thesis
    by (fastforce simp: handle_tick_def io_simps task_wire_def)
qed

end
