(* ===== verification/Tls.thy ===== *)
theory Tls
  imports Protocol
begin

text \<open>
  \<open>src/tls.rs\<close>: the choice of certificate verifier. The \<open>rustls\<close> stack is not part of this
  repository: a crypto provider is the record of the functions the code calls on it, and the
  steps of the configuration builder that can fail are the parameter \<open>rustls\<close>.
\<close>

datatype tls_error = Rustls string

datatype root_cert_source = Platform | DangerousDisabled

record crypto_provider =
  verify_tls12_signature :: "bytes \<Rightarrow> bytes \<Rightarrow> bytes \<Rightarrow> string + unit"
  verify_tls13_signature :: "bytes \<Rightarrow> bytes \<Rightarrow> bytes \<Rightarrow> string + unit"
  supported_schemes :: "nat list"

record rustls =
  get_default :: "crypto_provider option"
  aws_lc_rs_default_provider :: crypto_provider
  with_safe_default_protocol_versions :: "crypto_provider \<Rightarrow> string + unit"
  with_platform_verifier :: "crypto_provider \<Rightarrow> string + unit"

datatype cert_verifier =
    PlatformVerifier
  | SkipCertificateVerification (skip_provider: crypto_provider)

record client_config =
  config_provider :: crypto_provider
  config_verifier :: cert_verifier

definition default_provider :: "rustls \<Rightarrow> crypto_provider" where
  "default_provider R =
     (case get_default R of Some p \<Rightarrow> p | None \<Rightarrow> aws_lc_rs_default_provider R)"

definition skip_new :: "rustls \<Rightarrow> cert_verifier" where
  "skip_new R = SkipCertificateVerification (default_provider R)"

definition create_connector :: "rustls \<Rightarrow> root_cert_source \<Rightarrow> tls_error + client_config" where
  "create_connector R source =
     (case source of
        Platform \<Rightarrow>
          let p = default_provider R in
          and_then (map_err Rustls (with_safe_default_protocol_versions R p)) (\<lambda>_.
            and_then (map_err Rustls (with_platform_verifier R p)) (\<lambda>_.
              Inr \<lparr>config_provider = p, config_verifier = PlatformVerifier\<rparr>))
      | DangerousDisabled \<Rightarrow>
          let verifier = skip_new R; p = skip_provider verifier in
          and_then (map_err Rustls (with_safe_default_protocol_versions R p)) (\<lambda>_.
            Inr \<lparr>config_provider = p, config_verifier = verifier\<rparr>))"

text \<open>The methods of \<open>SkipCertificateVerification\<close>.\<close>

definition skip_verify_server_cert ::
  "cert_verifier \<Rightarrow> bytes \<Rightarrow> bytes list \<Rightarrow> string \<Rightarrow> bytes \<Rightarrow> nat \<Rightarrow> string + unit" where
  "skip_verify_server_cert v end_entity intermediates server_name ocsp_response now = Inr ()"

definition skip_verify_tls12_signature ::
  "cert_verifier \<Rightarrow> bytes \<Rightarrow> bytes \<Rightarrow> bytes \<Rightarrow> string + unit" where
  "skip_verify_tls12_signature v message cert dss =
     verify_tls12_signature (skip_provider v) message cert dss"

definition skip_verify_tls13_signature ::
  "cert_verifier \<Rightarrow> bytes \<Rightarrow> bytes \<Rightarrow> bytes \<Rightarrow> string + unit" where
  "skip_verify_tls13_signature v message cert dss =
     verify_tls13_signature (skip_provider v) message cert dss"

definition skip_supported_verify_schemes :: "cert_verifier \<Rightarrow> nat list" where
  "skip_supported_verify_schemes v = supported_schemes (skip_provider v)"


text \<open>A small stack on which a connector can be built.\<close>

definition simple_rustls :: rustls where
  "simple_rustls =
     (let p = \<lparr>verify_tls12_signature = (\<lambda>m c d. if d = [] then Inl ''bad'' else Inr ()),
               verify_tls13_signature = (\<lambda>m c d. if d = [] then Inl ''bad'' else Inr ()),
               supported_schemes = [1027]\<rparr> in
      \<lparr>get_default = None, aws_lc_rs_default_provider = p,
       with_safe_default_protocol_versions = (\<lambda>_. Inr ()),
       with_platform_verifier = (\<lambda>_. Inr ())\<rparr>)"

lemma simple_connector:
  "create_connector simple_rustls Platform =
     Inr \<lparr>config_provider = default_provider simple_rustls, config_verifier = PlatformVerifier\<rparr>"
  by (simp add: create_connector_def simple_rustls_def Let_def)


end
