(* ===== verification/Client.thy ===== *)
theory Client
  imports Client_Wire Tls
begin

text \<open>
  The client handle of \<open>src/client.rs\<close>: the builder, the operations of \<open>BloopClient\<close>, and the
  whole client as a system of the connection task, its command queue, the handles that feed it
  and the world. A step of the system is one handler of the task, one command sent, one handle
  cloned or dropped, or time passing; which one comes next is not determined.
\<close>

section \<open>The builder\<close>

record client_builder =
  builder_config :: "connection_config option"
  builder_root_cert_source :: root_cert_source
  builder_ping_interval :: duration
  builder_io_timeout :: duration
  builder_request_timeout :: duration
  builder_max_payload_len :: u32
  builder_invalid_credentials_policy :: invalid_credentials_policy
  builder_on_connect :: "hook option"

definition builder_new :: client_builder where
  "builder_new =
     \<lparr>builder_config = None,
      builder_root_cert_source = Platform,
      builder_ping_interval = 3 * 1000,
      builder_io_timeout = 5 * 1000,
      builder_request_timeout = 60 * 1000,
      builder_max_payload_len = 16 * 1024 * 1024,
      builder_invalid_credentials_policy = Latch,
      builder_on_connect = None\<rparr>"

text \<open>The setters, each changing one field.\<close>

definition set_config :: "connection_config \<Rightarrow> client_builder \<Rightarrow> client_builder" where
  "set_config cfg b = b\<lparr>builder_config := Some cfg\<rparr>"

definition set_root_cert_source :: "root_cert_source \<Rightarrow> client_builder \<Rightarrow> client_builder" where
  "set_root_cert_source source b = b\<lparr>builder_root_cert_source := source\<rparr>"

definition set_ping_interval :: "duration \<Rightarrow> client_builder \<Rightarrow> client_builder" where
  "set_ping_interval interval b = b\<lparr>builder_ping_interval := interval\<rparr>"

definition set_io_timeout :: "duration \<Rightarrow> client_builder \<Rightarrow> client_builder" where
  "set_io_timeout d b = b\<lparr>builder_io_timeout := d\<rparr>"

definition set_request_timeout :: "duration \<Rightarrow> client_builder \<Rightarrow> client_builder" where
  "set_request_timeout d b = b\<lparr>builder_request_timeout := d\<rparr>"

definition set_max_payload_len :: "u32 \<Rightarrow> client_builder \<Rightarrow> client_builder" where
  "set_max_payload_len n b = b\<lparr>builder_max_payload_len := n\<rparr>"

definition set_invalid_credentials_policy ::
  "invalid_credentials_policy \<Rightarrow> client_builder \<Rightarrow> client_builder" where
  "set_invalid_credentials_policy p b = b\<lparr>builder_invalid_credentials_policy := p\<rparr>"

definition set_on_connect :: "hook \<Rightarrow> client_builder \<Rightarrow> client_builder" where
  "set_on_connect h b = b\<lparr>builder_on_connect := Some h\<rparr>"

definition initial_status :: "client_builder \<Rightarrow> connection_status" where
  "initial_status b = (if builder_config b \<noteq> None then Disconnected else Unconfigured)"

definition builder_task :: "client_builder \<Rightarrow> client_task" where
  "builder_task b =
     \<lparr>config = builder_config b,
      connection = None,
      status = initial_status b,
      ping_interval = builder_ping_interval b,
      request_timeout = builder_request_timeout b,
      options = \<lparr>io_timeout = builder_io_timeout b,
                 option_max_payload_len = builder_max_payload_len b\<rparr>,
      invalid_credentials_policy = builder_invalid_credentials_policy b,
      on_connect = builder_on_connect b,
      credentials_invalid = False,
      shutdown = False\<rparr>"

definition build :: "rustls \<Rightarrow> client_builder \<Rightarrow> tls_error + client_task" where
  "build R b = map_ok (\<lambda>_. builder_task b) (create_connector R (builder_root_cert_source b))"

section \<open>The handle's operations\<close>

text \<open>
  \<open>send_request\<close>: how \<open>Sender::send_timeout\<close> ended, and what arrived on the response channel
  (\<open>None\<close> when its sender was dropped).
\<close>

datatype send_outcome = Sent | SendClosed | SendTimedOut

definition send_request ::
  "send_outcome \<Rightarrow> (request_error + raw_message) option \<Rightarrow> request_error + raw_message" where
  "send_request sent response =
     (case sent of
        SendClosed \<Rightarrow> Inl request_error.Shutdown
      | SendTimedOut \<Rightarrow> Inl request_error.Disconnected
      | Sent \<Rightarrow> (case response of None \<Rightarrow> Inl request_error.Shutdown | Some r \<Rightarrow> r))"

text \<open>The operations, over the exchange \<open>call\<close> they perform with \<open>send_request\<close>.\<close>

type_synonym exchange = "raw_message \<Rightarrow> request_error + raw_message"

definition bloop ::
  "protocol \<Rightarrow> exchange \<Rightarrow> nfc_uid \<Rightarrow> request_error + achievement_record list" where
  "bloop P call uid =
     and_then (map_err Encode (encode_message P (Bloop uid))) (\<lambda>message.
       and_then (call message) (decode_response P (bloop_accepted_ops P)))"

definition retrieve_audio :: "protocol \<Rightarrow> exchange \<Rightarrow> uuid \<Rightarrow> request_error + bytes" where
  "retrieve_audio P call i =
     and_then (map_err Encode (encode_message P (RetrieveAudio i))) (\<lambda>message.
       and_then (call message) (decode_response P (audio_data_ops P)))"

definition preload_check ::
  "protocol \<Rightarrow> exchange \<Rightarrow> data_hash option \<Rightarrow> request_error + preload_outcome" where
  "preload_check P call hash =
     and_then (map_err Encode (encode_message P (PreloadCheck hash))) (\<lambda>message.
       and_then (call message) (\<lambda>raw.
         if message_type raw = opcode (preload_match_ops P) then
           and_then (decode_response P (preload_match_ops P) raw) (\<lambda>_. Inr Match)
         else
           map_ok (\<lambda>mismatch. Mismatch (audio_manifest_hash mismatch)
               (mismatch_achievements mismatch))
             (decode_response P (preload_mismatch_ops P) raw)))"

definition custom ::
  "protocol \<Rightarrow> exchange \<Rightarrow> 'r payload_ops \<Rightarrow> encode_error + raw_message
     \<Rightarrow> request_error + 'r" where
  "custom P call M encoded =
     and_then (map_err Encode encoded) (\<lambda>message.
       and_then (call message) (decode_response P M))"

definition client_request_raw :: "exchange \<Rightarrow> raw_message \<Rightarrow> request_error + raw_message" where
  "client_request_raw call message = call message"

text \<open>
  \<open>configure\<close> only waits for a place in the channel. \<open>shutdown\<close> gives the task five seconds to
  take the command and acknowledge it; \<open>send\<close> and \<open>acknowledged\<close> are the two channel
  operations it waits for. The graceful-shutdown subsystem waits to be told and then does that.
\<close>

definition configure :: "bool \<Rightarrow> request_error + unit" where
  "configure sent = (if sent then Inr () else Inl request_error.Shutdown)"

definition client_shutdown :: "bool io \<Rightarrow> unit option io \<Rightarrow> unit io" where
  "client_shutdown send acknowledged =
     io_map (\<lambda>_. ())
       (timeout (5 * 1000) (io_bind send (\<lambda>is_ok.
          if is_ok then io_map (\<lambda>_. ()) acknowledged else io_return ())))"

definition subsystem_run :: "unit io \<Rightarrow> bool io \<Rightarrow> unit option io \<Rightarrow> (unit + unit) io" where
  "subsystem_run on_shutdown_requested send acknowledged =
     io_bind on_shutdown_requested (\<lambda>_. io_map Inr (client_shutdown send acknowledged))"

section \<open>The system\<close>

record system =
  task :: client_task
  queue :: "command list"
  handles :: nat
  finished :: bool
  next_response :: nat
  accepted :: "nat list"
  world :: world

definition queue_capacity :: nat where
  "queue_capacity = 16"

definition spawn :: "client_task \<Rightarrow> world \<Rightarrow> system" where
  "spawn t w = \<lparr>task = t, queue = [], handles = 1, finished = False, next_response = 0,
     accepted = [], world = w\<rparr>"

definition client_init :: "system \<Rightarrow> bool" where
  "client_init s \<longleftrightarrow> (\<exists>b w. hooks_ok (builder_task b) \<and> deadline w = None \<and> history w = [] \<and>
     s = spawn (builder_task b) w)"

text \<open>
  \<open>send_configure\<close>, \<open>send_request\<close>, \<open>send_shutdown\<close>: a command enters the bounded channel.
  \<open>recv\<close>, \<open>tick\<close>: the two branches of the task's \<open>select!\<close>. \<open>stop\<close>: the channel is closed
  and empty, the loop ends and the task winds down. A handle that is used is alive, so sending
  needs one.
\<close>

inductive client_step :: "protocol \<Rightarrow> env \<Rightarrow> system \<Rightarrow> system \<Rightarrow> bool" for P E where
  send_configure:
    "\<lbrakk>\<not> finished s; 0 < handles s; length (queue s) < queue_capacity\<rbrakk> \<Longrightarrow>
     client_step P E s (s\<lparr>queue := queue s @ [Configure cfg]\<rparr>)"
| send_request:
    "\<lbrakk>\<not> finished s; 0 < handles s; length (queue s) < queue_capacity\<rbrakk> \<Longrightarrow>
     client_step P E s (s\<lparr>queue := queue s @ [Request message (next_response s)],
       accepted := accepted s @ [next_response s], next_response := Suc (next_response s)\<rparr>)"
| send_shutdown:
    "\<lbrakk>\<not> finished s; 0 < handles s; length (queue s) < queue_capacity\<rbrakk> \<Longrightarrow>
     client_step P E s (s\<lparr>queue := queue s @ [ShutdownCommand (next_response s)],
       next_response := Suc (next_response s)\<rparr>)"
| clone: "0 < handles s \<Longrightarrow> client_step P E s (s\<lparr>handles := Suc (handles s)\<rparr>)"
| drop: "0 < handles s \<Longrightarrow> client_step P E s (s\<lparr>handles := handles s - 1\<rparr>)"
| elapse: "client_step P E s (s\<lparr>world := (world s)\<lparr>clock := clock (world s) + d\<rparr>\<rparr>)"
| recv:
    "\<lbrakk>\<not> finished s; queue s = cmd # rest;
      handle_command P E cmd (task s) (world s) = (Done t, w)\<rbrakk> \<Longrightarrow>
     client_step P E s (s\<lparr>queue := rest, task := t, world := w\<rparr>)"
| tick:
    "\<lbrakk>\<not> finished s; handle_tick P E (task s) (world s) = (Done t, w)\<rbrakk> \<Longrightarrow>
     client_step P E s (s\<lparr>task := t, world := w\<rparr>)"
| stop:
    "\<lbrakk>\<not> finished s; queue s = []; handles s = 0;
      wind_down P E (task s) (world s) = (Done t, w)\<rbrakk> \<Longrightarrow>
     client_step P E s (s\<lparr>finished := True, task := t, world := w\<rparr>)"

inductive_cases client_stepE: "client_step P E s s'"

section \<open>The system's invariant\<close>

fun answered_ids :: "event list \<Rightarrow> nat list" where
  "answered_ids [] = []"
| "answered_ids (Answered i r # es) = i # answered_ids es"
| "answered_ids (e # es) = answered_ids es"

fun pending_ids :: "command list \<Rightarrow> nat list" where
  "pending_ids [] = []"
| "pending_ids (Request message i # cmds) = i # pending_ids cmds"
| "pending_ids (cmd # cmds) = pending_ids cmds"

lemma answered_ids_append [simp]: "answered_ids (xs @ ys) = answered_ids xs @ answered_ids ys"
  by (induction xs rule: answered_ids.induct) simp_all

lemma pending_ids_append [simp]: "pending_ids (xs @ ys) = pending_ids xs @ pending_ids ys"
  by (induction xs rule: pending_ids.induct) simp_all

lemma answered_ids_none: "list_all (\<lambda>e. \<not> is_answer e) es \<Longrightarrow> answered_ids es = []"
  by (induction es rule: answered_ids.induct) simp_all

definition watch_inv :: "client_task \<Rightarrow> world \<Rightarrow> bool" where
  "watch_inv t w \<longleftrightarrow> (\<exists>s0 \<in> {Unconfigured, Disconnected}.
     distinct_adj (s0 # published (history w)) \<and>
     last (s0 # published (history w)) = status t)"

definition system_inv :: "system \<Rightarrow> bool" where
  "system_inv s \<longleftrightarrow>
     hooks_ok (task s) \<and> deadline (world s) = None \<and> length (queue s) \<le> queue_capacity \<and>
     (if finished s
      then status (task s) = Shutdown \<and> connection (task s) = None \<and> queue s = [] \<and> handles s = 0
      else task_inv (task s)) \<and>
     answered_ids (history (world s)) @ pending_ids (queue s) = accepted s \<and>
     distinct (accepted s) \<and> list_all (\<lambda>i. i < next_response s) (accepted s) \<and>
     watch_inv (task s) (world s) \<and> task_wire (task s) (world s)"

text \<open>What a handler does to each part of it.\<close>

lemma watch_inv_step:
  assumes "watch_inv t w" and "publishes_change t t' w w'"
  shows "watch_inv t' w'"
proof -
  from assms(1) obtain s0 where s0: "s0 \<in> {Unconfigured, Disconnected}"
      "distinct_adj (s0 # published (history w))" "last (s0 # published (history w)) = status t"
    unfolding watch_inv_def by blast
  have "distinct_adj (s0 # published (history w'))"
    using s0(2,3) assms(2) distinct_adj_append_iff [of "s0 # published (history w)" "[status t']"]
    by (auto simp: publishes_change_def)
  moreover have "last (s0 # published (history w')) = status t'"
    using s0(3) assms(2) by (auto simp: publishes_change_def)
  ultimately show ?thesis
    using s0(1) unfolding watch_inv_def by blast
qed

lemma handlers_keep_hooks:
  "handle_command P E cmd t w = (Done t', w') \<Longrightarrow> on_connect t' = on_connect t"
  "handle_tick P E t w = (Done t', w') \<Longrightarrow> on_connect t' = on_connect t"
  "wind_down P E t w = (Done t', w') \<Longrightarrow> on_connect t' = on_connect t"
proof -
  show "on_connect t' = on_connect t" if "handle_command P E cmd t w = (Done t', w')"
    using that
    by (cases cmd)
       (auto simp: io_simps dest!: handle_configure_state handle_request_state handle_shutdown_state)
  show "on_connect t' = on_connect t" if "handle_tick P E t w = (Done t', w')"
    using handle_tick_state [OF that] by (auto dest!: try_connect_state)
  show "on_connect t' = on_connect t" if "wind_down P E t w = (Done t', w')"
    using that by (auto simp: wind_down_def io_simps dest!: quit_connection_state)
qed

lemma hooks_ok_cong: "hooks_ok t \<Longrightarrow> on_connect t' = on_connect t \<Longrightarrow> hooks_ok t'"
  by (simp add: hooks_ok_def)

abbreviation unanswering :: "'a io \<Rightarrow> bool" where
  "unanswering \<equiv> emits (\<lambda>e. \<not> is_answer e)"

lemma unanswering_run:
  "unanswering m \<Longrightarrow> m w = (r, w') \<Longrightarrow> answered_ids (history w') = answered_ids (history w)"
  by (elim emitsD) (auto simp: answered_ids_none)

lemma session_event_no_answer: "session_event s e \<Longrightarrow> \<not> is_answer e"
  by (cases e) auto

lemma unanswering_hook: "hook_ok hook \<Longrightarrow> unanswering (hook se)"
  by (rule emits_mono [where Q = "session_event (conn_stream (session_connection se))"])
     (auto simp: hook_ok_def session_event_no_answer)

lemma unanswering_quit:
  "unanswering (quit P E c)"
  "unanswering (quit_connection P E t)"
  unfolding quit_connection_def quit_def
  by (auto intro!: emits_intros split: sum.split option.split)

lemma unanswering_handlers:
  "unanswering (handle_configure P E cfg t)"
  "unanswering (handle_shutdown P E t)"
  "unanswering (wind_down P E t)"
  unfolding handle_configure_def handle_shutdown_def wind_down_def
  by (auto intro!: emits_intros unanswering_quit)

lemma unanswering_tick:
  assumes "hooks_ok t"
  shows "unanswering (handle_tick P E t)"
proof -
  have "unanswering (run_hook P E c t)" for c
    unfolding run_hook_def using assms
    by (auto intro!: emits_intros unanswering_hook unanswering_quit simp: hooks_ok_def
        split: option.split sum.split)
  moreover have "unanswering (connect P E cfg opts)" for cfg opts
    unfolding connect_def login_def Let_def by (auto intro!: emits_intros split: sum.split)
  ultimately show ?thesis
    unfolding handle_tick_def try_connect_def ping_def
    by (auto intro!: emits_intros split: option.split sum.split connect_outcome.split)
qed

lemma handle_command_answers:
  assumes "handle_command P E cmd t w = (Done t', w')"
  shows "answered_ids (history w') = answered_ids (history w) @ pending_ids [cmd]"
proof (cases cmd)
  case (Configure cfg)
  with assms show ?thesis
    using unanswering_run [OF unanswering_handlers(1)] by force
next
  case (Request message i)
  with assms show ?thesis
    by (auto simp: io_simps dest!: unanswering_run [OF handle_request_unanswered])
next
  case (ShutdownCommand i)
  with assms show ?thesis
    by (auto simp: io_simps dest!: unanswering_run [OF unanswering_handlers(2)])
qed

lemma tame_wind_down [tame_intros]: "tame (wind_down P E t)"
  unfolding wind_down_def by (intro tame_intros)

lemma wind_down_state:
  assumes "wind_down P E t w = (Done t', w')"
  shows "t' = t\<lparr>connection := None, status := Shutdown\<rparr>" and "publishes_change t t' w w'"
  using assms
  by (auto simp: wind_down_def io_simps publishes_change_def
      dest!: quit_connection_quiet split: if_splits)

lemma recv_inv:
  assumes inv: "system_inv s" and run: "\<not> finished s" "queue s = cmd # rest"
    "handle_command P E cmd (task s) (world s) = (Done t, w)"
  shows "system_inv (s\<lparr>queue := rest, task := t, world := w\<rparr>)"
proof -
  have "task_inv t"
    using inv run by (auto simp: system_inv_def elim: handle_command_inv)
  moreover have "hooks_ok t"
    using inv run by (auto simp: system_inv_def intro: hooks_ok_cong handlers_keep_hooks)
  moreover have "deadline w = None"
    using inv tameD(3) [OF tame_handle_command run(3)] by (simp add: system_inv_def)
  moreover have "watch_inv t w"
    using inv watch_inv_step [OF _ handle_command_publishes [OF run(3)]]
    by (simp add: system_inv_def)
  moreover have "task_wire t w"
    using inv handle_command_wire [OF _ run(3)] by (simp add: system_inv_def)
  moreover have "answered_ids (history w) @ pending_ids rest = accepted s"
    using inv run(2) handle_command_answers [OF run(3)] pending_ids_append [of "[cmd]" rest]
    by (simp add: system_inv_def)
  ultimately show ?thesis
    using inv run by (simp add: system_inv_def)
qed

lemma tick_inv:
  assumes inv: "system_inv s" and run: "\<not> finished s"
    "handle_tick P E (task s) (world s) = (Done t, w)"
  shows "system_inv (s\<lparr>task := t, world := w\<rparr>)"
proof -
  have hooks: "hooks_ok (task s)"
    using inv by (simp add: system_inv_def)
  have "task_inv t"
    using inv run by (auto simp: system_inv_def elim: handle_tick_inv)
  moreover have "hooks_ok t"
    using hooks run by (auto intro: hooks_ok_cong handlers_keep_hooks)
  moreover have "deadline w = None"
    using inv tameD(3) [OF tame_handle_tick [OF hooks] run(2)] by (simp add: system_inv_def)
  moreover have "watch_inv t w"
    using inv watch_inv_step [OF _ handle_tick_publishes [OF hooks run(2)]]
    by (simp add: system_inv_def)
  moreover have "answered_ids (history w) = answered_ids (history (world s))"
    by (rule unanswering_run [OF unanswering_tick [OF hooks] run(2)])
  moreover have "task_wire t w"
    using inv handle_tick_wire [OF hooks _ run(2)] by (simp add: system_inv_def)
  ultimately show ?thesis
    using inv run by (simp add: system_inv_def)
qed

lemma stop_inv:
  assumes inv: "system_inv s" and run: "\<not> finished s" "queue s = []" "handles s = 0"
    "wind_down P E (task s) (world s) = (Done t, w)"
  shows "system_inv (s\<lparr>finished := True, task := t, world := w\<rparr>)"
proof -
  have "hooks_ok t"
    using inv run by (auto simp: system_inv_def intro: hooks_ok_cong handlers_keep_hooks)
  moreover have "deadline w = None"
    using inv tameD(3) [OF tame_wind_down run(4)] by (simp add: system_inv_def)
  moreover have "watch_inv t w"
    using inv watch_inv_step [OF _ wind_down_state(2) [OF run(4)]] by (simp add: system_inv_def)
  moreover have "answered_ids (history w) = answered_ids (history (world s))"
    by (rule unanswering_run [OF unanswering_handlers(3) run(4)])
  moreover have "task_wire t w"
    using inv wind_down_wire [OF _ run(4)] by (simp add: system_inv_def)
  ultimately show ?thesis
    using inv run wind_down_state(1) [OF run(4)] by (simp add: system_inv_def)
qed

lemma send_inv:
  assumes inv: "system_inv s" and room: "length (queue s) < queue_capacity" and up: "\<not> finished s"
  shows "system_inv (s\<lparr>queue := queue s @ [Configure cfg]\<rparr>)"
    and "system_inv (s\<lparr>queue := queue s @ [Request message (next_response s)],
       accepted := accepted s @ [next_response s], next_response := Suc (next_response s)\<rparr>)"
    and "system_inv (s\<lparr>queue := queue s @ [ShutdownCommand (next_response s)],
       next_response := Suc (next_response s)\<rparr>)"
  using assms by (auto simp: system_inv_def list_all_iff less_Suc_eq)

lemma client_step_inv:
  assumes "system_inv s" and "client_step P E s s'"
  shows "system_inv s'"
  using assms(2)
proof (cases rule: client_step.cases)
  case (recv cmd rest t w)
  with assms(1) show ?thesis by (auto intro: recv_inv)
next
  case (tick t w)
  with assms(1) show ?thesis by (auto intro: tick_inv)
next
  case (stop t w)
  with assms(1) show ?thesis by (auto intro: stop_inv)
next
  case elapse
  with assms(1) show ?thesis by (auto simp: system_inv_def watch_inv_def task_wire_def wire_inv_def)
next
  case clone
  with assms(1) show ?thesis by (auto simp: system_inv_def)
next
  case drop
  with assms(1) show ?thesis by (auto simp: system_inv_def)
qed (use assms(1) in \<open>auto intro: send_inv\<close>)

lemma client_init_inv: "client_init s \<Longrightarrow> system_inv s"
  by (auto simp: client_init_def spawn_def system_inv_def builder_task_def task_inv_def
      initial_status_def watch_inv_def hooks_ok_def queue_capacity_def
      wire_inv_def wire_state_def)

interpretation client_system: invariant_system client_init "client_step P E" system_inv for P E
  by unfold_locales (auto intro: client_init_inv client_step_inv)

end
