(* ===== verification/Client_Properties.thy ===== *)
theory Client_Properties
  imports Client
begin

text \<open>
  What the client as a whole guarantees, in every state it can reach, whatever the server and
  the handles do: the status on the watch is true, requests are answered once and in order,
  the wire is used one exchange at a time, the queue drains, and shutdown is final.
\<close>

section \<open>Invariants of every run\<close>

lemmas client_reach = client_system.reach_inv

text \<open>
  C2: The status on the watch is true in every reachable state. It is \<open>Connected\<close> exactly
  while the task holds a connection, and then names that connection's capabilities; it is
  \<open>Shutdown\<close> exactly after shutdown or after the last handle is gone; it is \<open>Unconfigured\<close>
  exactly while there is no configuration; and refused credentials that latch are visible as
  \<open>InvalidCredentials\<close> until the configuration is replaced.
\<close>

theorem status_truthful:
  assumes "reach client_init (client_step P E) s"
  shows "(\<forall>caps. status (task s) = Connected caps \<longleftrightarrow>
       (\<exists>c. connection (task s) = Some c \<and> conn_capabilities c = caps)) \<and>
    (status (task s) = Shutdown \<longleftrightarrow> shutdown (task s) \<or> finished s) \<and>
    (status (task s) = Unconfigured \<longleftrightarrow>
       config (task s) = None \<and> \<not> shutdown (task s) \<and> \<not> finished s) \<and>
    (status (task s) = InvalidCredentials \<longrightarrow> credentials_invalid (task s)) \<and>
    (credentials_invalid (task s) \<and> invalid_credentials_policy (task s) = Latch \<and>
       \<not> shutdown (task s) \<and> \<not> finished s \<longrightarrow> status (task s) = InvalidCredentials)"
proof (cases "finished s")
  case True
  with client_reach [OF assms] show ?thesis
    by (auto simp: system_inv_def)
next
  case False
  with client_reach [OF assms] have "task_inv (task s)"
    by (simp add: system_inv_def)
  with False show ?thesis
    by (auto simp: task_inv_def split: option.splits if_splits)
qed

text \<open>
  C4: Requests are answered exactly once and in the order they entered the queue: at any moment
  the requests answered so far followed by those still queued are the requests accepted so far,
  and no two of those share a response channel.
\<close>

theorem answers_in_order:
  assumes "reach client_init (client_step P E) s"
  shows "answered_ids (history (world s)) @ pending_ids (queue s) = accepted s \<and>
    distinct (accepted s)"
  using client_reach [OF assms] by (simp add: system_inv_def)


section \<open>The wire\<close>

lemma wire_run_prefix: "wire_run st q (xs @ ys) \<noteq> None \<Longrightarrow> wire_run st q xs \<noteq> None"
  by (auto simp: wire_run_append split: option.splits)

lemma wire_gap:
  assumes "wire_state st (xs @ e1 # ys @ e2 # zs) \<noteq> None"
    and "event_stream e1 = Some st" "event_stream e2 = Some st"
    and "list_all (\<lambda>e. event_stream e \<noteq> Some st) ys"
  obtains q q1 q2 where "wire_state st xs = Some q" "wire_next q e1 = Some q1"
    "wire_next q1 e2 = Some q2"
  using assms
  by (auto simp: wire_state_def wire_run_append wire_run_other split: option.splits)


section \<open>Progress\<close>

text \<open>The task never blocks for good on a command or on winding down.\<close>

lemma recv_possible:
  assumes inv: "system_inv s" and up: "\<not> finished s" and q: "queue s = cmd # rest"
  obtains s' where "client_step P E s s'" and "queue s' = rest" and "\<not> finished s'"
    and "accepted s' = accepted s" and "handles s' = handles s"
proof -
  have "deadline (world s) = None"
    using inv by (simp add: system_inv_def)
  with tame_handle_command obtain t w where
    "handle_command P E cmd (task s) (world s) = (Done t, w)"
    by (rule tame_undisturbed)
  from client_step.recv [OF up q this] show thesis
    by (rule that) (simp_all add: up)
qed

lemma drains:
  assumes "system_inv s" and "\<not> finished s"
  shows "\<exists>s'. (client_step P E ^^ length (queue s)) s s' \<and> queue s' = [] \<and> \<not> finished s' \<and>
     accepted s' = accepted s \<and> handles s' = handles s \<and> system_inv s'"
  using assms
proof (induction "queue s" arbitrary: s)
  case Nil
  then show ?case
    by (auto intro!: exI [of _ s])
next
  case (Cons cmd rest)
  obtain s1 where s1: "client_step P E s s1" "queue s1 = rest" "\<not> finished s1"
      "accepted s1 = accepted s" "handles s1 = handles s"
    using recv_possible [OF Cons.prems Cons.hyps(2) [symmetric]] .
  have "system_inv s1"
    using Cons.prems(1) s1(1) by (rule client_step_inv)
  from Cons.hyps(1) [OF s1(2) [symmetric] this s1(3)] obtain s' where
    "(client_step P E ^^ length (queue s1)) s1 s'" "queue s' = []" "\<not> finished s'"
    "accepted s' = accepted s1" "handles s' = handles s1" "system_inv s'"
    by blast
  moreover from this(1) s1(1,2) Cons.hyps(2) [symmetric]
  have "(client_step P E ^^ length (queue s)) s s'"
    by (metis length_Cons relpowp_Suc_I2)
  ultimately show ?case
    using s1 by auto
qed


text \<open>
  C26: Dropping the last handle winds the client down. The task finishes what is queued, and in
  its last step gives the connection up and publishes \<open>Shutdown\<close>, so that status receivers see
  a terminal state; every accepted request has been answered by then.
\<close>

theorem winds_down:
  assumes "reach client_init (client_step P E) s" and "\<not> finished s" and "handles s = 0"
  shows "\<exists>s'. (client_step P E ^^ Suc (length (queue s))) s s' \<and> finished s' \<and>
    status (task s') = Shutdown \<and> connection (task s') = None \<and>
    answered_ids (history (world s')) = accepted s"
proof -
  from drains [OF client_reach [OF assms(1)] assms(2), of P E] obtain s1 where
    s1: "(client_step P E ^^ length (queue s)) s s1" "queue s1 = []" "\<not> finished s1"
      "accepted s1 = accepted s" "handles s1 = handles s" "system_inv s1"
    by blast
  have "deadline (world s1) = None"
    using s1(6) by (simp add: system_inv_def)
  with tame_wind_down obtain t w where run: "wind_down P E (task s1) (world s1) = (Done t, w)"
    by (rule tame_undisturbed)
  let ?s = "s1\<lparr>finished := True, task := t, world := w\<rparr>"
  have step: "client_step P E s1 ?s"
    using s1 assms(3) run by (intro client_step.stop) simp_all
  then have "system_inv ?s"
    using s1(6) by (blast intro: client_step_inv)
  then show ?thesis
    using s1(4) relpowp_Suc_I [OF s1(1) step] s1(2)
    by (intro exI [of _ ?s]) (simp add: system_inv_def del: relpowp.simps)
qed

section \<open>After shutdown\<close>

fun farewell :: "event \<Rightarrow> bool" where
  "farewell (Answered _ r) = (r = Inl request_error.Shutdown)"
| "farewell (Acknowledged _) = True"
| "farewell _ = False"

definition silenced :: "event list \<Rightarrow> system \<Rightarrow> bool" where
  "silenced h s \<longleftrightarrow> shutdown (task s) \<and> status (task s) = Shutdown \<and> connection (task s) = None \<and>
     (\<exists>es. history (world s) = h @ es \<and> list_all farewell es)"

lemma silenced_append:
  assumes "silenced h s" and "task s' = task s" and "history (world s') = history (world s) @ es"
    and "list_all farewell es"
  shows "silenced h s'"
  using assms by (auto simp: silenced_def)

lemma silenced_command:
  assumes "silenced h s" and "handle_command P E cmd (task s) (world s) = (Done t, w)"
  shows "t = task s \<and> (\<exists>es. history w = history (world s) @ es \<and> list_all farewell es)"
proof (cases cmd)
  case (ShutdownCommand response)
  with assms show ?thesis
    by (auto simp: silenced_def io_simps handle_shutdown_def quit_connection_def)
qed (use assms in \<open>auto simp: silenced_def io_simps handle_configure_def handle_request_def\<close>)

lemma silenced_step:
  assumes "silenced h s" and "client_step P E s s'"
  shows "silenced h s'"
  using assms(2)
proof (cases rule: client_step.cases)
  case (recv cmd rest t w)
  with silenced_command [OF assms(1) recv(4)] assms(1) show ?thesis
    by (auto intro: silenced_append)
next
  case (tick t w)
  with assms(1) have "t = task s" "w = world s"
    by (auto simp: silenced_def handle_tick_def io_simps)
  with tick assms(1) show ?thesis
    by (auto simp: silenced_def)
next
  case (stop t w)
  with assms(1) have "t = task s" "w = world s"
    by (auto simp: silenced_def wind_down_def quit_connection_def io_simps)
  with stop assms(1) show ?thesis
    by (auto simp: silenced_def)
qed (use assms(1) in \<open>auto simp: silenced_def\<close>)

interpretation after_shutdown: invariant_system "silenced h" "client_step P E" "silenced h" for P E h
  by unfold_locales (auto intro: silenced_step)

text \<open>
  C25: Shutdown is final for the whole client. Once the task was shut down, no interleaving of
  commands, ticks, clones, drops and time makes it connect again or use the network: all it
  ever does is answer \<open>Shutdown\<close> and acknowledge, and the status stays \<open>Shutdown\<close>.
\<close>

theorem shutdown_permanent:
  assumes "reach client_init (client_step P E) s" and "shutdown (task s)"
    and "(client_step P E)\<^sup>*\<^sup>* s s'"
  shows "status (task s') = Shutdown \<and> connection (task s') = None \<and>
    (\<exists>es. history (world s') = history (world s) @ es \<and> list_all farewell es)"
proof -
  have "silenced (history (world s)) s"
    using client_reach [OF assms(1)] assms(2)
    by (auto simp: silenced_def system_inv_def task_inv_def split: if_splits option.splits)
  with assms(3) have "silenced (history (world s)) s'"
    by (rule after_shutdown.steps_inv)
  then show ?thesis
    by (auto simp: silenced_def)
qed

section \<open>The handle's operations\<close>

text \<open>
  \<open>bloop\<close> and \<open>retrieve_audio\<close> are typed requests, like \<open>custom\<close>; the message travels through
  \<open>send_request\<close>.
\<close>

lemma typed_operations:
  "bloop P call uid = custom P call (bloop_accepted_ops P) (encode_message P (Bloop uid))"
  "retrieve_audio P call i = custom P call (audio_data_ops P) (encode_message P (RetrieveAudio i))"
  by (simp_all add: bloop_def retrieve_audio_def custom_def)

lemma custom_ok:
  "custom P call M encoded = Inr x \<longleftrightarrow>
     (\<exists>message raw. encoded = Inr message \<and> call message = Inr raw \<and> decode_response P M raw = Inr x)"
  by (auto simp: custom_def and_then_def map_err_def split: sum.splits)

lemma custom_disconnected:
  "custom P call M encoded = Inl request_error.Disconnected \<longleftrightarrow>
     (\<exists>message. encoded = Inr message \<and> call message = Inl request_error.Disconnected)"
  "custom P call M encoded = Inl request_error.Shutdown \<longleftrightarrow>
     (\<exists>message. encoded = Inr message \<and> call message = Inl request_error.Shutdown)"
  using decode_response_never_transport [of P M]
  by (auto simp: custom_def and_then_def map_err_def split: sum.splits)

lemma send_request_cases:
  "send_request sent response = Inr raw \<longleftrightarrow> sent = Sent \<and> response = Some (Inr raw)"
  "send_request sent response = Inl request_error.Shutdown \<longleftrightarrow>
     sent = SendClosed \<or>
     sent = Sent \<and> (response = None \<or> response = Some (Inl request_error.Shutdown))"
  "send_request sent response = Inl request_error.Disconnected \<longleftrightarrow>
     sent = SendTimedOut \<or> sent = Sent \<and> response = Some (Inl request_error.Disconnected)"
  by (auto simp: send_request_def split: send_outcome.splits option.splits)

text \<open>
  What the caller of an operation learns. \<open>bloop\<close> returns achievements only when the request
  was queued, the task answered with a frame, and that frame is the decoded \<open>BloopAccepted\<close>;
  \<open>Shutdown\<close> means the task is gone or was shut down, \<open>Disconnected\<close> that the request did not
  get into the queue in time or was not answered by the server, and neither is ever the
  server's answer.
\<close>

lemma bloop_result:
  "(bloop P (\<lambda>_. send_request sent response) uid = Inr achievements \<longleftrightarrow>
      (\<exists>message raw. encode_message P (Bloop uid) = Inr message \<and> sent = Sent \<and>
         response = Some (Inr raw) \<and> message_type raw \<noteq> opcode (error_response_ops P) \<and>
         decode_message (bloop_accepted_ops P) raw = Inr achievements)) \<and>
   (bloop P (\<lambda>_. send_request sent response) uid = Inl request_error.Shutdown \<longleftrightarrow>
      (\<exists>message. encode_message P (Bloop uid) = Inr message) \<and>
      (sent = SendClosed \<or>
       sent = Sent \<and> (response = None \<or> response = Some (Inl request_error.Shutdown)))) \<and>
   (bloop P (\<lambda>_. send_request sent response) uid = Inl request_error.Disconnected \<longleftrightarrow>
      (\<exists>message. encode_message P (Bloop uid) = Inr message) \<and>
      (sent = SendTimedOut \<or> sent = Sent \<and> response = Some (Inl request_error.Disconnected)))"
  unfolding typed_operations custom_ok custom_disconnected send_request_cases decode_response_ok
  by auto

text \<open>
  C34: A preload check never takes an outdated cache for a current one. The answer's opcode
  decides: a protocol error, a match, a mismatch with the server's manifest hash and the full
  achievement list, and any other frame is an unexpected response.
\<close>

theorem preload_check_result:
  assumes checked: "opcode_checked (preload_match_ops P)" "opcode_checked (preload_mismatch_ops P)"
    and codes: "distinct [opcode (error_response_ops P), opcode (preload_match_ops P),
       opcode (preload_mismatch_ops P)]"
    and sent: "encode_message P (PreloadCheck hash) = Inr message" "call message = Inr raw"
  shows "preload_check P call hash =
    (if message_type raw = opcode (error_response_ops P) then
       Inl (case decode_message (error_response_ops P) raw of
              Inr error \<Rightarrow> Error error | Inl error \<Rightarrow> Malformed error)
     else if message_type raw = opcode (preload_match_ops P) then
       map_ok (\<lambda>_. Match) (map_err Malformed (decode_message (preload_match_ops P) raw))
     else if message_type raw = opcode (preload_mismatch_ops P) then
       map_ok (\<lambda>m. Mismatch (audio_manifest_hash m) (mismatch_achievements m))
         (map_err Malformed (decode_message (preload_mismatch_ops P) raw))
     else Inl (UnexpectedResponse raw))"
  using codes sent
  by (auto simp: preload_check_def decode_response_by_opcode [OF checked(1)]
      decode_response_by_opcode [OF checked(2)] map_ok_def and_then_def map_err_def
      split: sum.splits if_splits)

text \<open>
  C28: \<open>shutdown\<close> returns after five seconds at the latest, whether or not the task has room for
  the command and whether or not it acknowledges it; as a subsystem the client terminates that
  soon after it was asked to.
\<close>

theorem client_shutdown_bounded:
  assumes "tame send" and "tame acknowledged" and "tame requested" and "deadline w = None"
  shows "(\<exists>w'. client_shutdown send acknowledged w = (Done (), w') \<and> clock w' \<le> clock w + 5000) \<and>
    (\<exists>w1 w'. requested w = (Done (), w1) \<and>
       subsystem_run requested send acknowledged w = (Done (Inr ()), w') \<and>
       clock w' \<le> clock w1 + 5000)"
proof -
  have run: "\<exists>w'. client_shutdown send acknowledged v = (Done (), w') \<and> clock w' \<le> clock v + 5000"
    if v: "deadline v = None" for v
  proof -
    let ?m = "io_bind send (\<lambda>is_ok. if is_ok then io_map (\<lambda>_. ()) acknowledged else io_return ())"
    have m: "tame ?m"
      using assms(1,2) by (auto intro!: tame_intros)
    obtain r w' where 1: "timeout (5 * 1000) ?m v = (Done r, w')"
      by (rule tame_undisturbed [OF tame_timeout [OF m] v])
    from timeout_bounded [OF m 1] 1 show ?thesis
      by (auto simp: client_shutdown_def io_simps)
  qed
  obtain w1 where 1: "requested w = (Done (), w1)" "deadline w1 = None"
    by (rule tame_undisturbed [OF assms(3,4)]) auto
  with run [OF 1(2)] run [OF assms(4)] show ?thesis
    by (auto simp: subsystem_run_def io_bind_def io_map_def io_return_def)
qed

section \<open>Building a client\<close>


section \<open>A concrete run\<close>

text \<open>
  The client with the default settings and a configuration, talking to the small server: its
  first tick connects it.
\<close>

definition simple_builder :: client_builder where
  "simple_builder = set_config simple_config builder_new"

definition connected_world :: world where
  "connected_world = fresh_world\<lparr>clock := 7, history :=
     [LookedUp ''bloop'' 12345 (Inr [''10.0.0.1'']), TcpConnected ''10.0.0.1'' None,
      TlsConnected 0 ''bloop'' None,
      Wrote 0 \<lparr>message_type = 1, payload = [3, 3]\<rparr> None,
      Read 0 1024 (Inr \<lparr>message_type = 18, payload = [3, 0]\<rparr>),
      Wrote 0 \<lparr>message_type = 2, payload = []\<rparr> None,
      Read 0 1024 (Inr \<lparr>message_type = 19, payload = []\<rparr>),
      Published (Connected {PreloadCheckCapability})], next_stream := 1\<rparr>"

abbreviation simple_reach :: "system \<Rightarrow> bool" where
  "simple_reach \<equiv> reach client_init (client_step simple_protocol simple_env)"

lemma simple_builder_task: "builder_task simple_builder = simple_task"
  by (simp add: builder_task_def simple_builder_def set_config_def builder_new_def initial_status_def
      simple_task_def simple_options_def)

lemma simple_tick:
  "handle_tick simple_protocol simple_env simple_task fresh_world =
     (Done connected_task, connected_world)"
  by (simp add: handle_tick_def try_connect_def run_hook_def set_status_def connected_world_def
      task_defs network_defs runtime_defs simple_defs)

lemma simple_start: "simple_reach (spawn simple_task fresh_world)"
proof (rule reach.intros)
  have "hooks_ok (builder_task simple_builder)"
    by (simp add: simple_builder_task hooks_ok_def simple_task_def)
  then show "client_init (spawn simple_task fresh_world)"
    unfolding client_init_def
    by (intro exI [of _ simple_builder] exI [of _ fresh_world]) (simp add: simple_builder_task)
qed

lemma simple_connected: "simple_reach (spawn connected_task connected_world)"
  using simple_start client_step.tick [of "spawn simple_task fresh_world" simple_protocol
      simple_env connected_task connected_world]
  by (auto simp: spawn_def simple_tick intro: reach.intros)

text \<open>From there: a request enters the queue; the last handle goes; a shutdown is handled.\<close>

definition requested_system :: system where
  "requested_system = (spawn connected_task connected_world)
     \<lparr>queue := [Request \<lparr>message_type = 3, payload = []\<rparr> 0], accepted := [0], next_response := 1\<rparr>"

definition dropped_system :: system where
  "dropped_system = (spawn connected_task connected_world)\<lparr>handles := 0\<rparr>"

definition stopped_system :: system where
  "stopped_system =
     (case handle_command simple_protocol simple_env (ShutdownCommand 0) connected_task
        connected_world of
        (Done t, w) \<Rightarrow> (spawn t w)\<lparr>next_response := 1\<rparr>
      | (Cancelled, w) \<Rightarrow> spawn connected_task w)"

lemma requested_reach: "simple_reach requested_system"
  using simple_connected client_step.send_request [of "spawn connected_task connected_world"
      simple_protocol simple_env "\<lparr>message_type = 3, payload = []\<rparr>"]
  by (auto simp: spawn_def requested_system_def queue_capacity_def intro: reach.intros)

lemma dropped_reach: "simple_reach dropped_system"
  using simple_connected client_step.drop [of "spawn connected_task connected_world"
      simple_protocol simple_env]
  by (auto simp: spawn_def dropped_system_def intro: reach.intros)

lemma simple_shutdown:
  obtains t w where
    "handle_command simple_protocol simple_env (ShutdownCommand 0) connected_task connected_world
       = (Done t, w)"
    "shutdown t" "stopped_system = (spawn t w)\<lparr>next_response := 1\<rparr>"
proof -
  have "deadline connected_world = None"
    by (simp add: connected_world_def)
  with tame_handle_command obtain t w where run:
    "handle_command simple_protocol simple_env (ShutdownCommand 0) connected_task connected_world
       = (Done t, w)"
    by (rule tame_undisturbed)
  moreover have "shutdown t"
    using run by (auto simp: io_simps dest!: handle_shutdown_state)
  ultimately show thesis
    by (intro that) (simp_all add: stopped_system_def del: handle_command.simps)
qed

lemma stopped_reach: "simple_reach stopped_system" and stopped_shutdown: "shutdown (task stopped_system)"
proof -
  obtain t w where run:
    "handle_command simple_protocol simple_env (ShutdownCommand 0) connected_task connected_world
       = (Done t, w)" "shutdown t" "stopped_system = (spawn t w)\<lparr>next_response := 1\<rparr>"
    by (rule simple_shutdown)
  let ?s = "(spawn connected_task connected_world)\<lparr>queue := [ShutdownCommand 0], next_response := 1\<rparr>"
  have "client_step simple_protocol simple_env (spawn connected_task connected_world) ?s"
    using client_step.send_shutdown [of "spawn connected_task connected_world"]
    by (simp add: spawn_def queue_capacity_def)
  moreover have "client_step simple_protocol simple_env ?s stopped_system"
    using client_step.recv [of ?s "ShutdownCommand 0" "[]" simple_protocol simple_env t w] run
    by (simp add: spawn_def del: handle_command.simps)
  ultimately show "simple_reach stopped_system"
    using simple_connected by (blast intro: reach.intros)
  show "shutdown (task stopped_system)"
    unfolding run(3) using run(2) by (simp add: spawn_def)
qed

theorem status_truthful_witness:
  "status (task (spawn connected_task connected_world)) = Connected {PreloadCheckCapability}"
  using status_truthful [OF simple_connected] by (simp add: spawn_def task_defs)

theorem answers_in_order_witness:
  "answered_ids (history (world requested_system)) @ pending_ids (queue requested_system) = [0]"
  using answers_in_order [OF requested_reach] by (simp add: requested_system_def)




theorem winds_down_witness:
  "\<exists>s'. (client_step simple_protocol simple_env ^^ Suc 0) dropped_system s' \<and> finished s' \<and>
     status (task s') = Shutdown"
proof -
  have "\<not> finished dropped_system" "handles dropped_system = 0" "queue dropped_system = []"
    by (simp_all add: dropped_system_def spawn_def)
  with winds_down [OF dropped_reach] show ?thesis
    by fastforce
qed

theorem shutdown_permanent_witness:
  "status (task stopped_system) = Shutdown \<and> connection (task stopped_system) = None"
  using shutdown_permanent [OF stopped_reach stopped_shutdown rtranclp.rtrancl_refl] by blast

theorem preload_check_result_witness:
  "preload_check simple_protocol (\<lambda>_. Inr \<lparr>message_type = 22, payload = []\<rparr>) None = Inr Match"
  using preload_check_result [of simple_protocol None "\<lparr>message_type = 7, payload = []\<rparr>"
      "\<lambda>_. Inr \<lparr>message_type = 22, payload = []\<rparr>" "\<lparr>message_type = 22, payload = []\<rparr>"]
  by (simp add: simple_protocol_def)

theorem client_shutdown_bounded_witness:
  "\<exists>w'. client_shutdown (await 6000 (Acknowledged 0) (Abandoned None) True)
       (await 1 (Acknowledged 0) (Abandoned None) (Some ())) fresh_world = (Done (), w') \<and>
     clock w' \<le> 5000"
  using client_shutdown_bounded [OF tame_await [of 6000 "Acknowledged 0" "Abandoned None" True]
      tame_await [of 1 "Acknowledged 0" "Abandoned None" "Some ()"] tame_return [of "()"]
      fresh_world_simps(2)]
  by simp


end
