(* ===== verification/Audio_Cache.thy ===== *)
theory Audio_Cache
  imports Client
begin

text \<open>
  \<open>src/audio_cache.rs\<close>: the disk cache for achievement audio. The file system is the list of
  files of the world with the operations of \<open>tokio::fs\<close> on it; each may fail, and one that fails
  or is dropped while it runs may have had any part of its effect. A path is the string it is
  written as. How an achievement ID and a hash print is code of other crates, the parameter
  \<open>display\<close>. The cache is used from one task, as its documentation asks: nobody else changes
  the directory during an operation.
\<close>

section \<open>Paths\<close>

definition path_join :: "path \<Rightarrow> string \<Rightarrow> path" where
  "path_join base name =
     (if base = [] then name
      else if last base = CHR ''/'' then base @ name
      else base @ ''/'' @ name)"

definition file_name :: "path \<Rightarrow> string" where
  "file_name p = rev (takeWhile (\<lambda>c. c \<noteq> CHR ''/'') (rev p))"

text \<open>\<open>Path::extension\<close>: what follows the last dot of the file name, unless that dot is its first
  character.\<close>

definition extension :: "path \<Rightarrow> string option" where
  "extension p =
     (let name = rev (file_name p);
          before = dropWhile (\<lambda>c. c \<noteq> CHR ''.'') name in
      if before = [] \<or> tl before = [] \<or> name = ''..'' then None
      else Some (rev (takeWhile (\<lambda>c. c \<noteq> CHR ''.'') name)))"

section \<open>File operations\<close>

fun fs_apply :: "fs_op \<Rightarrow> (path \<times> bytes) list \<Rightarrow> (path \<times> bytes) list" where
  "fs_apply (FsWrite p data) fs = AList.update p data fs"
| "fs_apply (Rename from to) fs =
     (case map_of fs from of
        None \<Rightarrow> fs
      | Some data \<Rightarrow> AList.update to data (AList.delete from fs))"
| "fs_apply (RemoveFile p) fs = AList.delete p fs"
| "fs_apply _ fs = fs"

text \<open>What an operation that did not succeed may have done: nothing, or a part of a write.\<close>

fun fs_partial :: "nat option \<Rightarrow> fs_op \<Rightarrow> (path \<times> bytes) list \<Rightarrow> (path \<times> bytes) list" where
  "fs_partial None op fs = fs"
| "fs_partial (Some n) (FsWrite p data) fs = AList.update p (take n data) fs"
| "fs_partial (Some n) op fs = fs_apply op fs"

fun fs_missing :: "fs_op \<Rightarrow> (path \<times> bytes) list \<Rightarrow> bool" where
  "fs_missing (Rename from to) fs = (map_of fs from = None)"
| "fs_missing (RemoveFile p) fs = (map_of fs p = None)"
| "fs_missing _ fs = False"

definition fs_perform :: "env \<Rightarrow> fs_op \<Rightarrow> (io_error + unit) io" where
  "fs_perform E op w =
     (case env_fs E (history w) op of
        (dt, err) \<Rightarrow>
          let err = (if err = None \<and> fs_missing op (files w) then Some ''not found'' else err);
              failed = fs_partial (env_fs_partial E (history w) op) op (files w) in
          if expires w dt then
            (Cancelled, w\<lparr>clock := max (clock w) (the (deadline w)),
               history := history w @ [FsAbandoned op], files := failed\<rparr>)
          else
            (Done (case err of None \<Rightarrow> Inr () | Some e \<Rightarrow> Inl e),
             w\<lparr>clock := clock w + dt, history := history w @ [Fs op err],
               files := (if err = None then fs_apply op (files w) else failed)\<rparr>))"

definition io_files :: "(path \<times> bytes) list io" where
  "io_files w = (Done (files w), w)"

definition fs_try_exists :: "env \<Rightarrow> path \<Rightarrow> (io_error + bool) io" where
  "fs_try_exists E p =
     io_try (fs_perform E (TryExists p)) (\<lambda>_. io_map (\<lambda>fs. Inr (map_of fs p \<noteq> None)) io_files)"

definition dir_entry :: "path \<Rightarrow> path \<Rightarrow> bool" where
  "dir_entry base p \<longleftrightarrow>
     prefix (path_join base []) p \<and> CHR ''/'' \<notin> set (drop (length (path_join base [])) p)"

definition fs_read_dir :: "env \<Rightarrow> path \<Rightarrow> (io_error + path list) io" where
  "fs_read_dir E base =
     io_try (fs_perform E (ReadDir base))
       (\<lambda>_. io_map (\<lambda>fs. Inr (filter (dir_entry base) (map fst fs))) io_files)"

section \<open>The cache\<close>

record display =
  display_uuid :: "uuid \<Rightarrow> string"
  display_hash :: "data_hash \<Rightarrow> string"

type_synonym audio_source = "uuid \<Rightarrow> (request_error + bytes) io"

text \<open>
  The two implementations of \<open>AudioProvider\<close>: a session's \<open>retrieve_audio\<close>, and a client's over
  the exchange \<open>call\<close> its handle performs. \<open>client_exchange\<close> is the exchange of a caller whose
  request is the next one the connection task takes, in state \<open>t\<close>.
\<close>

definition session_source :: "protocol \<Rightarrow> env \<Rightarrow> session \<Rightarrow> audio_source" where
  "session_source P E se i = session_retrieve_audio P E se i"

definition client_source ::
  "protocol \<Rightarrow> (raw_message \<Rightarrow> (request_error + raw_message) io) \<Rightarrow> audio_source" where
  "client_source P call i =
     (case encode_message P (RetrieveAudio i) of
        Inl e \<Rightarrow> io_return (Inl (Encode e))
      | Inr message \<Rightarrow> io_map (\<lambda>r. retrieve_audio P (\<lambda>_. r) i) (call message))"

definition client_exchange ::
  "protocol \<Rightarrow> env \<Rightarrow> client_task \<Rightarrow> raw_message \<Rightarrow> (request_error + raw_message) io" where
  "client_exchange P E t message = io_map fst (handle_request P E message t)"

datatype audio_cache_error = CacheIo io_error | CacheRequest request_error

record audio_cache =
  base_path :: path

definition cache_new :: "path \<Rightarrow> audio_cache" where
  "cache_new base = \<lparr>base_path = base\<rparr>"

definition path_for :: "display \<Rightarrow> audio_cache \<Rightarrow> achievement_record \<Rightarrow> path option" where
  "path_for F cache record =
     map_option (\<lambda>hash. path_join (base_path cache)
       (display_uuid F (achievement_id record) @ ''_'' @ display_hash F hash @ ''.mp3''))
       (audio_hash record)"

text \<open>\<open>TEMP_COUNTER.fetch_add(1)\<close>, which wraps around.\<close>

definition fetch_add :: "u64 io" where
  "fetch_add w = (Done (temp_counter w), w\<lparr>temp_counter := temp_counter w + 1\<rparr>)"

definition temp_path :: "display \<Rightarrow> audio_cache \<Rightarrow> uuid \<Rightarrow> u64 \<Rightarrow> path" where
  "temp_path F cache i n =
     path_join (base_path cache) (display_uuid F i @ ''.'' @ show_nat (unat n) @ ''.download'')"

text \<open>Write, then rename.\<close>

definition store ::
  "display \<Rightarrow> env \<Rightarrow> audio_cache \<Rightarrow> uuid \<Rightarrow> path \<Rightarrow> bytes
     \<Rightarrow> (audio_cache_error + path option) io" where
  "store F E cache i path data =
     io_bind fetch_add (\<lambda>n.
       let temp = temp_path F cache i n in
       io_try (io_map (map_err CacheIo) (fs_perform E (FsWrite temp data))) (\<lambda>_.
         io_try (io_map (map_err CacheIo) (fs_perform E (Rename temp path))) (\<lambda>_.
           io_return (Inr (Some path)))))"

definition ensure_inner ::
  "display \<Rightarrow> env \<Rightarrow> audio_cache \<Rightarrow> audio_source \<Rightarrow> achievement_record
     \<Rightarrow> (audio_cache_error + path option) io" where
  "ensure_inner F E cache provider record =
     (case path_for F cache record of
        None \<Rightarrow> io_return (Inr None)
      | Some path \<Rightarrow>
          io_try (io_map (map_err CacheIo) (fs_try_exists E path)) (\<lambda>exists.
            if exists then io_return (Inr (Some path))
            else
              io_try (io_map (map_err CacheIo) (fs_perform E (CreateDirAll (base_path cache)))) (\<lambda>_.
                io_try (io_map (map_err CacheRequest) (provider (achievement_id record)))
                  (store F E cache (achievement_id record) path))))"

definition ensure ::
  "display \<Rightarrow> env \<Rightarrow> audio_cache \<Rightarrow> audio_source \<Rightarrow> achievement_record
     \<Rightarrow> (audio_cache_error + path option) io" where
  "ensure F E cache provider record = ensure_inner F E cache provider record"

definition is_stale_audio :: "path set \<Rightarrow> path \<Rightarrow> bool" where
  "is_stale_audio expected p \<longleftrightarrow> extension p = Some ''mp3'' \<and> p \<notin> expected"

definition is_leftover_download :: "path \<Rightarrow> bool" where
  "is_leftover_download p \<longleftrightarrow> extension p = Some ''download''"

text \<open>The loop over the directory's entries; each entry, and the end, is asked for.\<close>

fun prune :: "env \<Rightarrow> path \<Rightarrow> path set \<Rightarrow> path list \<Rightarrow> (audio_cache_error + unit) io" where
  "prune E base expected [] = io_map (map_err CacheIo) (fs_perform E (NextEntry base))"
| "prune E base expected (path # paths) =
     io_try (io_map (map_err CacheIo) (fs_perform E (NextEntry base))) (\<lambda>_.
       io_bind (if is_stale_audio expected path \<or> is_leftover_download path
                then io_map (\<lambda>_. ()) (fs_perform E (RemoveFile path)) else io_return ()) (\<lambda>_.
         prune E base expected paths))"

fun sync_records ::
  "protocol \<Rightarrow> display \<Rightarrow> env \<Rightarrow> audio_cache \<Rightarrow> audio_source \<Rightarrow> uuid list \<Rightarrow> achievement_record list
     \<Rightarrow> (audio_cache_error + uuid list) io" where
  "sync_records P F E cache provider skipped [] = io_return (Inr skipped)"
| "sync_records P F E cache provider skipped (record # records) =
     io_bind (ensure_inner F E cache provider record) (\<lambda>r. case r of
         Inr _ \<Rightarrow> sync_records P F E cache provider skipped records
       | Inl e \<Rightarrow>
           (case e of
              CacheRequest (Error error) \<Rightarrow>
                if \<not> is_fatal P error
                then sync_records P F E cache provider (skipped @ [achievement_id record]) records
                else io_return (Inl e)
            | _ \<Rightarrow> io_return (Inl e)))"

definition sync ::
  "protocol \<Rightarrow> display \<Rightarrow> env \<Rightarrow> audio_cache \<Rightarrow> audio_source \<Rightarrow> achievement_record list
     \<Rightarrow> (audio_cache_error + uuid list) io" where
  "sync P F E cache provider records =
     io_try (io_map (map_err CacheIo) (fs_perform E (CreateDirAll (base_path cache)))) (\<lambda>_.
       let expected = set (List.map_filter (path_for F cache) records) in
       io_try (io_map (map_err CacheIo) (fs_read_dir E (base_path cache))) (\<lambda>entries.
         io_try (prune E (base_path cache) expected entries) (\<lambda>_.
           sync_records P F E cache provider [] records)))"

section \<open>The provider's contract\<close>

lemma tame_io_files [tame_intros]: "tame io_files"
  by (auto intro!: tameI simp: io_files_def)

lemma tame_fetch_add [tame_intros]: "tame fetch_add"
  by (auto intro!: tameI simp: fetch_add_def)

lemma tame_fs_perform [tame_intros]: "tame (fs_perform E op)"
  by (auto intro!: tameI simp: fs_perform_def expires_def Let_def
      split: if_splits option.splits prod.splits)

lemma tame_fs_queries [tame_intros]:
  "tame (fs_try_exists E p)"
  "tame (fs_read_dir E base)"
  unfolding fs_try_exists_def fs_read_dir_def by (intro tame_intros)+

lemma tame_prune [tame_intros]: "tame (prune E base expected entries)"
  by (induction entries) (auto intro!: tame_intros)

lemma keeps_io_files [keeps_intros]: "keeps_files io_files"
  by (simp add: keeps_files_def io_files_def)

fun read_only :: "fs_op \<Rightarrow> bool" where
  "read_only (FsWrite p data) = False"
| "read_only (Rename from to) = False"
| "read_only (RemoveFile p) = False"
| "read_only _ = True"

lemma keeps_fs_perform [keeps_intros]:
  assumes "read_only op"
  shows "keeps_files (fs_perform E op)"
proof -
  have "fs_apply op fs = fs" and "fs_partial x op fs = fs" for fs x
    using assms by (cases op; cases x; simp)+
  then show ?thesis
    by (simp add: keeps_files_def fs_perform_def Let_def split: prod.split)
qed

lemma keeps_fs_queries [keeps_intros]:
  "keeps_files (fs_try_exists E p)"
  "keeps_files (fs_read_dir E base)"
  unfolding fs_try_exists_def fs_read_dir_def by (intro keeps_intros; simp)+

lemma keeps_set_status [keeps_intros]: "keeps_files (set_status st t)"
  unfolding set_status_def by (auto intro!: keeps_intros)

lemma keeps_client_exchange [keeps_intros]: "keeps_files (client_exchange P E t message)"
  unfolding client_exchange_def handle_request_def drop_connection_def
  by (auto intro!: keeps_intros split: option.split sum.split)

text \<open>
  What the cache relies on in the trait \<open>AudioProvider\<close>: retrieving respects the runtime and
  leaves the cache directory alone.
\<close>

locale audio_provider =
  fixes provider :: audio_source
  assumes tame_provider: "tame (provider i)"
    and keeps_provider: "keeps_files (provider i)"
begin

lemma tame_ensure_inner: "tame (ensure_inner F E cache provider rec)"
  unfolding ensure_inner_def store_def Let_def
  by (auto intro!: tame_intros tame_provider split: option.split)

lemma tame_sync_records: "tame (sync_records P F E cache provider skipped recs)"
  by (induction recs arbitrary: skipped)
     (auto intro!: tame_intros tame_ensure_inner
       split: sum.split audio_cache_error.split request_error.split)

lemma tame_sync: "tame (sync P F E cache provider recs)"
  unfolding sync_def Let_def by (intro tame_intros tame_sync_records)

end

interpretation session_audio: audio_provider "session_source P E se" for P E se
  by unfold_locales (auto simp: session_source_def intro!: tame_intros keeps_intros)

interpretation client_audio: audio_provider "client_source P (client_exchange P E t)" for P E t
  by unfold_locales (auto simp: client_source_def client_exchange_def
      intro!: tame_intros keeps_intros [unfolded client_exchange_def] split: sum.split)

end
