(* ===== verification/Audio_Cache_Properties.thy ===== *)
theory Audio_Cache_Properties
  imports Audio_Cache
begin

text \<open>
  What the audio cache promises, proved once for every audio provider in the context of its
  contract (\<open>audio_provider\<close>) and stated for the two the repository has. The names in the
  directory are the basis: final names are \<open>.mp3\<close>, temporary ones \<open>.download\<close>, and a final name
  determines its record.
\<close>

section \<open>Names in the cache directory\<close>

text \<open>
  What the naming relies on: different IDs, and different hashes, print differently, and neither
  prints a slash, an underscore or a dot.
\<close>

definition displays :: "display \<Rightarrow> bool" where
  "displays F \<longleftrightarrow> inj (display_uuid F) \<and> inj (display_hash F) \<and>
     (\<forall>i. set (display_uuid F i) \<inter> {CHR ''/'', CHR ''_'', CHR ''.''} = {}) \<and>
     (\<forall>h. set (display_hash F h) \<inter> {CHR ''/'', CHR ''_'', CHR ''.''} = {})"

lemma file_name_join:
  assumes "CHR ''/'' \<notin> set name"
  shows "file_name (path_join base name) = name"
proof -
  have tw: "takeWhile (\<lambda>c. c \<noteq> CHR ''/'') (rev name @ rest) =
      rev name @ takeWhile (\<lambda>c. c \<noteq> CHR ''/'') rest" for rest
    using assms by (intro takeWhile_append2) auto
  have all: "takeWhile (\<lambda>c. c \<noteq> CHR ''/'') (rev name) = rev name"
    using tw [of "[]"] by (simp only: append_Nil2 takeWhile.simps)
  show ?thesis
    by (cases base rule: rev_cases) (simp_all add: file_name_def path_join_def tw all)
qed

lemma extension_of:
  assumes "file_name p = stem @ ''.'' @ ext" and "stem \<noteq> []" and "CHR ''.'' \<notin> set ext" and "ext \<noteq> []"
  shows "extension p = Some ext"
proof -
  have "rev (file_name p) = rev ext @ CHR ''.'' # rev stem"
    using assms(1) by simp
  moreover have "takeWhile (\<lambda>c. c \<noteq> CHR ''.'') (rev ext @ CHR ''.'' # rev stem) = rev ext"
    using assms(3) by (subst takeWhile_append2) auto
  moreover have "dropWhile (\<lambda>c. c \<noteq> CHR ''.'') (rev ext @ CHR ''.'' # rev stem) = CHR ''.'' # rev stem"
    using assms(3) by (subst dropWhile_append2) auto
  moreover have "rev ext @ CHR ''.'' # rev stem \<noteq> ''..''"
    using assms(3,4) by (cases ext rule: rev_cases) auto
  ultimately show ?thesis
    using assms(2) by (simp add: extension_def Let_def)
qed

lemma path_join_inject: "path_join base a = path_join base b \<longleftrightarrow> a = b"
  by (simp add: path_join_def)

lemma path_for_extension:
  assumes "displays F" and "path_for F cache rec = Some p"
  shows "extension p = Some ''mp3''"
proof -
  obtain h where p: "p = path_join (base_path cache)
      (display_uuid F (achievement_id rec) @ ''_'' @ display_hash F h @ ''.mp3'')"
    using assms(2) by (auto simp: path_for_def)
  have "file_name p = (display_uuid F (achievement_id rec) @ ''_'' @ display_hash F h) @ ''.'' @ ''mp3''"
    unfolding p using assms(1) by (subst file_name_join) (auto simp: displays_def)
  then show ?thesis
    by (rule extension_of) auto
qed

lemma temp_path_extension:
  assumes "displays F"
  shows "extension (temp_path F cache i n) = Some ''download''"
proof -
  have "file_name (temp_path F cache i n) =
      (display_uuid F i @ ''.'' @ show_nat (unat n)) @ ''.'' @ ''download''"
    unfolding temp_path_def using assms by (subst file_name_join) (auto simp: displays_def)
  then show ?thesis
    by (rule extension_of) auto
qed

lemma path_for_inject:
  assumes F: "displays F" and "path_for F cache rec1 = Some p" "path_for F cache rec2 = Some p"
  shows "achievement_id rec1 = achievement_id rec2 \<and> audio_hash rec1 = audio_hash rec2"
proof -
  obtain h1 h2 where h: "audio_hash rec1 = Some h1" "audio_hash rec2 = Some h2"
    and eq: "display_uuid F (achievement_id rec1) @ CHR ''_'' # display_hash F h1 @ ''.mp3'' =
      display_uuid F (achievement_id rec2) @ CHR ''_'' # display_hash F h2 @ ''.mp3''"
    using assms(2,3) by (auto simp: path_for_def path_join_inject)
  have free: "CHR ''_'' \<notin> set (display_uuid F (achievement_id rec1))"
    "CHR ''_'' \<notin> set (display_uuid F (achievement_id rec2))"
    using F unfolding displays_def by blast+
  from eq have "display_uuid F (achievement_id rec1) = display_uuid F (achievement_id rec2)"
    and "display_hash F h1 = display_hash F h2"
    by (simp_all add: first_occurrence_unique [OF free])
  with F h show ?thesis
    by (auto simp: displays_def dest: injD)
qed

section \<open>What an operation does to the files\<close>

lemma fs_perform_files:
  assumes "fs_perform E op w = (r, w')"
  shows "r = Done (Inr ()) \<and> \<not> fs_missing op (files w) \<and> files w' = fs_apply op (files w) \<or>
    r \<noteq> Done (Inr ()) \<and> (files w' = files w \<or> (\<exists>n. files w' = fs_partial (Some n) op (files w)))"
proof (cases "env_fs_partial E (history w) op")
  case None
  then show ?thesis
    using assms by (auto simp: fs_perform_def Let_def split: prod.splits if_splits option.splits)
next
  case (Some n)
  then show ?thesis
    using assms by (auto simp: fs_perform_def Let_def split: prod.splits if_splits option.splits)
qed

text \<open>Data a provider returned for an achievement at some time.\<close>

definition delivered :: "audio_source \<Rightarrow> uuid \<Rightarrow> bytes \<Rightarrow> bool" where
  "delivered provider i data \<longleftrightarrow> (\<exists>w w'. provider i w = (Done (Inr data), w'))"

lemma store_files:
  assumes F: "displays F" and path: "extension path = Some ''mp3''"
    and run: "store F E cache i path data w = (r, w')" and p: "extension p \<noteq> Some ''download''"
  shows "map_of (files w') p = map_of (files w) p \<or> p = path \<and> map_of (files w') p = Some data"
proof -
  let ?t = "temp_path F cache i (temp_counter w)"
  let ?v = "w\<lparr>temp_counter := temp_counter w + 1\<rparr>"
  have t: "p \<noteq> ?t" "path \<noteq> ?t"
    using p path temp_path_extension [OF F] by fastforce+
  obtain r1 w1 where 1: "fs_perform E (FsWrite ?t data) ?v = (r1, w1)"
    by fastforce
  have w1: "map_of (files w1) p = map_of (files w) p"
    using fs_perform_files [OF 1] t by (auto simp: update_conv)
  show ?thesis
  proof (cases "r1 = Done (Inr ())")
    case False
    with run 1 have "w' = w1"
      by (auto simp: store_def fetch_add_def Let_def io_try_def io_bind_def io_map_def io_return_def
          split: outcome.splits sum.splits)
    with w1 show ?thesis
      by simp
  next
    case True
    with fs_perform_files [OF 1] have t1: "map_of (files w1) ?t = Some data"
      by (simp add: update_conv)
    obtain r2 w2 where 2: "fs_perform E (Rename ?t path) w1 = (r2, w2)"
      by fastforce
    with run 1 True have "w' = w2"
      by (auto simp: store_def fetch_add_def Let_def io_try_def io_bind_def io_map_def io_return_def
          split: outcome.splits sum.splits)
    with fs_perform_files [OF 2] t1 w1 t show ?thesis
      by (auto simp: update_conv delete_conv split: if_splits)
  qed
qed

lemma store_done:
  assumes F: "displays F" and path: "extension path = Some ''mp3''"
    and run: "store F E cache i path data w = (Done (Inr v), w')"
  shows "v = Some path \<and> map_of (files w') =
    (map_of (files w))(temp_path F cache i (temp_counter w) := None, path \<mapsto> data)"
proof -
  let ?t = "temp_path F cache i (temp_counter w)"
  let ?v = "w\<lparr>temp_counter := temp_counter w + 1\<rparr>"
  obtain w1 where 1: "fs_perform E (FsWrite ?t data) ?v = (Done (Inr ()), w1)"
    and 2: "fs_perform E (Rename ?t path) w1 = (Done (Inr ()), w')" and v: "v = Some path"
    using run by (auto simp: store_def fetch_add_def Let_def io_simps io_bind_def)
  show ?thesis
    using fs_perform_files [OF 1] fs_perform_files [OF 2] v
    by (auto simp: update_conv delete_conv)
qed

lemma store_error:
  "store F E cache i path data w = (Done (Inl e), w') \<Longrightarrow> \<exists>x. e = CacheIo x"
  by (auto simp: store_def fetch_add_def Let_def io_simps io_bind_def io_map_err_run
      split: prod.splits outcome.splits)

lemma fs_try_exists_result:
  assumes "fs_try_exists E p w = (Done (Inr b), w')"
  shows "b = (map_of (files w) p \<noteq> None) \<and> history w' = history w @ [Fs (TryExists p) None]"
proof -
  obtain w1 where 1: "fs_perform E (TryExists p) w = (Done (Inr ()), w1)"
    and "b = (map_of (files w1) p \<noteq> None)" "w' = w1"
    using assms by (auto simp: fs_try_exists_def io_simps io_files_def)
  moreover from 1 have "history w1 = history w @ [Fs (TryExists p) None]"
    by (auto simp: fs_perform_def Let_def split: prod.splits if_splits option.splits)
  ultimately show ?thesis
    using fs_perform_files [OF 1] by simp
qed

section \<open>The cache's invariant\<close>

text \<open>
  A file under the final name of a record holds, whole, audio that was delivered for that very
  achievement.
\<close>

definition cache_inv ::
  "display \<Rightarrow> audio_cache \<Rightarrow> (uuid \<Rightarrow> bytes \<Rightarrow> bool) \<Rightarrow> (path \<times> bytes) list \<Rightarrow> bool" where
  "cache_inv F cache whole fs \<longleftrightarrow>
     (\<forall>rec p data. path_for F cache rec = Some p \<longrightarrow> map_of fs p = Some data \<longrightarrow>
        whole (achievement_id rec) data)"

text \<open>Files that are not downloads in progress stay as they are; new names come from \<open>X\<close>.\<close>

definition grows :: "path set \<Rightarrow> (path \<times> bytes) list \<Rightarrow> (path \<times> bytes) list \<Rightarrow> bool" where
  "grows X fs fs' \<longleftrightarrow>
     (\<forall>p. map_of fs' p \<noteq> None \<longrightarrow> map_of fs p \<noteq> None \<or> p \<in> X) \<and>
     (\<forall>p. extension p \<noteq> Some ''download'' \<longrightarrow> map_of fs p \<noteq> None \<longrightarrow> map_of fs' p = map_of fs p)"

lemma grows_refl [simp]: "grows X fs fs"
  by (simp add: grows_def)

lemma grows_trans:
  assumes "grows X fs fs1" and "grows Y fs1 fs'"
  shows "grows (X \<union> Y) fs fs'"
  using assms unfolding grows_def by (metis UnCI)

lemma grows_keeps:
  "grows X fs fs' \<Longrightarrow> extension p \<noteq> Some ''download'' \<Longrightarrow> map_of fs p \<noteq> None \<Longrightarrow> map_of fs' p \<noteq> None"
  unfolding grows_def by metis

definition expected_paths :: "display \<Rightarrow> audio_cache \<Rightarrow> achievement_record list \<Rightarrow> path set" where
  "expected_paths F cache recs = set (List.map_filter (path_for F cache) recs)"

lemma expected_paths_simps:
  "expected_paths F cache [] = {}"
  "expected_paths F cache (rec # recs) = set_option (path_for F cache rec) \<union> expected_paths F cache recs"
  by (simp_all add: expected_paths_def List.map_filter_simps split: option.split)

definition refuses :: "protocol \<Rightarrow> audio_source \<Rightarrow> uuid \<Rightarrow> bool" where
  "refuses P provider i \<longleftrightarrow>
     (\<exists>w w' error. provider i w = (Done (Inl (Error error)), w') \<and> \<not> is_fatal P error)"

section \<open>Pruning\<close>

abbreviation prunable :: "path set \<Rightarrow> path \<Rightarrow> bool" where
  "prunable expected p \<equiv> is_stale_audio expected p \<or> is_leftover_download p"

lemma prune_step:
  "prune E base expected (p # ps) w = (r, w'') \<longleftrightarrow>
     (\<exists>w1 v w'. fs_perform E (NextEntry base) w = (Done (Inr ()), w1) \<and>
        (if prunable expected p then fs_perform E (RemoveFile p) w1 = (Done v, w')
         else w' = w1) \<and> prune E base expected ps w' = (r, w'')) \<or>
     (\<exists>e. fs_perform E (NextEntry base) w = (Done (Inl e), w'') \<and> r = Done (Inl (CacheIo e))) \<or>
     (fs_perform E (NextEntry base) w = (Cancelled, w'') \<and> r = Cancelled) \<or>
     (\<exists>w1. fs_perform E (NextEntry base) w = (Done (Inr ()), w1) \<and> prunable expected p \<and>
        fs_perform E (RemoveFile p) w1 = (Cancelled, w'') \<and> r = Cancelled)"
  by (auto simp: io_try_def io_bind_def io_map_def io_return_def map_err_def
      split: prod.splits outcome.splits sum.splits if_splits)

lemma next_entry_files: "fs_perform E (NextEntry base) w = (r, w') \<Longrightarrow> files w' = files w"
  by (rule keeps_filesD(1) [OF keeps_fs_perform]) simp_all

lemma remove_files:
  assumes "fs_perform E (RemoveFile p) w = (r, w')"
  shows "map_of (files w') q = map_of (files w) q \<or> q = p \<and> map_of (files w') q = None"
  using fs_perform_files [OF assms] by (auto simp: delete_conv split: if_splits)

lemma prune_files:
  assumes "prune E base expected ps w = (r, w')"
  shows "map_of (files w') q = map_of (files w) q \<or>
    map_of (files w') q = None \<and> q \<in> set ps \<and> prunable expected q"
  using assms
proof (induction ps arbitrary: w)
  case Nil
  then have "files w' = files w"
    using keeps_filesD(1) [OF keeps_map [OF keeps_fs_perform [of "NextEntry base"]]] by simp
  then show ?case
    by simp
next
  case (Cons p ps)
  from Cons.prems consider
      w1 v w2 where "fs_perform E (NextEntry base) w = (Done (Inr ()), w1)" "prunable expected p"
        "fs_perform E (RemoveFile p) w1 = (Done v, w2)" "prune E base expected ps w2 = (r, w')"
    | w1 where "fs_perform E (NextEntry base) w = (Done (Inr ()), w1)"
        "prune E base expected ps w1 = (r, w')"
    | o' where "fs_perform E (NextEntry base) w = (o', w')"
    | w1 where "fs_perform E (NextEntry base) w = (Done (Inr ()), w1)" "prunable expected p"
        "fs_perform E (RemoveFile p) w1 = (Cancelled, w')"
    unfolding prune_step by (cases "prunable expected p") auto
  then show ?case
  proof cases
    case 1
    from next_entry_files [OF 1(1)] remove_files [OF 1(3), of q] Cons.IH [OF 1(4)] 1(2) show ?thesis
      by auto
  next
    case 2
    from next_entry_files [OF 2(1)] Cons.IH [OF 2(2)] show ?thesis
      by auto
  next
    case 3
    from next_entry_files [OF 3] show ?thesis
      by simp
  next
    case 4
    from next_entry_files [OF 4(1)] remove_files [OF 4(3), of q] 4(2) show ?thesis
      by auto
  qed
qed

lemma remove_result:
  assumes "fs_perform E (RemoveFile p) w = (Done v, w')"
  shows "map_of (files w') p = None \<or> (\<exists>e. history w' = history w @ [Fs (RemoveFile p) (Some e)])"
  using assms by (auto simp: fs_perform_def Let_def delete_conv split: prod.splits if_splits option.splits)

lemma prune_done:
  assumes "prune E base expected ps w = (Done (Inr u), w')" and "p \<in> set ps" and "prunable expected p"
    and "map_of (files w') p \<noteq> None"
  shows "\<exists>e. Fs (RemoveFile p) (Some e) \<in> set (drop (length (history w)) (history w'))"
  using assms
proof (induction ps arbitrary: w)
  case (Cons q ps)
  from Cons.prems(1) obtain w1 v w2 where 1: "fs_perform E (NextEntry base) w = (Done (Inr ()), w1)"
    and 2: "if prunable expected q then fs_perform E (RemoveFile q) w1 = (Done v, w2) else w2 = w1"
    and 3: "prune E base expected ps w2 = (Done (Inr u), w')"
    unfolding prune_step by auto
  have h1: "prefix (history w) (history w1)" and h2: "prefix (history w1) (history w2)"
    and h3: "prefix (history w2) (history w')"
    using tameD(1) [OF tame_fs_perform 1] tameD(1) [OF tame_prune 3] 2 tameD(1) [OF tame_fs_perform]
    by (auto split: if_splits)
  show ?case
  proof (cases "p \<in> set ps")
    case True
    from Cons.IH [OF 3 True Cons.prems(3,4)] h1 h2 h3 show ?thesis
      by (auto simp: prefix_def)
  next
    case False
    with Cons.prems(2,3) 2 have rm: "fs_perform E (RemoveFile p) w1 = (Done v, w2)"
      by auto
    have "map_of (files w2) p \<noteq> None"
      using prune_files [OF 3, of p] False Cons.prems(4) by auto
    with remove_result [OF rm] h1 h3 show ?thesis
      by (auto simp: prefix_def)
  qed
qed simp

lemma prune_failed: "prune E base expected ps w = (Done (Inl e), w') \<Longrightarrow> \<exists>x. e = CacheIo x"
proof (induction ps arbitrary: w)
  case (Cons p ps)
  then show ?case
    unfolding prune_step by blast
qed (auto simp: io_map_err_run)

lemma fs_read_dir_result:
  assumes "fs_read_dir E base w = (Done (Inr entries), w')"
  shows "entries = filter (dir_entry base) (map fst (files w))"
proof -
  obtain w1 where 1: "fs_perform E (ReadDir base) w = (Done (Inr ()), w1)"
    and "entries = filter (dir_entry base) (map fst (files w1))"
    using assms by (auto simp: fs_read_dir_def io_simps io_files_def)
  with fs_perform_files [OF 1] show ?thesis
    by simp
qed

lemma cache_inv_prune:
  assumes "prune E base expected ps w = (r, w')" and "cache_inv F cache whole (files w)"
  shows "cache_inv F cache whole (files w')"
  unfolding cache_inv_def
proof (intro allI impI)
  fix rec p data
  assume "path_for F cache rec = Some p" and "map_of (files w') p = Some data"
  with prune_files [OF assms(1), of p] assms(2) show "whole (achievement_id rec) data"
    by (auto simp: cache_inv_def)
qed

lemma expected_extension:
  assumes F: "displays F" and "p \<in> expected_paths F cache recs"
  shows "extension p = Some ''mp3''"
  using assms(2) path_for_extension [OF F]
  by (induction recs) (auto simp: expected_paths_simps)

context audio_provider
begin

lemma ensure_cases:
  assumes run: "ensure_inner F E cache provider rec w = (r, w')"
    and path: "path_for F cache rec = Some path"
  obtains (stopped) "files w' = files w"
      "\<And>v. r = Done (Inr v) \<Longrightarrow> v = Some path \<and> map_of (files w) path \<noteq> None \<and>
         history w' = history w @ [Fs (TryExists path) None]"
      "\<And>e. r = Done (Inl (CacheRequest e)) \<Longrightarrow>
         \<exists>w1 w2. provider (achievement_id rec) w1 = (Done (Inl e), w2)"
    | (stored) data w1 where "map_of (files w) path = None" "files w1 = files w"
      "delivered provider (achievement_id rec) data"
      "store F E cache (achievement_id rec) path data w1 = (r, w')"
  using run unfolding ensure_inner_def path option.case
proof (rule io_tryE, goal_cases)
  case (1 exists w1)
  note probe = 1(3) [unfolded io_map_err_run] and rest = 1(4) and thesis = 1(1,2)
  note f1 = keeps_filesD(1) [OF keeps_fs_queries(1) probe]
  show ?case
  proof (cases "exists")
    case True
    with rest have "r = Done (Inr (Some path))" "w' = w1"
      by (simp_all add: io_return_def)
    with fs_try_exists_result [OF probe] True f1 show ?thesis
      by (intro thesis(1)) auto
  next
    case False
    with fs_try_exists_result [OF probe] have new: "map_of (files w) path = None"
      by simp
    from rest False have "io_try (io_map (map_err CacheIo) (fs_perform E (CreateDirAll (base_path cache))))
        (\<lambda>_. io_try (io_map (map_err CacheRequest) (provider (achievement_id rec)))
          (store F E cache (achievement_id rec) path)) w1 = (r, w')"
      by simp
    then show ?thesis
    proof (rule io_tryE, goal_cases)
      case (1 u w2)
      note f2 = keeps_filesD(1) [OF keeps_fs_perform 1(1) [unfolded io_map_err_run]]
      from 1(2) show ?case
      proof (rule io_tryE, goal_cases)
        case (1 data w3)
        note got = 1(1) [unfolded io_map_err_run]
        from got 1(2) f1 f2 keeps_filesD(1) [OF keeps_provider got] new show ?case
          by (intro thesis(2) [of w3 data]) (auto simp: delivered_def)
      next
        case (2 e)
        then obtain e' where "provider (achievement_id rec) w2 = (Done (Inl e'), w')" "e = CacheRequest e'"
          by (auto simp: io_map_err_run)
        with 2(2) f1 f2 keeps_filesD(1) [OF keeps_provider] show ?case
          by (intro thesis(1)) auto
      next
        case 3
        with f1 f2 keeps_filesD(1) [OF keeps_provider] show ?case
          by (intro thesis(1)) (auto simp: io_map_err_run)
      qed
    qed (use f1 thesis(1) keeps_filesD(1) [OF keeps_fs_perform [of "CreateDirAll (base_path cache)"]]
      in \<open>auto simp: io_map_err_run\<close>)
  qed
qed (auto simp: io_map_err_run dest: keeps_filesD(1) [OF keeps_fs_queries(1)])

lemma ensure_inv:
  assumes F: "displays F" and run: "ensure_inner F E cache provider rec w = (r, w')"
    and inv: "cache_inv F cache (delivered provider) (files w)"
  shows "cache_inv F cache (delivered provider) (files w')"
proof (cases "path_for F cache rec")
  case None
  with run inv show ?thesis
    by (auto simp: ensure_inner_def io_return_def)
next
  case (Some path)
  from run Some show ?thesis
  proof (cases rule: ensure_cases)
    case stopped
    with inv show ?thesis
      by simp
  next
    case (stored data w1)
    show ?thesis
      unfolding cache_inv_def
    proof (intro allI impI)
      fix other p d
      assume p: "path_for F cache other = Some p" and d: "map_of (files w') p = Some d"
      have "extension p \<noteq> Some ''download''"
        using path_for_extension [OF F p] by simp
      from store_files [OF F path_for_extension [OF F Some] stored(4) this] d stored(2)
      consider "map_of (files w) p = Some d" | "p = path" "d = data"
        by auto
      then show "delivered provider (achievement_id other) d"
      proof cases
        case 1
        with inv p show ?thesis
          by (auto simp: cache_inv_def)
      next
        case 2
        with path_for_inject [OF F p] Some stored(3) show ?thesis
          by simp
      qed
    qed
  qed
qed

lemma ensure_done:
  assumes F: "displays F" and run: "ensure_inner F E cache provider rec w = (Done (Inr v), w')"
  shows "v = path_for F cache rec \<and> grows (set_option v) (files w) (files w') \<and>
    (\<forall>p\<in>set_option v. map_of (files w') p \<noteq> None)"
proof (cases "path_for F cache rec")
  case None
  with run show ?thesis
    by (auto simp: ensure_inner_def io_return_def)
next
  case (Some path)
  from run Some show ?thesis
  proof (cases rule: ensure_cases)
    case stopped
    with Some show ?thesis
      by simp
  next
    case (stored data w1)
    with store_done [OF F path_for_extension [OF F Some] stored(4)] Some
    show ?thesis
      using temp_path_extension [OF F] by (auto simp: grows_def split: if_splits)
  qed
qed

lemma ensure_refused:
  assumes run: "ensure_inner F E cache provider rec w = (Done (Inl (CacheRequest e)), w')"
  shows "files w' = files w \<and> (\<exists>w1 w2. provider (achievement_id rec) w1 = (Done (Inl e), w2))"
proof (cases "path_for F cache rec")
  case None
  with run show ?thesis
    by (auto simp: ensure_inner_def io_return_def)
next
  case (Some path)
  from run Some show ?thesis
    by (cases rule: ensure_cases) (auto dest: store_error)
qed

lemma ensure_outcome:
  assumes F: "displays F" and run: "ensure_inner F E cache provider rec w = (Done r, w')"
  shows "case r of
       Inr None \<Rightarrow> audio_hash rec = None \<and> w' = w
     | Inr (Some p) \<Rightarrow> path_for F cache rec = Some p \<and>
         (if map_of (files w) p \<noteq> None
          then files w' = files w \<and> history w' = history w @ [Fs (TryExists p) None]
          else \<exists>data. delivered provider (achievement_id rec) data \<and>
            map_of (files w') p = Some data)
     | Inl (CacheRequest e) \<Rightarrow> files w' = files w \<and>
         (\<exists>w1 w2. provider (achievement_id rec) w1 = (Done (Inl e), w2))
     | Inl (CacheIo e) \<Rightarrow> audio_hash rec \<noteq> None"
proof (cases "path_for F cache rec")
  case None
  with run show ?thesis
    by (auto simp: ensure_inner_def io_return_def path_for_def)
next
  case (Some path)
  then have hash: "audio_hash rec \<noteq> None"
    by (auto simp: path_for_def)
  from run Some show ?thesis
  proof (cases rule: ensure_cases)
    case stopped
    with hash Some show ?thesis
      by (auto split: sum.split option.split audio_cache_error.split)
  next
    case (stored data w1)
    show ?thesis
    proof (cases r)
      case (Inl e)
      with stored(4) store_error obtain x where "e = CacheIo x"
        by blast
      with Inl hash show ?thesis
        by simp
    next
      case (Inr v)
      with stored(4) have "store F E cache (achievement_id rec) path data w1 = (Done (Inr v), w')"
        by simp
      from store_done [OF F path_for_extension [OF F Some] this] Inr stored(1,3) Some show ?thesis
        by auto
    qed
  qed
qed

lemma sync_records_step:
  "sync_records P F E cache provider skipped (rec # recs) w = (r, w'') \<longleftrightarrow>
     (\<exists>v w'. ensure_inner F E cache provider rec w = (Done (Inr v), w') \<and>
        sync_records P F E cache provider skipped recs w' = (r, w'')) \<or>
     (\<exists>error w'. ensure_inner F E cache provider rec w = (Done (Inl (CacheRequest (Error error))), w') \<and>
        \<not> is_fatal P error \<and>
        sync_records P F E cache provider (skipped @ [achievement_id rec]) recs w' = (r, w'')) \<or>
     (\<exists>e. ensure_inner F E cache provider rec w = (Done (Inl e), w'') \<and> r = Done (Inl e) \<and>
        (\<forall>error. e = CacheRequest (Error error) \<longrightarrow> is_fatal P error)) \<or>
     (ensure_inner F E cache provider rec w = (Cancelled, w'') \<and> r = Cancelled)"
  by (auto simp: io_bind_def io_return_def
      split: prod.splits outcome.splits sum.splits audio_cache_error.splits request_error.splits)

lemma sync_records_inv:
  assumes F: "displays F" and "sync_records P F E cache provider skipped recs w = (r, w')"
    and "cache_inv F cache (delivered provider) (files w)"
  shows "cache_inv F cache (delivered provider) (files w')"
  using assms(2,3)
proof (induction recs arbitrary: skipped w)
  case Nil
  then show ?case
    by (simp add: io_return_def)
next
  case (Cons rec recs)
  from Cons.prems(1) Cons.IH ensure_inv [OF F _ Cons.prems(2)] show ?case
    unfolding sync_records_step by blast
qed

lemma sync_records_failed:
  "sync_records P F E cache provider skipped recs w = (Done (Inl e), w') \<Longrightarrow>
     \<forall>error. e = CacheRequest (Error error) \<longrightarrow> is_fatal P error"
proof (induction recs arbitrary: skipped w)
  case (Cons rec recs)
  then show ?case
    unfolding sync_records_step by blast
qed (simp add: io_return_def)

lemma sync_records_done:
  assumes F: "displays F" and "sync_records P F E cache provider skipped recs w = (Done (Inr out), w')"
  shows "\<exists>new. out = skipped @ new \<and> subseq new (map achievement_id recs) \<and>
    list_all (refuses P provider) new \<and>
    grows (expected_paths F cache recs) (files w) (files w') \<and>
    (\<forall>rec\<in>set recs. \<forall>p. path_for F cache rec = Some p \<longrightarrow>
       map_of (files w') p \<noteq> None \<or> achievement_id rec \<in> set new)"
  using assms(2)
proof (induction recs arbitrary: skipped w)
  case Nil
  then show ?case
    by (simp add: io_return_def)
next
  case (Cons rec recs)
  from Cons.prems consider
      (kept) v w1 where "ensure_inner F E cache provider rec w = (Done (Inr v), w1)"
        "sync_records P F E cache provider skipped recs w1 = (Done (Inr out), w')"
    | (left) error w1 where
        "ensure_inner F E cache provider rec w = (Done (Inl (CacheRequest (Error error))), w1)"
        "\<not> is_fatal P error"
        "sync_records P F E cache provider (skipped @ [achievement_id rec]) recs w1 = (Done (Inr out), w')"
    unfolding sync_records_step by blast
  then show ?case
  proof cases
    case kept
    note e = ensure_done [OF F kept(1)]
    from Cons.IH [OF kept(2)] obtain new where new: "out = skipped @ new"
      "subseq new (map achievement_id recs)" "list_all (refuses P provider) new"
      "grows (expected_paths F cache recs) (files w1) (files w')"
      "\<forall>rec\<in>set recs. \<forall>p. path_for F cache rec = Some p \<longrightarrow>
         map_of (files w') p \<noteq> None \<or> achievement_id rec \<in> set new"
      by blast
    have "map_of (files w') p \<noteq> None" if "path_for F cache rec = Some p" for p
      using grows_keeps [OF new(4)] e that path_for_extension [OF F that] by auto
    with new e grows_trans [of _ "files w" "files w1" _ "files w'"] show ?thesis
      by (intro exI [of _ new]) (auto simp: expected_paths_simps)
  next
    case left
    note e = ensure_refused [OF left(1)]
    from Cons.IH [OF left(3)] obtain new where new: "out = (skipped @ [achievement_id rec]) @ new"
      "subseq new (map achievement_id recs)" "list_all (refuses P provider) new"
      "grows (expected_paths F cache recs) (files w1) (files w')"
      "\<forall>rec\<in>set recs. \<forall>p. path_for F cache rec = Some p \<longrightarrow>
         map_of (files w') p \<noteq> None \<or> achievement_id rec \<in> set new"
      by blast
    moreover have "refuses P provider (achievement_id rec)"
      using e left(2) by (auto simp: refuses_def)
    moreover have "grows (expected_paths F cache (rec # recs)) (files w) (files w')"
      using new(4) e by (auto simp: expected_paths_simps grows_def)
    ultimately show ?thesis
      by (intro exI [of _ "achievement_id rec # new"]) auto
  qed
qed

lemma sync_split:
  assumes run: "sync P F E cache provider recs w = (r, w')"
  obtains (early) "files w' = files w" "\<And>v. r \<noteq> Done (Inr v)"
      "\<And>e. r = Done (Inl e) \<Longrightarrow> \<exists>x. e = CacheIo x"
    | (pruning) w1 r1 where "files w1 = files w"
      "prune E (base_path cache) (expected_paths F cache recs)
         (filter (dir_entry (base_path cache)) (map fst (files w))) w1 = (r1, w')"
      "\<And>v. r \<noteq> Done (Inr v)" "\<And>e. r = Done (Inl e) \<Longrightarrow> \<exists>x. e = CacheIo x"
    | (fetching) w1 w2 where "files w1 = files w" "prefix (history w) (history w1)"
      "prune E (base_path cache) (expected_paths F cache recs)
         (filter (dir_entry (base_path cache)) (map fst (files w))) w1 = (Done (Inr ()), w2)"
      "sync_records P F E cache provider [] recs w2 = (r, w')"
  using run unfolding sync_def Let_def
proof (rule io_tryE, goal_cases)
  case (1 u w1)
  note thesis = 1(1-3)
  note mkdir = 1(4) [unfolded io_map_err_run]
  have f1: "files w1 = files w"
    using keeps_filesD(1) [OF keeps_fs_perform mkdir] by simp
  from 1(5) show ?case
  proof (rule io_tryE, goal_cases)
    case (1 entries w2)
    note list = 1(1) [unfolded io_map_err_run]
    have f2: "files w2 = files w" and entries: "entries = filter (dir_entry (base_path cache)) (map fst (files w))"
      using keeps_filesD(1) [OF keeps_fs_queries(2) list] f1 fs_read_dir_result [OF list] by auto
    have h: "prefix (history w) (history w2)"
      using tameD(1) [OF tame_fs_perform mkdir] tameD(1) [OF tame_fs_queries(2) list] by (rule prefix_order.order_trans)
    from 1(2) show ?case
    proof (rule io_tryE, goal_cases)
      case (1 u w3)
      then show ?case
        using f2 h entries by (intro thesis(3) [of w2 w3]) (simp_all add: expected_paths_def)
    next
      case (2 e)
      then show ?case
        using f2 entries prune_failed [OF 2(1)]
        by (intro thesis(2) [of w2 "Done (Inl e)"]) (simp_all add: expected_paths_def)
    next
      case 3
      then show ?case
        using f2 entries by (intro thesis(2) [of w2 Cancelled]) (simp_all add: expected_paths_def)
    qed
  qed (use f1 thesis(1) keeps_filesD(1) [OF keeps_fs_queries(2)] in \<open>auto simp: io_map_err_run\<close>)
qed (use keeps_filesD(1) [OF keeps_fs_perform [of "CreateDirAll (base_path cache)"]]
    in \<open>auto simp: io_map_err_run\<close>)

lemma sync_inv:
  assumes F: "displays F" and run: "sync P F E cache provider recs w = (r, w')"
    and inv: "cache_inv F cache (delivered provider) (files w)"
  shows "cache_inv F cache (delivered provider) (files w')"
  using run
proof (cases rule: sync_split)
  case early
  with inv show ?thesis
    by simp
next
  case pruning
  with inv show ?thesis
    by (metis cache_inv_prune)
next
  case (fetching w1 w2)
  with inv have "cache_inv F cache (delivered provider) (files w2)"
    by (metis cache_inv_prune)
  with sync_records_inv [OF F fetching(4)] show ?thesis
    by simp
qed

lemma sync_failed:
  assumes "sync P F E cache provider recs w = (Done (Inl e), w')"
  shows "\<forall>error. e = CacheRequest (Error error) \<longrightarrow> is_fatal P error"
  using assms
proof (cases rule: sync_split)
  case fetching
  then show ?thesis
    by (blast dest: sync_records_failed)
qed auto

lemma sync_done:
  assumes F: "displays F" and run: "sync P F E cache provider recs w = (Done (Inr skipped), w')"
  shows "subseq skipped (map achievement_id recs)" and "list_all (refuses P provider) skipped"
    and "rec \<in> set recs \<Longrightarrow> path_for F cache rec = Some p \<Longrightarrow>
      map_of (files w') p \<noteq> None \<or> achievement_id rec \<in> set skipped"
    and "dir_entry (base_path cache) p \<Longrightarrow> prunable (expected_paths F cache recs) p \<Longrightarrow>
      map_of (files w') p \<noteq> None \<Longrightarrow>
      \<exists>e. Fs (RemoveFile p) (Some e) \<in> set (drop (length (history w)) (history w'))"
    and "\<not> prunable (expected_paths F cache recs) p \<Longrightarrow> map_of (files w) p \<noteq> None \<Longrightarrow>
      map_of (files w') p = map_of (files w) p"
proof -
  from run obtain w1 w2 where f1: "files w1 = files w" and h1: "prefix (history w) (history w1)"
    and prune: "prune E (base_path cache) (expected_paths F cache recs)
         (filter (dir_entry (base_path cache)) (map fst (files w))) w1 = (Done (Inr ()), w2)"
    and fetch: "sync_records P F E cache provider [] recs w2 = (Done (Inr skipped), w')"
    by (cases rule: sync_split) auto
  from sync_records_done [OF F fetch] have grows: "grows (expected_paths F cache recs) (files w2) (files w')"
    and res: "subseq skipped (map achievement_id recs)" "list_all (refuses P provider) skipped"
      "\<And>rec p. rec \<in> set recs \<Longrightarrow> path_for F cache rec = Some p \<Longrightarrow>
         map_of (files w') p \<noteq> None \<or> achievement_id rec \<in> set skipped"
    by auto
  show "subseq skipped (map achievement_id recs)" "list_all (refuses P provider) skipped"
    "rec \<in> set recs \<Longrightarrow> path_for F cache rec = Some p \<Longrightarrow>
      map_of (files w') p \<noteq> None \<or> achievement_id rec \<in> set skipped"
    using res by auto
  show "\<exists>e. Fs (RemoveFile p) (Some e) \<in> set (drop (length (history w)) (history w'))"
    if entry: "dir_entry (base_path cache) p" and p: "prunable (expected_paths F cache recs) p"
      and left: "map_of (files w') p \<noteq> None"
  proof -
    have "p \<notin> expected_paths F cache recs"
      using p expected_extension [OF F] by (auto simp: is_stale_audio_def is_leftover_download_def)
    with grows left have there: "map_of (files w2) p \<noteq> None"
      by (auto simp: grows_def)
    with prune_files [OF prune, of p] f1 have "map_of (files w) p \<noteq> None"
      by auto
    then have "p \<in> set (map fst (files w))"
      by (auto simp: map_of_eq_None_iff)
    with entry have "p \<in> set (filter (dir_entry (base_path cache)) (map fst (files w)))"
      by simp
    from prune_done [OF prune this p there] h1 tameD(1) [OF tame_prune prune]
      tameD(1) [OF tame_sync_records fetch] show ?thesis
      by (auto simp: prefix_def)
  qed
  show "map_of (files w') p = map_of (files w) p"
    if "\<not> prunable (expected_paths F cache recs) p" and "map_of (files w) p \<noteq> None"
    using that grows prune_files [OF prune, of p] f1 by (auto simp: grows_def is_leftover_download_def)
qed

end

section \<open>The cache over the two providers\<close>

definition audio_source_of :: "protocol \<Rightarrow> env \<Rightarrow> audio_source \<Rightarrow> bool" where
  "audio_source_of P E provider \<longleftrightarrow>
     (\<exists>se. provider = session_source P E se) \<or>
     (\<exists>t. provider = client_source P (client_exchange P E t))"

lemma audio_source_provider: "audio_source_of P E provider \<Longrightarrow> audio_provider provider"
  unfolding audio_source_of_def
  by (elim disjE exE) (simp_all add: session_audio.audio_provider_axioms client_audio.audio_provider_axioms)

text \<open>
  C12: No torn file is ever taken for cached audio. However an operation ends, on success, on any
  I/O or download error, and also when the future is dropped or the process stops in the middle
  of a write, a file under the final name of a record holds the whole data that was delivered
  for that achievement. This holds for \<open>ensure\<close> and \<open>sync\<close>, with a session and with a client as
  the source.
\<close>

theorem cache_never_torn:
  assumes "displays F" and "audio_source_of P E provider"
    and "cache_inv F cache (delivered provider) (files w)"
  shows "cache_inv F cache (delivered provider) (files (snd (ensure F E cache provider rec w))) \<and>
    cache_inv F cache (delivered provider) (files (snd (sync P F E cache provider recs w)))"
  using audio_provider.ensure_inv [OF audio_source_provider [OF assms(2)] assms(1) _ assms(3), of E rec]
    audio_provider.sync_inv [OF audio_source_provider [OF assms(2)] assms(1) _ assms(3), of P E recs]
  unfolding ensure_def by (metis prod.collapse)

text \<open>
  C30: \<open>ensure\<close> always returns, and returns what it says. Without audio it does nothing; with audio
  already cached it only looks, and neither asks the server nor writes; otherwise the file is
  there afterwards, with the data the server delivered. A download error is the server's or the
  connection's answer, passed on, and then no file has changed.
\<close>

theorem ensure_result:
  assumes "displays F" and "audio_source_of P E provider" and "deadline w = None"
  shows "\<exists>r w'. ensure F E cache provider rec w = (Done r, w') \<and>
    (case r of
       Inr None \<Rightarrow> audio_hash rec = None \<and> w' = w
     | Inr (Some p) \<Rightarrow> path_for F cache rec = Some p \<and>
         (if map_of (files w) p \<noteq> None
          then files w' = files w \<and> history w' = history w @ [Fs (TryExists p) None]
          else \<exists>data. delivered provider (achievement_id rec) data \<and>
            map_of (files w') p = Some data)
     | Inl (CacheRequest e) \<Rightarrow> files w' = files w \<and>
         (\<exists>w1 w2. provider (achievement_id rec) w1 = (Done (Inl e), w2))
     | Inl (CacheIo e) \<Rightarrow> audio_hash rec \<noteq> None)"
proof -
  note A = audio_source_provider [OF assms(2)]
  obtain r w' where run: "ensure_inner F E cache provider rec w = (Done r, w')"
    using tame_undisturbed [OF audio_provider.tame_ensure_inner [OF A] assms(3)] by blast
  with audio_provider.ensure_outcome [OF A assms(1) run] show ?thesis
    by (simp add: ensure_def)
qed

text \<open>
  C13: \<open>sync\<close> brings the directory in line with the records. It always returns. When it succeeds,
  every record's audio is on disk except for those whose IDs it returns, in the order of the
  records, and each of these the server refused with an error that does not end the connection;
  no audio file that no record refers to and no left-over download remains in the directory
  unless removing it failed; and every other file is as it was, audio that was there included.
  It never fails because of a record the server refused.
\<close>

theorem sync_result:
  assumes "displays F" and "audio_source_of P E provider" and "deadline w = None"
  shows "\<exists>r w'. sync P F E cache provider recs w = (Done r, w') \<and>
    (case r of
       Inl e \<Rightarrow> \<forall>error. e = CacheRequest (Error error) \<longrightarrow> is_fatal P error
     | Inr skipped \<Rightarrow>
         subseq skipped (map achievement_id recs) \<and> list_all (refuses P provider) skipped \<and>
         (\<forall>rec\<in>set recs. \<forall>p. path_for F cache rec = Some p \<longrightarrow>
            map_of (files w') p \<noteq> None \<or> achievement_id rec \<in> set skipped) \<and>
         (\<forall>p. dir_entry (base_path cache) p \<and> prunable (expected_paths F cache recs) p \<and>
            map_of (files w') p \<noteq> None \<longrightarrow>
            (\<exists>e. Fs (RemoveFile p) (Some e) \<in> set (drop (length (history w)) (history w')))) \<and>
         (\<forall>p. \<not> prunable (expected_paths F cache recs) p \<and> map_of (files w) p \<noteq> None \<longrightarrow>
            map_of (files w') p = map_of (files w) p))"
proof -
  note A = audio_source_provider [OF assms(2)]
  obtain r w' where run: "sync P F E cache provider recs w = (Done r, w')"
    using tame_undisturbed [OF audio_provider.tame_sync [OF A] assms(3)] by blast
  show ?thesis
  proof (cases r)
    case (Inl e)
    with run audio_provider.sync_failed [OF A] show ?thesis
      by auto
  next
    case (Inr skipped)
    with run have "sync P F E cache provider recs w = (Done (Inr skipped), w')"
      by simp
    note d = audio_provider.sync_done [OF A assms(1) this]
    show ?thesis
      using run Inr d by (intro exI [of _ r] exI [of _ w']) simp
  qed
qed

text \<open>
  C31: The names in the cache directory do not collide. The final name determines the achievement
  and the audio's hash, so changed audio has a new name and the old file becomes stale; and two
  downloads share a temporary name only if they are for the same achievement and drew the same
  number from the counter, so that downloads at the same time do not write to one file.
\<close>

theorem cache_names:
  assumes F: "displays F"
  shows "(path_for F cache rec1 = path_for F cache rec2 \<and> path_for F cache rec1 \<noteq> None \<longrightarrow>
      achievement_id rec1 = achievement_id rec2 \<and> audio_hash rec1 = audio_hash rec2) \<and>
    (temp_path F cache i m = temp_path F cache j n \<longleftrightarrow> i = j \<and> m = n) \<and>
    path_for F cache rec1 \<noteq> Some (temp_path F cache i m)"
proof -
  have "CHR ''.'' \<notin> set (display_uuid F i)" "CHR ''.'' \<notin> set (display_uuid F j)"
    using F unfolding displays_def by blast+
  from first_occurrence_unique [OF this] F
  have "temp_path F cache i m = temp_path F cache j n \<longleftrightarrow> i = j \<and> m = n"
    by (auto simp: temp_path_def path_join_inject show_nat_inject displays_def word_unat_eq_iff dest: injD)
  moreover have "path_for F cache rec1 \<noteq> Some (temp_path F cache i m)"
    using path_for_extension [OF F, of cache rec1] temp_path_extension [OF F, of cache i m] by force
  moreover have "achievement_id rec1 = achievement_id rec2 \<and> audio_hash rec1 = audio_hash rec2"
    if "path_for F cache rec1 = path_for F cache rec2" and "path_for F cache rec1 \<noteq> None"
    using that path_for_inject [OF F, of cache rec1 _ rec2] by fastforce
  ultimately show ?thesis
    by blast
qed

section \<open>A concrete cache\<close>

text \<open>
  IDs in the hyphenated form of a UUID and hashes in hexadecimal; a cache with one stale file and
  one left-over download, brought in line with two records of which one has audio.
\<close>

definition hex_digit :: "nat \<Rightarrow> char" where
  "hex_digit n = ''0123456789abcdef'' ! n"

definition hex :: "bytes \<Rightarrow> string" where
  "hex bs = concat (map (\<lambda>b. [hex_digit (unat b div 16), hex_digit (unat b mod 16)]) bs)"

definition hyphenated :: "bytes \<Rightarrow> string" where
  "hyphenated u = hex (take 4 u) @ ''-'' @ hex (take 2 (drop 4 u)) @ ''-'' @
     hex (take 2 (drop 6 u)) @ ''-'' @ hex (take 2 (drop 8 u)) @ ''-'' @ hex (drop 10 u)"

definition simple_display :: display where
  "simple_display = \<lparr>display_uuid = hyphenated, display_hash = hex\<rparr>"

lemma hex_digit_in: "n < 16 \<Longrightarrow> hex_digit n \<in> set ''0123456789abcdef''"
  unfolding hex_digit_def by (intro nth_mem) simp

lemma hex_digit_inject:
  assumes "m < 16" and "n < 16"
  shows "hex_digit m = hex_digit n \<longleftrightarrow> m = n"
  using nth_eq_iff_index_eq [of "''0123456789abcdef''" m n] assms by (simp add: hex_digit_def)

lemma hex_chars: "set (hex bs) \<subseteq> set ''0123456789abcdef''"
proof -
  have "set [hex_digit (unat b div 16), hex_digit (unat b mod 16)] \<subseteq> set ''0123456789abcdef''"
    for b :: u8
    using hex_digit_in [of "unat b div 16"] hex_digit_in [of "unat b mod 16"] by simp
  then show ?thesis
    unfolding hex_def by fastforce
qed

lemma hex_append: "hex (a @ b) = hex a @ hex b"
  by (simp add: hex_def)

lemma hex_inject: "hex a = hex b \<Longrightarrow> a = b"
proof (induction a arbitrary: b)
  case Nil
  then show ?case
    by (cases b) (auto simp: hex_def)
next
  case (Cons x a)
  then obtain y b' where b: "b = y # b'"
    by (cases b) (auto simp: hex_def)
  from Cons.prems have "unat x div 16 = unat y div 16" and "unat x mod 16 = unat y mod 16"
    and "hex a = hex b'"
    unfolding b hex_def by (auto simp: hex_digit_inject)
  with Cons.IH b show ?case
    by (metis div_mult_mod_eq word_unat_eq_iff)
qed

lemma hyphenated_hex: "filter (\<lambda>c. c \<noteq> CHR ''-'') (hyphenated u) = hex u"
proof -
  have "filter (\<lambda>c. c \<noteq> CHR ''-'') (hex v) = hex v" for v
    using hex_chars [of v] by (auto simp: filter_id_conv)
  moreover have "take 4 u @ take 2 (drop 4 u) @ take 2 (drop 6 u) @ take 2 (drop 8 u) @ drop 10 u = u"
    by (metis add_2_eq_Suc' append.assoc append_take_drop_id drop_drop numeral_code)
  ultimately show ?thesis
    by (simp add: hyphenated_def flip: hex_append)
qed

lemma simple_displays: "displays simple_display"
proof -
  have "inj hex"
    by (auto intro: injI dest: hex_inject)
  moreover have "inj hyphenated"
    by (rule injI) (metis hyphenated_hex hex_inject)
  moreover have "set (hex v) \<inter> {CHR ''/'', CHR ''_'', CHR ''.''} = {}" for v
    using hex_chars [of v] by auto
  ultimately show ?thesis
    by (auto simp: displays_def simple_display_def hyphenated_def)
qed

definition simple_cache :: audio_cache where
  "simple_cache = cache_new ''c''"

definition simple_audio :: audio_source where
  "simple_audio = session_source simple_protocol simple_env (session_new simple_connection)"

definition simple_record :: achievement_record where
  "simple_record = \<lparr>achievement_id = [0, 1, 2, 3, 4, 5, 6, 7, 8, 9, 10, 11, 12, 13, 14, 15],
     audio_hash = Some [0xab]\<rparr>"

definition simple_path :: path where
  "simple_path = ''c/00010203-0405-0607-0809-0a0b0c0d0e0f_ab.mp3''"

definition stale_world :: world where
  "stale_world = fresh_world\<lparr>files := [(''c/old.mp3'', [9]), (''c/a.0.download'', []), (''c/b'', [7])]\<rparr>"

lemma simple_audio_source: "audio_source_of simple_protocol simple_env simple_audio"
  by (auto simp: audio_source_of_def simple_audio_def)

lemma simple_path_for: "path_for simple_display simple_cache simple_record = Some simple_path"
  by (simp add: path_for_def simple_display_def simple_cache_def cache_new_def simple_record_def
      simple_path_def hyphenated_def hex_def hex_digit_def path_join_def)

lemma simple_temp_path:
  "temp_path simple_display simple_cache (achievement_id simple_record) 0 =
     ''c/00010203-0405-0607-0809-0a0b0c0d0e0f.0.download''"
  by (simp add: temp_path_def simple_display_def simple_cache_def cache_new_def simple_record_def
      hyphenated_def hex_def hex_digit_def path_join_def show_nat.simps digit_def char_of_def bit_0)

lemma simple_cache_base [simp]: "base_path simple_cache = ''c''"
  by (simp add: simple_cache_def cache_new_def)

lemma simple_ensure:
  "ensure simple_display simple_env simple_cache simple_audio simple_record fresh_world =
     (Done (Inr (Some simple_path)), fresh_world\<lparr>clock := 6, temp_counter := 1,
        files := [(simple_path, [1, 2, 3])],
        history := [Fs (TryExists simple_path) None, Fs (CreateDirAll ''c'') None,
          Wrote 0 \<lparr>message_type = 6, payload = achievement_id simple_record\<rparr> None,
          Read 0 16777216 (Inr \<lparr>message_type = 21, payload = [1, 2, 3]\<rparr>),
          Fs (FsWrite ''c/00010203-0405-0607-0809-0a0b0c0d0e0f.0.download'' [1, 2, 3]) None,
          Fs (Rename ''c/00010203-0405-0607-0809-0a0b0c0d0e0f.0.download'' simple_path) None]\<rparr>)"
  by (simp add: ensure_def ensure_inner_def simple_path_for store_def simple_temp_path Let_def
      fetch_add_def fs_try_exists_def io_files_def fs_perform_def simple_audio_def session_source_def
      session_retrieve_audio_def session_new_def simple_connection_def
      network_defs runtime_defs simple_defs)

lemma simple_silent: "path_for simple_display simple_cache (simple_record\<lparr>audio_hash := None\<rparr>) = None"
  by (simp add: path_for_def)

lemma simple_path_new:
  "simple_path \<noteq> ''c/old.mp3''" "simple_path \<noteq> ''c/b''"
  by (simp_all add: simple_path_def)

lemma simple_sync:
  "fst (sync simple_protocol simple_display simple_env simple_cache simple_audio
       [simple_record, simple_record\<lparr>audio_hash := None\<rparr>] stale_world) = Done (Inr []) \<and>
   files (snd (sync simple_protocol simple_display simple_env simple_cache simple_audio
       [simple_record, simple_record\<lparr>audio_hash := None\<rparr>] stale_world)) =
     [(''c/b'', [7]), (simple_path, [1, 2, 3])]"
  by (simp add: sync_def List.map_filter_simps dir_entry_def path_join_def stale_world_def
      is_stale_audio_def is_leftover_download_def extension_def file_name_def fs_read_dir_def
      ensure_inner_def simple_path_for simple_silent simple_path_new [symmetric] simple_path_new
      store_def simple_temp_path Let_def
      fetch_add_def fs_try_exists_def io_files_def fs_perform_def simple_audio_def session_source_def
      session_retrieve_audio_def session_new_def simple_connection_def
      network_defs runtime_defs simple_defs)

theorem cache_never_torn_witness:
  "cache_inv simple_display simple_cache (delivered simple_audio)
     (files (snd (ensure simple_display simple_env simple_cache simple_audio simple_record
        fresh_world))) \<and>
   delivered simple_audio (achievement_id simple_record) [1, 2, 3]"
proof -
  have "cache_inv simple_display simple_cache (delivered simple_audio) (files fresh_world)"
    by (simp add: cache_inv_def)
  note inv = cache_never_torn [OF simple_displays simple_audio_source this, THEN conjunct1, of simple_record]
  then show ?thesis
    using simple_path_for unfolding simple_ensure cache_inv_def by simp
qed

theorem ensure_result_witness:
  "\<exists>data. delivered simple_audio (achievement_id simple_record) data \<and>
     map_of (files (snd (ensure simple_display simple_env simple_cache simple_audio simple_record
        fresh_world))) simple_path = Some data"
  using ensure_result [OF simple_displays simple_audio_source, of fresh_world simple_cache simple_record]
  by (simp add: simple_ensure)

theorem sync_result_witness:
  "map_of (files (snd (sync simple_protocol simple_display simple_env simple_cache simple_audio
       [simple_record, simple_record\<lparr>audio_hash := None\<rparr>] stale_world))) simple_path \<noteq> None"
proof -
  have "deadline stale_world = None"
    by (simp add: stale_world_def)
  note result = sync_result [OF simple_displays simple_audio_source this, of simple_cache
      "[simple_record, simple_record\<lparr>audio_hash := None\<rparr>]"]
  obtain w' where run: "sync simple_protocol simple_display simple_env simple_cache simple_audio
       [simple_record, simple_record\<lparr>audio_hash := None\<rparr>] stale_world = (Done (Inr []), w')"
    using simple_sync by (metis prod.collapse)
  show ?thesis
    using result simple_path_for unfolding run by simp
qed

theorem cache_names_witness:
  "path_for simple_display simple_cache (simple_record\<lparr>audio_hash := Some [0xac]\<rparr>) \<noteq>
     path_for simple_display simple_cache simple_record"
  using cache_names [OF simple_displays, of simple_cache simple_record
      "simple_record\<lparr>audio_hash := Some [0xac]\<rparr>"] simple_path_for
  by (auto simp: simple_record_def)

end
