(* ===== verification/Preload.thy ===== *)
theory Preload
  imports Client_Properties Audio_Cache_Properties
begin

text \<open>
  The client with the audio cache in its on-connect hook, the use both are documented for: the
  hook meets the contract of hooks, and the client with it is a state machine whose invariant
  says that a connected client has its audio on disk.
\<close>

section \<open>The cache in the on-connect hook\<close>

text \<open>
  The hook the documentation of \<open>on_connect\<close> and \<open>AudioCache\<close> describes: bring the cache in line
  with the records, over the session, and fail the attempt unless all audio is there.
\<close>

definition preload_hook ::
  "protocol \<Rightarrow> display \<Rightarrow> env \<Rightarrow> audio_cache \<Rightarrow> achievement_record list \<Rightarrow> hook" where
  "preload_hook P F E cache recs se =
     io_map (\<lambda>r. case r of
         Inl _ \<Rightarrow> Inl ''audio cache''
       | Inr skipped \<Rightarrow> if skipped = [] then Inr () else Inl ''audio missing'')
       (sync P F E cache (session_source P E se) recs)"

definition audio_ready ::
  "display \<Rightarrow> audio_cache \<Rightarrow> achievement_record list \<Rightarrow> world \<Rightarrow> bool" where
  "audio_ready F cache recs w \<longleftrightarrow>
     (\<forall>rec\<in>set recs. \<forall>p. path_for F cache rec = Some p \<longrightarrow> map_of (files w) p \<noteq> None)"

lemma emits_files [emits_intros]:
  "emits (session_event s) io_files"
  "emits (session_event s) fetch_add"
  by (simp_all add: emits_def io_files_def fetch_add_def)

lemma emits_fs_perform [emits_intros]: "emits (session_event s) (fs_perform E op)"
  by (simp add: emits_def fs_perform_def Let_def split: prod.split)

lemma emits_prune [emits_intros]: "emits (session_event s) (prune E base expected ps)"
  by (induction ps) (auto intro!: emits_intros)

lemma emits_ensure [emits_intros]:
  "(\<And>i. emits (session_event s) (provider i)) \<Longrightarrow>
     emits (session_event s) (ensure_inner F E cache provider rec)"
  unfolding ensure_inner_def store_def Let_def fs_try_exists_def
  by (auto intro!: emits_intros split: option.split)

lemma emits_sync:
  assumes "\<And>i. emits (session_event s) (provider i)"
  shows "emits (session_event s) (sync P F E cache provider recs)"
proof -
  have "emits (session_event s) (sync_records P F E cache provider skipped recs)" for skipped
    using assms
    by (induction recs arbitrary: skipped)
       (auto intro!: emits_intros split: sum.split audio_cache_error.split request_error.split)
  then show ?thesis
    unfolding sync_def Let_def fs_read_dir_def by (intro emits_intros)
qed

lemma serves_offline:
  assumes "tame m" and "emits (\<lambda>e. event_stream e = None) m"
  shows "serves s m"
  using offline_run [OF assms] unfolding serves_def by metis

lemma serves_fs [serves_intros]:
  "serves s io_files"
  "serves s fetch_add"
  "serves s (fs_perform E op)"
  by (auto intro!: serves_offline tame_intros
      simp: emits_def io_files_def fetch_add_def fs_perform_def Let_def split: prod.split)

lemma serves_prune [serves_intros]: "serves s (prune E base expected ps)"
  by (induction ps) (auto intro!: serves_intros)

lemma serves_ensure [serves_intros]:
  "(\<And>i. serves s (provider i)) \<Longrightarrow> serves s (ensure_inner F E cache provider rec)"
  unfolding ensure_inner_def store_def Let_def fs_try_exists_def
  by (auto intro!: serves_intros split: option.split)

lemma serves_sync:
  assumes "\<And>i. serves s (provider i)"
  shows "serves s (sync P F E cache provider recs)"
proof -
  have "serves s (sync_records P F E cache provider skipped recs)" for skipped
    using assms
    by (induction recs arbitrary: skipped)
       (auto intro!: serves_intros split: sum.split audio_cache_error.split request_error.split)
  then show ?thesis
    unfolding sync_def Let_def fs_read_dir_def by (intro serves_intros)
qed

lemma preload_hook_ok: "hook_ok (preload_hook P F E cache recs)"
proof -
  have "emits (session_event (conn_stream (session_connection se))) (session_source P E se i)" for se i
    unfolding session_source_def session_retrieve_audio_def
    by (auto intro!: emits_intros split: sum.split)
  moreover have "serves (conn_stream (session_connection se)) (session_source P E se i)" for se i
    unfolding session_source_def by (rule serves_requests)
  ultimately show ?thesis
    unfolding hook_ok_def preload_hook_def
    by (intro allI conjI tame_map session_audio.tame_sync emits_map emits_sync serves_map serves_sync) auto
qed

lemma preload_hook_done:
  assumes "preload_hook P F E cache recs se w = (Done (Inr ()), w')"
  shows "sync P F E cache (session_source P E se) recs w = (Done (Inr []), w')"
proof -
  obtain r where r: "sync P F E cache (session_source P E se) recs w = (Done r, w')"
    and "Inr () = (case r of Inl _ \<Rightarrow> Inl ''audio cache''
      | Inr skipped \<Rightarrow> if skipped = [] then Inr () else Inl ''audio missing'')"
    using assms by (auto simp: preload_hook_def io_map_eq_Done)
  then have "r = Inr []"
    by (cases r) (auto split: if_splits)
  with r show ?thesis
    by simp
qed

lemma preload_hook_ready:
  assumes "displays F" and "timeout d (preload_hook P F E cache recs se) w = (Done (Inr (Inr ())), w')"
  shows "audio_ready F cache recs w'"
proof -
  from assms(2) obtain v v' where "sync P F E cache (session_source P E se) recs v = (Done (Inr []), v')"
    and "files w' = files v'"
    by (rule timeout_Inr) (auto dest: preload_hook_done)
  with session_audio.sync_done(3) [OF assms(1) this(1)] show ?thesis
    by (auto simp: audio_ready_def)
qed

lemma keeps_quit [keeps_intros]: "keeps_files (quit P E c)" "keeps_files (ping P E c)"
  unfolding quit_def ping_def by (auto intro!: keeps_intros split: sum.split)

lemma keeps_handle_command: "keeps_files (handle_command P E cmd t)"
  by (cases cmd)
     (auto simp: handle_configure_def handle_shutdown_def quit_connection_def handle_request_def
        drop_connection_def intro!: keeps_intros split: option.split sum.split)

lemma keeps_connected_tick:
  "connection t \<noteq> None \<Longrightarrow> keeps_files (handle_tick P E t)"
  by (auto simp: handle_tick_def drop_connection_def intro!: keeps_intros split: option.split sum.split)

lemma handle_command_connection:
  assumes "handle_command P E cmd t w = (Done t', w')"
  shows "connection t' \<noteq> None \<longrightarrow> connection t \<noteq> None"
  using assms
  by (cases cmd)
     (auto simp: io_simps dest!: handle_configure_state handle_request_state handle_shutdown_state
        split: if_splits)

text \<open>The client built with the hook, and what every step of it keeps.\<close>

definition preloading_init ::
  "protocol \<Rightarrow> display \<Rightarrow> env \<Rightarrow> audio_cache \<Rightarrow> achievement_record list \<Rightarrow> system \<Rightarrow> bool" where
  "preloading_init P F E cache recs s \<longleftrightarrow>
     (\<exists>b w. deadline w = None \<and> history w = [] \<and>
        s = spawn (builder_task (set_on_connect (preload_hook P F E cache recs) b)) w)"

definition preloaded ::
  "protocol \<Rightarrow> display \<Rightarrow> env \<Rightarrow> audio_cache \<Rightarrow> achievement_record list \<Rightarrow> system \<Rightarrow> bool" where
  "preloaded P F E cache recs s \<longleftrightarrow> system_inv s \<and>
     on_connect (task s) = Some (preload_hook P F E cache recs) \<and>
     (connection (task s) \<noteq> None \<longrightarrow> audio_ready F cache recs (world s))"

lemma audio_ready_files: "files w' = files w \<Longrightarrow> audio_ready F cache recs w' = audio_ready F cache recs w"
  by (simp add: audio_ready_def)

lemma tick_ready:
  assumes "displays F" and "on_connect t = Some (preload_hook P F E cache recs)"
    and "connection t \<noteq> None \<longrightarrow> audio_ready F cache recs w"
    and "handle_tick P E t w = (Done t', w')" and "connection t' \<noteq> None"
  shows "audio_ready F cache recs w'"
proof (cases "connection t")
  case (Some c)
  then show ?thesis
    using audio_ready_files [OF keeps_filesD(1) [OF keeps_connected_tick assms(4)]] assms(3) by simp
next
  case None
  with handle_tick_state [OF assms(4)] assms(5) have "try_connect P E t w = (Done t', w')"
    by auto
  moreover obtain c where "connection t' = Some c"
    using assms(5) by blast
  ultimately show ?thesis
    using connected_hook_ran [OF _ None _ assms(2)] preload_hook_ready [OF assms(1)]
      audio_ready_files by blast
qed

lemma preloaded_step:
  assumes F: "displays F" and inv: "preloaded P F E cache recs s" and step: "client_step P E s s'"
  shows "preloaded P F E cache recs s'"
proof -
  have "system_inv s'"
    using inv client_system.step_inv [OF _ step] by (simp add: preloaded_def)
  moreover have "on_connect (task s') = Some (preload_hook P F E cache recs) \<and>
      (connection (task s') \<noteq> None \<longrightarrow> audio_ready F cache recs (world s'))"
    using step
  proof cases
    case (recv cmd rest t w)
    with inv handlers_keep_hooks(1) [OF recv(4)] handle_command_connection [OF recv(4)]
      audio_ready_files [OF keeps_filesD(1) [OF keeps_handle_command recv(4)]] show ?thesis
      by (auto simp: preloaded_def)
  next
    case (tick t w)
    with inv handlers_keep_hooks(2) [OF tick(3)] tick_ready [OF F _ _ tick(3), of cache recs] show ?thesis
      by (auto simp: preloaded_def)
  next
    case (stop t w)
    with inv handlers_keep_hooks(3) [OF stop(5)] wind_down_state(1) [OF stop(5)] show ?thesis
      by (auto simp: preloaded_def)
  qed (use inv in \<open>auto simp: preloaded_def audio_ready_def\<close>)
  ultimately show ?thesis
    by (simp add: preloaded_def)
qed

lemma preloading_init_inv:
  assumes "preloading_init P F E cache recs s"
  shows "preloaded P F E cache recs s"
proof -
  from assms obtain b w where s: "s = spawn (builder_task (set_on_connect (preload_hook P F E cache recs) b)) w"
    and "deadline w = None" "history w = []"
    by (auto simp: preloading_init_def)
  then have "client_init s"
    unfolding client_init_def
    by (intro exI [of _ "set_on_connect (preload_hook P F E cache recs) b"] exI [of _ w])
       (auto simp: hooks_ok_def builder_task_def set_on_connect_def preload_hook_ok)
  then show ?thesis
    using client_system.init_inv by (auto simp: preloaded_def s spawn_def builder_task_def set_on_connect_def)
qed

lemma preloading_system:
  "displays F \<Longrightarrow> invariant_system (preloading_init P F E cache recs) (client_step P E)
     (preloaded P F E cache recs)"
  by unfold_locales (erule preloading_init_inv, rule preloaded_step)

abbreviation simple_preload :: hook where
  "simple_preload \<equiv> preload_hook simple_protocol simple_display simple_env simple_cache [simple_record]"

lemma simple_preload_tick:
  "\<exists>t w. handle_tick simple_protocol simple_env
       (builder_task (set_on_connect simple_preload simple_builder)) fresh_world = (Done t, w) \<and>
     status t = Connected {PreloadCheckCapability}"
  by (simp add: handle_tick_def try_connect_def run_hook_def preload_hook_def set_status_def
      builder_task_def set_on_connect_def simple_builder_def set_config_def builder_new_def
      sync_def List.map_filter_simps dir_entry_def path_join_def fs_read_dir_def
      ensure_inner_def simple_path_for store_def simple_temp_path Let_def
      fetch_add_def fs_try_exists_def io_files_def fs_perform_def session_source_def
      session_retrieve_audio_def session_new_def initial_status_def
      network_defs runtime_defs simple_defs)

end
