(* ===== verification/Nfc_Reader.thy ===== *)
theory Nfc_Reader
  imports Protocol
begin

text \<open>
  \<open>src/nfc/mod.rs\<close>: the handle to an NFC reader backend. A request carries the response channel
  it is answered on, named by a number here. A call of the handle is determined by whether its
  request could be sent and by what arrived on its response channel (\<open>None\<close> when the sender was
  dropped).
\<close>

datatype nfc_reader_error = Disconnected | Read string

datatype nfc_reader_request =
    WaitForCard nat
  | WaitForRemoval nat
  | ReadNdefText nat

definition channel_capacity :: nat where
  "channel_capacity = 4"

definition roundtrip :: "bool \<Rightarrow> 'a option \<Rightarrow> nfc_reader_error + 'a" where
  "roundtrip sent response =
     (if \<not> sent then Inl Disconnected
      else case response of None \<Rightarrow> Inl Disconnected | Some x \<Rightarrow> Inr x)"

definition wait_for_card :: "bool \<Rightarrow> nfc_uid option \<Rightarrow> nfc_reader_error + nfc_uid" where
  "wait_for_card sent response = roundtrip sent response"

definition wait_for_removal :: "bool \<Rightarrow> unit option \<Rightarrow> nfc_reader_error + unit" where
  "wait_for_removal sent response = roundtrip sent response"

definition read_ndef_text :: "bool \<Rightarrow> (string + bytes) option \<Rightarrow> nfc_reader_error + bytes" where
  "read_ndef_text sent response = and_then (roundtrip sent response) (map_err Read)"

text \<open>
  The reader's handle tells a lost backend from an unreadable tag. A call returns a value
  exactly when its request was sent and answered with one; it reports \<open>Disconnected\<close> exactly
  when the request could not be sent or its response channel was dropped unanswered; and only
  reading a tag can report \<open>Read\<close>, with the reason the backend gave.
\<close>

lemma reader_results:
  "(wait_for_card sent present = Inr uid \<longleftrightarrow> sent \<and> present = Some uid) \<and>
   (wait_for_card sent present = Inl Disconnected \<longleftrightarrow> \<not> sent \<or> present = None) \<and>
   wait_for_card sent present \<noteq> Inl (Read reason) \<and>
   (wait_for_removal sent gone = Inr () \<longleftrightarrow> sent \<and> gone = Some ()) \<and>
   (wait_for_removal sent gone = Inl Disconnected \<longleftrightarrow> \<not> sent \<or> gone = None) \<and>
   (read_ndef_text sent answer = Inr text \<longleftrightarrow> sent \<and> answer = Some (Inr text)) \<and>
   (read_ndef_text sent answer = Inl (Read reason) \<longleftrightarrow> sent \<and> answer = Some (Inl reason)) \<and>
   (read_ndef_text sent answer = Inl Disconnected \<longleftrightarrow> \<not> sent \<or> answer = None)"
  by (auto simp: wait_for_card_def wait_for_removal_def read_ndef_text_def roundtrip_def
      and_then_def map_err_def split: option.splits sum.splits)

end
