(* ===== verification/Ndef.thy ===== *)
theory Ndef
  imports Prelude
begin

text \<open>
  \<open>src/nfc/ndef.rs\<close>, first part: the incremental parser that extracts an NDEF message from a
  tag's TLV stream. The parser's length field is an \<open>i32\<close>, a 32-bit word here, with the marks -1
  and -2; \<open>data.len() as i32\<close> truncates to it.
\<close>

unbundle bit_operations_syntax

type_synonym i32 = "32 word"

section \<open>The message parser\<close>

datatype state = Init | Length | Value

record ndef_message_parser =
  parser_state :: state
  parser_length :: i32
  parser_data :: bytes

definition parser_new :: ndef_message_parser where
  "parser_new = \<lparr>parser_state = Init, parser_length = -1, parser_data = []\<rparr>"

definition is_done :: "ndef_message_parser \<Rightarrow> bool" where
  "is_done p \<longleftrightarrow> word_of_nat (length (parser_data p)) = parser_length p"

definition has_started :: "ndef_message_parser \<Rightarrow> bool" where
  "has_started p \<longleftrightarrow> parser_state p \<noteq> Init"

text \<open>
  The loop of \<open>add_data\<close> over the bytes of a chunk; the return in the middle drops the rest of
  the chunk.
\<close>

fun add_data :: "ndef_message_parser \<Rightarrow> bytes \<Rightarrow> ndef_message_parser" where
  "add_data p [] = p"
| "add_data p (byte # rest) =
     (case parser_state p of
        Init \<Rightarrow>
          if byte = 0x00 then add_data p rest
          else if byte = 0x03 then add_data (p\<lparr>parser_state := Length\<rparr>) rest
          else add_data p rest
      | Length \<Rightarrow>
          if parser_length p = -1 then
            if byte = 0xff then add_data (p\<lparr>parser_length := -2\<rparr>) rest
            else add_data (p\<lparr>parser_length := ucast byte, parser_state := Value\<rparr>) rest
          else if parser_length p = -2 then add_data (p\<lparr>parser_length := ucast byte\<rparr>) rest
          else add_data (p\<lparr>parser_length := push_bit 8 (parser_length p) OR ucast byte,
                           parser_state := Value\<rparr>) rest
      | Value \<Rightarrow>
          (let p = p\<lparr>parser_data := parser_data p @ [byte]\<rparr> in
           if word_of_nat (length (parser_data p)) = parser_length p then p
           else add_data p rest))"

text \<open>Feeding chunk after chunk until the parser is done, as its documentation prescribes.\<close>

fun feed :: "ndef_message_parser \<Rightarrow> bytes list \<Rightarrow> ndef_message_parser" where
  "feed p [] = p"
| "feed p (chunk # chunks) =
     (let p = add_data p chunk in if is_done p then p else feed p chunks)"

section \<open>The length field\<close>

lemma unat_u8_as_i32 [simp]: "unat (ucast (b :: u8) :: i32) = unat b"
proof -
  have "unat b < 2 ^ 32"
    by (rule less_trans [OF unat_u8_less]) simp
  then show ?thesis
    by (simp only: unsigned_ucast_eq) (simp add: take_bit_nat_eq_self)
qed

lemma length_bytes:
  fixes n :: i32 and b :: u8
  assumes "unat n < 256"
  shows "unat (push_bit 8 n OR ucast b) = 256 * unat n + unat b"
proof -
  have "push_bit 8 n OR ucast b = push_bit 8 n + (ucast b :: i32)"
    by (rule disjunctive_add [symmetric]) (auto simp: bit_simps dest: bit_imp_le_length)
  moreover have "unat (push_bit 8 n) = 256 * unat n"
    using assms by (simp add: push_bit_eq_mult unat_word_ariths)
  moreover have "256 * unat n + unat b < 4294967296"
    using assms unat_u8_less [of b] by linarith
  ultimately show ?thesis
    by (simp add: unat_word_ariths)
qed

text \<open>What the parser's fields can be in each state.\<close>

definition parser_inv :: "ndef_message_parser \<Rightarrow> bool" where
  "parser_inv p \<longleftrightarrow>
     (case parser_state p of
        Init \<Rightarrow> parser_length p = -1 \<and> parser_data p = []
      | Length \<Rightarrow> (parser_length p = -1 \<or> parser_length p = -2 \<or> unat (parser_length p) < 256) \<and>
                  parser_data p = []
      | Value \<Rightarrow> unat (parser_length p) < 65536)"

lemma parser_inv_new [simp]: "parser_inv parser_new"
  by (simp add: parser_inv_def parser_new_def)

lemma parser_inv_add_data: "parser_inv p \<Longrightarrow> parser_inv (add_data p bs)"
proof (induction p bs rule: add_data.induct)
  case (2 p byte rest)
  have "unat (parser_length p) < 256 \<Longrightarrow>
      unat (push_bit 8 (parser_length p) OR ucast byte :: i32) < 65536"
    using length_bytes [of "parser_length p" byte] unat_u8_less [of byte] by linarith
  with 2 less_trans [OF unat_u8_less [of byte], of 65536] show ?case
    by (cases "parser_state p") (auto simp: parser_inv_def Let_def)
qed simp

text \<open>
  C38: Whatever bytes a tag sends, in whatever chunks, the parser's 32-bit length stays in
  range: it is one of the two marks or below 65536, never negative otherwise and never
  overflown by the shift, and no message byte is taken before the length is complete.
\<close>

theorem parser_length_in_range:
  "parser_inv (foldl add_data parser_new chunks)"
  by (induction chunks rule: rev_induct) (simp_all add: parser_inv_add_data)

text \<open>A chunk that does not complete the message can be joined with the next one.\<close>

lemma add_data_append:
  "\<not> is_done (add_data p xs) \<Longrightarrow> add_data p (xs @ ys) = add_data (add_data p xs) ys"
  by (induction p xs rule: add_data.induct)
     (auto simp: Let_def is_done_def split: state.splits if_splits)


section \<open>Extracting a message\<close>

text \<open>The TLV a tag carries an NDEF message in: type 3, one or three length bytes, the message.\<close>

definition tlv_header :: "nat \<Rightarrow> bytes" where
  "tlv_header n =
     (if n < 255 then [0x03, word_of_nat n]
      else [0x03, 0xff, word_of_nat (n div 256), word_of_nat (n mod 256)])"

lemma skips_padding: "list_all (\<lambda>b. b \<noteq> 3) xs \<Longrightarrow> add_data parser_new (xs @ ys) = add_data parser_new ys"
  by (induction xs) (auto simp: parser_new_def)

definition collecting :: "nat \<Rightarrow> bytes \<Rightarrow> ndef_message_parser" where
  "collecting n d = \<lparr>parser_state = Value, parser_length = word_of_nat n, parser_data = d\<rparr>"

lemma unat_small: "n < 65536 \<Longrightarrow> unat (word_of_nat n :: i32) = n"
  by (simp add: unat_of_nat take_bit_nat_eq_self)

lemma word_small: "m < 65536 \<Longrightarrow> n < 65536 \<Longrightarrow> (word_of_nat m :: i32) = word_of_nat n \<longleftrightarrow> m = n"
  by (metis unat_small)

lemma is_done_collecting:
  "n < 65536 \<Longrightarrow> length d < 65536 \<Longrightarrow> is_done (collecting n d) \<longleftrightarrow> length d = n"
  by (simp add: is_done_def collecting_def word_small)

lemma collect_part:
  "length d + length xs < n \<Longrightarrow> n < 65536 \<Longrightarrow>
     add_data (collecting n d) (xs @ ys) = add_data (collecting n (d @ xs)) ys"
proof (induction xs arbitrary: d)
  case (Cons x xs)
  then show ?case
    using word_small [of "Suc (length d)" n] by (auto simp: collecting_def Let_def)
qed simp

lemma collect_all:
  assumes "length d < n" and "length d + length xs = n" and "n < 65536"
  shows "add_data (collecting n d) (xs @ rest) = collecting n (d @ xs)"
proof -
  obtain ys y where xs: "xs = ys @ [y]"
    using assms by (cases xs rule: rev_cases) auto
  with assms have "add_data (collecting n d) (xs @ rest) = add_data (collecting n (d @ ys)) (y # rest)"
    using collect_part [of d ys n "y # rest"] by simp
  also have "\<dots> = collecting n (d @ xs)"
    using assms xs by (simp add: collecting_def)
  finally show ?thesis .
qed

lemma unat_u8_small: "n < 256 \<Longrightarrow> unat (word_of_nat n :: u8) = n"
  by (simp add: unat_of_nat take_bit_nat_eq_self)

lemma u8_as_i32_small: "n < 256 \<Longrightarrow> (ucast (word_of_nat n :: u8) :: i32) = word_of_nat n"
  by (simp add: word_unat_eq_iff unat_u8_small unat_small)

lemma unat_marks: "unat (-1 :: i32) = 4294967295" "unat (-2 :: i32) = 4294967294"
proof -
  have "(-1 :: i32) = 4294967295" "(-2 :: i32) = 4294967294"
    by simp_all
  then show "unat (-1 :: i32) = 4294967295" "unat (-2 :: i32) = 4294967294"
    by (simp_all only: unat_numeral) simp_all
qed

lemma header_starts:
  assumes "n < 65536"
  shows "add_data parser_new (tlv_header n @ xs) = add_data (collecting n []) xs"
proof (cases "n < 255")
  case True
  then have "(word_of_nat n :: u8) \<noteq> 255"
    by (simp add: word_unat_eq_iff unat_u8_small)
  with True show ?thesis
    by (simp add: tlv_header_def parser_new_def collecting_def u8_as_i32_small)
next
  case False
  have hi: "n div 256 < 256"
    using assms by simp
  have "push_bit 8 (word_of_nat (n div 256)) OR ucast (word_of_nat (n mod 256) :: u8) = (word_of_nat n :: i32)"
    using hi assms length_bytes [of "word_of_nat (n div 256)" "word_of_nat (n mod 256)"]
    by (simp add: word_unat_eq_iff unat_u8_small unat_small)
  moreover have "(word_of_nat (n div 256) :: i32) \<noteq> -1" "(word_of_nat (n div 256) :: i32) \<noteq> -2"
    using hi by (simp_all add: word_unat_eq_iff unat_small unat_marks)
  ultimately show ?thesis
    using False hi by (simp add: tlv_header_def parser_new_def collecting_def u8_as_i32_small)
qed

text \<open>Where the parser stands after a part of the stream that stops short of the message's end.\<close>

lemma not_done_early:
  assumes pad: "list_all (\<lambda>b. b \<noteq> 3) pad" and len: "0 < length m" "length m \<noteq> 255" "length m < 65536"
    and part: "strict_prefix xs (pad @ tlv_header (length m) @ m)"
  shows "\<not> is_done (add_data parser_new xs)"
proof -
  consider "prefix xs pad" | us where "xs = pad @ us" "prefix us (tlv_header (length m))"
    | vs where "xs = pad @ tlv_header (length m) @ vs" "strict_prefix vs m"
    using part by (auto simp: strict_prefix_def prefix_append)
  then show ?thesis
  proof cases
    case 1
    then have "list_all (\<lambda>b. b \<noteq> 3) xs"
      using pad by (auto simp: prefix_def)
    with skips_padding [of xs "[]"] show ?thesis
      by (simp add: is_done_def parser_new_def)
  next
    case 2
    show ?thesis
    proof (cases "length m < 255")
      case True
      then have "(word_of_nat (length m) :: i32) \<noteq> 0" "(word_of_nat (length m) :: u8) \<noteq> 255"
        using len by (simp_all add: word_unat_eq_iff unat_small unat_u8_small)
      with True 2 skips_padding [OF pad, of us] show ?thesis
        by (auto simp: tlv_header_def prefix_Cons is_done_def parser_new_def u8_as_i32_small)
    next
      case False
      have hi: "length m div 256 < 256" "length m div 256 \<noteq> 0"
        using len False by auto
      then have "(word_of_nat (length m div 256) :: i32) \<noteq> 0"
        by (simp add: word_unat_eq_iff unat_small)
      moreover have "us = tlv_header (length m) \<or> us \<in> {[], [3], [3, 255], [3, 255, word_of_nat (length m div 256)]}"
        using 2(2) False by (auto simp: tlv_header_def prefix_Cons)
      moreover have "\<not> is_done (add_data parser_new (tlv_header (length m)))"
        using header_starts [OF len(3), of "[]"] is_done_collecting [OF len(3), of "[]"] len by simp
      ultimately show ?thesis
        using 2(1) skips_padding [OF pad, of us] hi
        by (auto simp: is_done_def parser_new_def u8_as_i32_small)
    qed
  next
    case 3
    then have "length vs < length m"
      by (simp add: prefix_length_less)
    with 3 len skips_padding [OF pad] header_starts [OF len(3)] collect_part [of "[]" vs "length m" "[]"]
    show ?thesis
      by (simp add: is_done_collecting)
  qed
qed

lemma done_late:
  assumes "list_all (\<lambda>b. b \<noteq> 3) pad" and "0 < length m" and "length m < 65536"
  shows "add_data parser_new (pad @ tlv_header (length m) @ m @ rest) = collecting (length m) m"
  using assms collect_all [of "[]" "length m" m rest] by (simp add: skips_padding header_starts)

lemma done_at_end: "length m < 65536 \<Longrightarrow> is_done (collecting (length m) m)"
  by (simp add: is_done_collecting)

lemma feed_from:
  assumes pad: "list_all (\<lambda>b. b \<noteq> 3) pad"
    and len: "0 < length m" "length m \<noteq> 255" "length m < 65536"
    and "strict_prefix xs (pad @ tlv_header (length m) @ m)"
    and "xs @ concat chunks = (pad @ tlv_header (length m) @ m) @ rest"
  shows "feed (add_data parser_new xs) chunks = collecting (length m) m"
  using assms(5,6)
proof (induction chunks arbitrary: xs)
  case Nil
  then show ?case
    by (metis append_Nil2 concat.simps(1) prefix_order.less_le_not_le prefixI)
next
  case (Cons chunk chunks)
  let ?S = "pad @ tlv_header (length m) @ m"
  have join: "add_data (add_data parser_new xs) chunk = add_data parser_new (xs @ chunk)"
    using add_data_append [OF not_done_early [OF pad len Cons.prems(1)]] by simp
  show ?case
  proof (cases "strict_prefix (xs @ chunk) ?S")
    case True
    from not_done_early [OF pad len True] Cons.IH [OF True] Cons.prems(2) join show ?thesis
      by (simp add: Let_def)
  next
    case False
    have "prefix (xs @ chunk) (?S @ rest)"
      using Cons.prems(2) by (metis append.assoc concat.simps(2) prefixI)
    with False obtain tail where "xs @ chunk = ?S @ tail"
      by (metis prefix_append prefix_order.less_le append_Nil2)
    with join done_late [OF pad len(1,3), of tail] done_at_end [OF len(3)] show ?thesis
      by (simp add: Let_def)
  qed
qed

lemma feed_extracts:
  assumes "list_all (\<lambda>b. b \<noteq> 3) pad" and "0 < length m" "length m \<noteq> 255" "length m < 65536"
    and "concat chunks = pad @ tlv_header (length m) @ m @ rest"
  shows "feed parser_new chunks = collecting (length m) m"
proof -
  have "strict_prefix [] (pad @ tlv_header (length m) @ m)"
    using assms(2) by (auto simp: strict_prefix_def)
  from feed_from [OF assms(1-4) this] assms(5) show ?thesis
    by simp
qed

text \<open>
  C11: A message is extracted whatever the chunks. A tag's stream of padding, an NDEF message of
  1 to 65535 bytes (other than 255) in its TLV, and anything after it, cut into chunks in any
  way: feeding the chunks until the parser is done ends with the parser done and holding exactly
  the message.
\<close>

theorem message_extracted:
  assumes "list_all (\<lambda>b. b \<noteq> 3) pad" and "0 < length m" "length m \<noteq> 255" "length m < 65536"
    and "concat chunks = pad @ tlv_header (length m) @ m @ rest"
  shows "is_done (feed parser_new chunks) \<and> parser_data (feed parser_new chunks) = m"
  using feed_extracts [OF assms] done_at_end [OF assms(4)] by (simp add: collecting_def)

theorem message_extracted_witness:
  "parser_data (feed parser_new [[0, 0, 3, 2], [7], [9, 0xfe]]) = [7, 9]"
  using message_extracted [of "[0, 0]" "[7, 9]" "[[0, 0, 3, 2], [7], [9, 0xfe]]" "[0xfe]"]
  by (simp add: tlv_header_def)

text \<open>
  The length left out above: a message of 255 bytes has a zero between its length bytes, and a
  chunk that ends there leaves the parser claiming to be done with nothing extracted.
\<close>

lemma split_length_done_early:
  "is_done (feed parser_new [[0x03, 0xff, 0x00], [0xff] @ m]) \<and>
   parser_data (feed parser_new [[0x03, 0xff, 0x00], [0xff] @ m]) = []"
  by (simp add: parser_new_def is_done_def)

text \<open>
  An empty message is complete once its length was read, but if the chunk goes on, the parser
  takes the bytes after it for the message and never is done.
\<close>

lemma empty_message_overrun:
  assumes "0 < length rest" and "length rest < 65536"
  shows "\<not> is_done (add_data parser_new ([0x03, 0x00] @ rest)) \<and>
    parser_data (add_data parser_new ([0x03, 0x00] @ rest)) = rest"
proof -
  have run: "add_data (collecting 0 d) xs = collecting 0 (d @ xs)"
    if "length d + length xs < 65536" for d xs
    using that
  proof (induction xs arbitrary: d)
    case (Cons x xs)
    then show ?case
      using word_small [of "Suc (length d)" 0] by (auto simp: collecting_def Let_def)
  qed simp
  have "add_data parser_new ([0x03, 0x00] @ rest) = collecting 0 rest"
    using header_starts [of 0 rest] run [of "[]" rest] assms by (simp add: tlv_header_def)
  then show ?thesis
    using assms is_done_collecting [of 0 rest] by (simp add: collecting_def)
qed

text \<open>
  Other TLVs before the message are not skipped but searched for a byte 3: the length byte of a
  Lock Control TLV (type 1, length 3), which tags are shipped with, is taken for the start of
  the message, and the byte after it for its length.
\<close>

lemma lock_control_misread:
  "add_data parser_new [0x01, 0x03, 0xa0, 0x0c, 0x34, 0x03, 0x02, 7, 9, 0xfe] =
     collecting 160 [0x0c, 0x34, 0x03, 0x02, 7, 9, 0xfe]"
  by (simp add: parser_new_def collecting_def)

end
