(* ===== verification/Ndef_Text.thy ===== *)
theory Ndef_Text
  imports Prelude
begin

text \<open>
  \<open>src/nfc/ndef.rs\<close>, second part: the parser of an NDEF text record and the text in it.
  Indexing and slicing are the panicking operations of the prelude.
\<close>

unbundle bit_operations_syntax

section \<open>The text record\<close>

datatype ndef_error =
    Truncated string
  | Chunked
  | NotWellKnown
  | NotTextRecord
  | InvalidUtf8

record ndef_text_record =
  record_value :: bytes

text \<open>
  \<open>String::from_utf8\<close>: a string is its UTF-8 encoding, and the byte sequences that are one are
  those of the table of well-formed sequences in the Unicode standard.
\<close>

definition between :: "u8 \<Rightarrow> u8 \<Rightarrow> u8 \<Rightarrow> bool" where
  "between lo hi b \<longleftrightarrow> lo \<le> b \<and> b \<le> hi"

fun utf8_valid :: "bytes \<Rightarrow> bool" where
  "utf8_valid [] = True"
| "utf8_valid (a # rest) =
     (if a \<le> 0x7f then utf8_valid rest
      else case rest of
        [] \<Rightarrow> False
      | b # rest2 \<Rightarrow>
          if between 0xc2 0xdf a then between 0x80 0xbf b \<and> utf8_valid rest2
          else case rest2 of
            [] \<Rightarrow> False
          | c # rest3 \<Rightarrow>
              if between 0xe0 0xef a then
                (if a = 0xe0 then between 0xa0 0xbf b
                 else if a = 0xed then between 0x80 0x9f b
                 else between 0x80 0xbf b) \<and> between 0x80 0xbf c \<and> utf8_valid rest3
              else case rest3 of
                [] \<Rightarrow> False
              | d # rest4 \<Rightarrow>
                  between 0xf0 0xf4 a \<and>
                  (if a = 0xf0 then between 0x90 0xbf b
                   else if a = 0xf4 then between 0x80 0x8f b
                   else between 0x80 0xbf b) \<and>
                  between 0x80 0xbf c \<and> between 0x80 0xbf d \<and> utf8_valid rest4)"

definition from_utf8 :: "bytes \<Rightarrow> ndef_error + bytes" where
  "from_utf8 bs = (if utf8_valid bs then Inr bs else Inl InvalidUtf8)"

definition record_text :: "ndef_text_record \<Rightarrow> (ndef_error + bytes) guarded" where
  "record_text r =
     (if record_value r = [] then Ret (Inr [])
      else ret_bind (index_at (record_value r) 0) (\<lambda>status.
        let code_length = status AND 0b00111111 in
        if unat code_length + 1 \<le> length (record_value r)
        then Ret (from_utf8 (drop (unat code_length + 1) (record_value r)))
        else Ret (Inl (Truncated ''text payload''))))"

text \<open>\<open>u32::from_be_bytes\<close>.\<close>

fun u32_from_be_bytes :: "bytes \<Rightarrow> u32" where
  "u32_from_be_bytes bs = fold (\<lambda>b acc. 256 * acc + ucast b) bs 0"

text \<open>
  The parts of \<open>parse_ndef_text_record\<close>, in its order; each takes the index it starts at and
  returns its value with the index after it.
\<close>

definition parse_payload_length ::
  "bytes \<Rightarrow> bool \<Rightarrow> nat \<Rightarrow> (ndef_error + u32 \<times> nat) guarded" where
  "parse_payload_length data is_short_record index =
     (if is_short_record then
        if length data \<le> index then Ret (Inl (Truncated ''payload length''))
        else ret_bind (index_at data index) (\<lambda>b. Ret (Inr (ucast b, index + 1)))
      else
        if length data \<le> index + 3 then Ret (Inl (Truncated ''payload length''))
        else ret_bind (slice data index (index + 4)) (\<lambda>bs.
          Ret (Inr (u32_from_be_bytes bs, index + 4))))"

definition parse_id_length ::
  "bytes \<Rightarrow> bool \<Rightarrow> nat \<Rightarrow> (ndef_error + u8 \<times> nat) guarded" where
  "parse_id_length data has_id_length index =
     (if has_id_length then
        if length data \<le> index then Ret (Inl (Truncated ''ID length''))
        else ret_bind (index_at data index) (\<lambda>b. Ret (Inr (b, index + 1)))
      else Ret (Inr (0, index)))"

definition parse_payload_type ::
  "bytes \<Rightarrow> u8 \<Rightarrow> nat \<Rightarrow> (ndef_error + bytes \<times> nat) guarded" where
  "parse_payload_type data type_length index =
     (if type_length > 0 then
        if length data < index + unat type_length then Ret (Inl (Truncated ''type''))
        else ret_bind (slice data index (index + unat type_length)) (\<lambda>t.
          Ret (Inr (t, index + unat type_length)))
      else Ret (Inr ([], index)))"

definition skip_id :: "bytes \<Rightarrow> u8 \<Rightarrow> nat \<Rightarrow> (ndef_error + nat) guarded" where
  "skip_id data id_length index =
     (if id_length > 0 then
        if length data < index + unat id_length then Ret (Inl (Truncated ''ID''))
        else Ret (Inr (index + unat id_length))
      else Ret (Inr index))"

definition parse_payload :: "bytes \<Rightarrow> u32 \<Rightarrow> nat \<Rightarrow> (ndef_error + bytes) guarded" where
  "parse_payload data payload_length index =
     (if payload_length > 0 then
        if unat payload_length > length data - index then Ret (Inl (Truncated ''payload''))
        else ret_bind (slice data index (index + unat payload_length)) (\<lambda>v. Ret (Inr v))
      else Ret (Inr []))"

definition parse_ndef_text_record :: "bytes \<Rightarrow> (ndef_error + ndef_text_record) guarded" where
  "parse_ndef_text_record data =
     (if length data \<le> 0 then Ret (Inl (Truncated ''flags''))
      else ret_bind (index_at data 0) (\<lambda>flags.
        let is_chunked = (flags AND 0b00100000) \<noteq> 0;
            is_short_record = (flags AND 0b00010000) \<noteq> 0;
            has_id_length = (flags AND 0b00001000) \<noteq> 0;
            type_name_format = flags AND 0b00000111 in
        if is_chunked then Ret (Inl Chunked)
        else if length data \<le> 1 then Ret (Inl (Truncated ''type length''))
        else ret_bind (index_at data 1) (\<lambda>type_length.
          ret_try (parse_payload_length data is_short_record 2) (\<lambda>(payload_length, index).
          ret_try (parse_id_length data has_id_length index) (\<lambda>(id_length, index).
          ret_try (parse_payload_type data type_length index) (\<lambda>(payload_type, index).
          ret_try (skip_id data id_length index) (\<lambda>index.
          ret_try (parse_payload data payload_length index) (\<lambda>payload_value.
            if type_name_format \<noteq> 1 then Ret (Inl NotWellKnown)
            else if payload_type \<noteq> [0x54] then Ret (Inl NotTextRecord)
            else Ret (Inr \<lparr>record_value = payload_value\<rparr>)))))))))"

section \<open>A reference parser\<close>

text \<open>
  The same grammar read off a list from front to back: no indices, no slices, no panics.
\<close>

definition take_bytes :: "string \<Rightarrow> nat \<Rightarrow> bytes \<Rightarrow> ndef_error + bytes \<times> bytes" where
  "take_bytes name n xs =
     (if length xs < n then Inl (Truncated name) else Inr (take n xs, drop n xs))"

definition read_record_body :: "u8 \<Rightarrow> u8 \<Rightarrow> bytes \<Rightarrow> ndef_error + ndef_text_record" where
  "read_record_body flags type_length xs =
     and_then (take_bytes ''payload length'' (if (flags AND 0b00010000) \<noteq> 0 then 1 else 4) xs)
       (\<lambda>(payload_length, xs).
     and_then (take_bytes ''ID length'' (if (flags AND 0b00001000) \<noteq> 0 then 1 else 0) xs)
       (\<lambda>(id_length, xs).
     and_then (take_bytes ''type'' (unat type_length) xs) (\<lambda>(payload_type, xs).
     and_then (take_bytes ''ID'' (unat (u32_from_be_bytes id_length)) xs) (\<lambda>(_, xs).
     and_then (take_bytes ''payload'' (unat (u32_from_be_bytes payload_length)) xs)
       (\<lambda>(payload, _).
         if flags AND 0b00000111 \<noteq> 1 then Inl NotWellKnown
         else if payload_type \<noteq> [0x54] then Inl NotTextRecord
         else Inr \<lparr>record_value = payload\<rparr>)))))"

fun read_text_record :: "bytes \<Rightarrow> ndef_error + ndef_text_record" where
  "read_text_record [] = Inl (Truncated ''flags'')"
| "read_text_record (flags # xs) =
     (if (flags AND 0b00100000) \<noteq> 0 then Inl Chunked
      else case xs of
        [] \<Rightarrow> Inl (Truncated ''type length'')
      | type_length # xs \<Rightarrow> read_record_body flags type_length xs)"

lemma take_bytes_0 [simp]: "take_bytes name 0 xs = Inr ([], xs)"
  by (simp add: take_bytes_def)

lemma take_bytes_position:
  assumes "take_bytes name n (drop i data) = Inr (bs, ys)" and "i \<le> length data"
  shows "ys = drop (i + length bs) data" and "i + length bs \<le> length data" and "length bs = n"
  using assms by (auto simp: take_bytes_def add.commute split: if_splits)

lemma unat_u8_as_u32 [simp]: "unat (ucast (b :: u8) :: u32) = unat b"
proof -
  have "unat b < 2 ^ 32"
    by (rule less_trans [OF unat_u8_less]) simp
  then show ?thesis
    by (simp only: unsigned_ucast_eq) (simp add: take_bit_nat_eq_self)
qed

text \<open>Each part of the code's parser, in terms of the reference's.\<close>

lemma parse_parts:
  assumes "i \<le> length data"
  shows "parse_payload_length data short i =
      Ret (map_ok (\<lambda>(bs, _). (u32_from_be_bytes bs, i + length bs))
        (take_bytes ''payload length'' (if short then 1 else 4) (drop i data)))"
    and "parse_id_length data has_id i =
      Ret (map_ok (\<lambda>(bs, _). (if has_id then hd bs else 0, i + length bs))
        (take_bytes ''ID length'' (if has_id then 1 else 0) (drop i data)))"
    and "parse_payload_type data n i =
      Ret (map_ok (\<lambda>(bs, _). (bs, i + length bs)) (take_bytes ''type'' (unat n) (drop i data)))"
    and "skip_id data k i =
      Ret (map_ok (\<lambda>(bs, _). i + length bs) (take_bytes ''ID'' (unat k) (drop i data)))"
    and "parse_payload data l i =
      Ret (map_ok fst (take_bytes ''payload'' (unat l) (drop i data)))"
proof -
  have take1: "take (Suc 0) (drop i data) = [data ! i]" if "i < length data"
    using that by (simp add: take_Suc_conv_app_nth)
  show "parse_payload_length data short i =
      Ret (map_ok (\<lambda>(bs, _). (u32_from_be_bytes bs, i + length bs))
        (take_bytes ''payload length'' (if short then 1 else 4) (drop i data)))"
    using assms by (auto simp: parse_payload_length_def take_bytes_def take1)
  show "parse_id_length data has_id i =
      Ret (map_ok (\<lambda>(bs, _). (if has_id then hd bs else 0, i + length bs))
        (take_bytes ''ID length'' (if has_id then 1 else 0) (drop i data)))"
    using assms by (auto simp: parse_id_length_def take_bytes_def take1)
  show "parse_payload_type data n i =
      Ret (map_ok (\<lambda>(bs, _). (bs, i + length bs)) (take_bytes ''type'' (unat n) (drop i data)))"
    using assms by (auto simp: parse_payload_type_def take_bytes_def word_gt_0 unat_eq_0)
  show "skip_id data k i =
      Ret (map_ok (\<lambda>(bs, _). i + length bs) (take_bytes ''ID'' (unat k) (drop i data)))"
    using assms by (auto simp: skip_id_def take_bytes_def word_gt_0 unat_eq_0)
  show "parse_payload data l i =
      Ret (map_ok fst (take_bytes ''payload'' (unat l) (drop i data)))"
    using assms by (auto simp: parse_payload_def take_bytes_def word_gt_0 unat_eq_0)
qed


lemma parse_part_sync:
  assumes "i \<le> length data"
    and "\<And>bs. \<lbrakk>take_bytes name n (drop i data) = Inr (bs, drop (i + length bs) data);
           i + length bs \<le> length data\<rbrakk> \<Longrightarrow>
         f (g (bs, drop (i + length bs) data)) = Ret (h (bs, drop (i + length bs) data))"
  shows "ret_try (Ret (map_ok g (take_bytes name n (drop i data)))) f =
    Ret (and_then (take_bytes name n (drop i data)) h)"
proof (cases "take_bytes name n (drop i data)")
  case (Inr r)
  then obtain bs ys where r: "r = (bs, ys)"
    by fastforce
  note pos = take_bytes_position [OF Inr [unfolded r] assms(1)]
  from assms(2) [of bs] pos(2) Inr r show ?thesis
    by (simp add: pos(1))
qed simp

lemma id_length_value:
  assumes "take_bytes name (if has_id then 1 else 0) xs = Inr (bs, ys)"
  shows "unat (if has_id then hd bs else 0 :: u8) = unat (u32_from_be_bytes bs)"
  using assms by (cases xs) (auto simp: take_bytes_def split: if_splits)

lemma parse_reads: "parse_ndef_text_record data = Ret (read_text_record data)"
proof (cases "length data < 2")
  case True
  then consider "data = []" | flags where "data = [flags]"
    by (cases data; cases "tl data") auto
  then show ?thesis
    by cases (simp_all add: parse_ndef_text_record_def Let_def)
next
  case False
  then obtain flags type_length rest where data: "data = flags # type_length # rest"
    by (cases data; cases "tl data") auto
  have start: "2 \<le> length data" "rest = drop 2 data"
    by (simp_all add: data)
  show ?thesis
  proof (cases "(flags AND 0b00100000) \<noteq> 0")
    case True
    then show ?thesis
      by (simp add: data parse_ndef_text_record_def Let_def)
  next
    case False
    then have "parse_ndef_text_record data =
        ret_try (parse_payload_length data ((flags AND 0b00010000) \<noteq> 0) 2) (\<lambda>(payload_length, index).
          ret_try (parse_id_length data ((flags AND 0b00001000) \<noteq> 0) index) (\<lambda>(id_length, index).
          ret_try (parse_payload_type data type_length index) (\<lambda>(payload_type, index).
          ret_try (skip_id data id_length index) (\<lambda>index.
          ret_try (parse_payload data payload_length index) (\<lambda>payload_value.
            if flags AND 0b00000111 \<noteq> 1 then Ret (Inl NotWellKnown)
            else if payload_type \<noteq> [0x54] then Ret (Inl NotTextRecord)
            else Ret (Inr \<lparr>record_value = payload_value\<rparr>))))))"
      by (simp add: parse_ndef_text_record_def Let_def data)
    also have "\<dots> = Ret (read_record_body flags type_length (drop 2 data))"
      unfolding read_record_body_def parse_parts(1) [OF start(1)]
      apply (rule parse_part_sync [OF start(1)], simp only: prod.case parse_parts(2))
      apply (rule parse_part_sync, assumption, simp only: prod.case parse_parts(3))
      apply (rule parse_part_sync, assumption, simp only: prod.case parse_parts(4) id_length_value)
      apply (rule parse_part_sync, assumption, simp only: prod.case parse_parts(5))
      apply (rule parse_part_sync, assumption)
      apply simp
      done
    also have "\<dots> = Ret (read_text_record data)"
      using False by (simp add: data)
    finally show ?thesis .
  qed
qed

text \<open>
  C15: The text record parser is the reference parser, on every input: each index and slice it
  takes is in range, so no tag can make it panic, and it accepts and rejects exactly what the
  front-to-back reading of the record does, with the same error.
\<close>

theorem parse_is_reference: "parse_ndef_text_record data = Ret (read_text_record data)"
  by (rule parse_reads)

section \<open>The grammar of a text record\<close>

text \<open>
  A record as the NFC Forum defines it, with its type length 1 and its type \<open>T\<close> left out: the
  flags say how many bytes hold the payload's length \<open>ls\<close> and the ID's length \<open>is\<close>.
\<close>

definition is_text_record :: "u8 \<Rightarrow> bytes \<Rightarrow> bytes \<Rightarrow> bytes \<Rightarrow> bytes \<Rightarrow> bool" where
  "is_text_record flags ls is i payload \<longleftrightarrow>
     flags AND 0b00100000 = 0 \<and> flags AND 0b00000111 = 1 \<and>
     length ls = (if (flags AND 0b00010000) \<noteq> 0 then 1 else 4) \<and>
     length payload = unat (u32_from_be_bytes ls) \<and>
     length is = (if (flags AND 0b00001000) \<noteq> 0 then 1 else 0) \<and>
     length i = unat (u32_from_be_bytes is)"

lemma take_bytes_ok:
  "take_bytes name n xs = Inr (bs, ys) \<longleftrightarrow> xs = bs @ ys \<and> length bs = n"
  by (auto simp: take_bytes_def)

lemma read_record_body_ok:
  "read_record_body flags type_length xs = Inr r \<longleftrightarrow> flags AND 0b00000111 = 1 \<and> unat type_length = 1 \<and>
     (\<exists>ls is i rest. length ls = (if (flags AND 0b00010000) \<noteq> 0 then 1 else 4) \<and>
        length (record_value r) = unat (u32_from_be_bytes ls) \<and>
        length is = (if (flags AND 0b00001000) \<noteq> 0 then 1 else 0) \<and>
        length i = unat (u32_from_be_bytes is) \<and>
        xs = ls @ is @ [0x54] @ i @ record_value r @ rest)" (is "?L \<longleftrightarrow> ?R")
proof -
  have verdict: "(if f \<noteq> 1 then Inl NotWellKnown else if t \<noteq> [0x54] then Inl NotTextRecord
      else Inr \<lparr>record_value = v\<rparr>) = Inr r \<longleftrightarrow> f = 1 \<and> t = [0x54] \<and> record_value r = v"
    for f :: u8 and t :: bytes and v
    by (cases r) auto
  show ?thesis
    unfolding read_record_body_def and_then_eq_Inr split_paired_Ex prod.case take_bytes_ok verdict
    apply (intro iffI; elim exE conjE)
    subgoal for ls xs1 "is" xs2 t xs3 i xs4 payload xs5
      by (intro conjI, simp, simp, rule exI [of _ ls], rule exI [of _ "is"], rule exI [of _ i],
          rule exI [of _ xs5]) simp
    subgoal for ls "is" i rest
      by (rule exI [of _ ls], rule exI [of _ "is @ [0x54] @ i @ record_value r @ rest"], rule conjI, simp,
          rule exI [of _ "is"], rule exI [of _ "[0x54] @ i @ record_value r @ rest"], rule conjI, simp,
          rule exI [of _ "[0x54]"], rule exI [of _ "i @ record_value r @ rest"], rule conjI, simp,
          rule exI [of _ i], rule exI [of _ "record_value r @ rest"], rule conjI, simp,
          rule exI [of _ "record_value r"], rule exI [of _ rest]) simp
    done
qed

lemma text_record_read:
  "read_text_record data = Inr r \<longleftrightarrow>
     (\<exists>flags ls is i rest. is_text_record flags ls is i (record_value r) \<and>
        data = [flags, 1] @ ls @ is @ [0x54] @ i @ record_value r @ rest)"
proof -
  have one: "unat (b :: u8) = 1 \<longleftrightarrow> b = 1" for b
    by (simp add: word_unat_eq_iff)
  have "read_text_record data = Inr r \<longleftrightarrow>
     (\<exists>flags type_length xs. data = flags # type_length # xs \<and> flags AND 0b00100000 = 0 \<and>
        read_record_body flags type_length xs = Inr r)"
    by (cases data) (auto split: list.splits)
  then show ?thesis
    apply (simp only: read_record_body_ok one is_text_record_def)
    apply (intro iffI; elim exE conjE)
    subgoal for flags type_length xs ls "is" i rest
      by (rule exI [of _ flags], rule exI [of _ ls], rule exI [of _ "is"], rule exI [of _ i],
          rule exI [of _ rest]) simp
    subgoal for flags ls "is" i rest
      by (rule exI [of _ flags], rule exI [of _ 1],
          rule exI [of _ "ls @ is @ [0x54] @ i @ record_value r @ rest"], intro conjI, simp, simp, simp,
          simp, rule exI [of _ ls], rule exI [of _ "is"], rule exI [of _ i], rule exI [of _ rest]) simp
    done
qed

text \<open>
  C16: The text record parser accepts exactly the text records. It returns a record if and only
  if the data begins with an unchunked record of the well-known type \<open>T\<close>, in short or long form,
  with or without an ID, whose payload is the record's value; whatever follows is ignored.
\<close>

theorem text_record_grammar:
  "parse_ndef_text_record data = Ret (Inr r) \<longleftrightarrow>
     (\<exists>flags ls is i rest. is_text_record flags ls is i (record_value r) \<and>
        data = [flags, 1] @ ls @ is @ [0x54] @ i @ record_value r @ rest)"
  using text_record_read by (simp add: parse_reads)

section \<open>The text\<close>

text \<open>The payload: a status byte with the length of the language code, the code, the text.\<close>

lemma record_text_run:
  "record_text r = Ret (case record_value r of
       [] \<Rightarrow> Inr []
     | status # rest \<Rightarrow>
         let n = unat (status AND 0b00111111) in
         if length rest < n then Inl (Truncated ''text payload'') else from_utf8 (drop n rest))"
  by (auto simp: record_text_def Let_def split: list.split)

lemma record_read_back:
  assumes "is_text_record flags ls is i (status # language @ text)"
    and "length language = unat (status AND 0b00111111)" and "utf8_valid text"
  shows "ret_try (parse_ndef_text_record ([flags, 1] @ ls @ is @ [0x54] @ i @
      (status # language @ text) @ rest)) record_text = Ret (Inr text)"
proof -
  have "read_text_record ([flags, 1] @ ls @ is @ [0x54] @ i @ (status # language @ text) @ rest) =
      Inr \<lparr>record_value = status # language @ text\<rparr>"
    unfolding text_record_read
    by (rule exI [of _ flags], rule exI [of _ ls], rule exI [of _ "is"], rule exI [of _ i],
        rule exI [of _ rest]) (use assms(1) in simp)
  with assms(2,3) show ?thesis
    by (simp add: parse_reads record_text_run from_utf8_def)
qed

text \<open>UTF-8 as an encoder, to relate \<open>utf8_valid\<close> with the texts it is about.\<close>

definition utf8_char :: "nat \<Rightarrow> bytes" where
  "utf8_char c = map word_of_nat
     (if c < 0x80 then [c]
      else if c < 0x800 then [0xc0 + c div 64, 0x80 + c mod 64]
      else if c < 0x10000 then [0xe0 + c div 4096, 0x80 + c div 64 mod 64, 0x80 + c mod 64]
      else [0xf0 + c div 262144, 0x80 + c div 4096 mod 64, 0x80 + c div 64 mod 64, 0x80 + c mod 64])"

definition scalar_value :: "nat \<Rightarrow> bool" where
  "scalar_value c \<longleftrightarrow> c < 0xd800 \<or> 0xe000 \<le> c \<and> c < 0x110000"

lemma unat_byte [simp]: "n < 256 \<Longrightarrow> unat (word_of_nat n :: u8) = n"
  by (simp add: unat_of_nat take_bit_nat_eq_self)

lemma between_byte:
  "n < 256 \<Longrightarrow> between lo hi (word_of_nat n) \<longleftrightarrow> unat lo \<le> n \<and> n \<le> unat hi"
  by (simp add: between_def word_le_nat_alt)

lemma byte_eq: "n < 256 \<Longrightarrow> (word_of_nat n :: u8) = b \<longleftrightarrow> n = unat b"
  by (auto simp: word_unat_eq_iff)

lemma utf8_valid_sequences:
  "a \<le> 0x7f \<Longrightarrow> utf8_valid (a # xs) = utf8_valid xs"
  "between 0xc2 0xdf a \<Longrightarrow> between 0x80 0xbf b \<Longrightarrow> utf8_valid (a # b # xs) = utf8_valid xs"
  "between 0xe0 0xef a \<Longrightarrow> between 0x80 0xbf b \<Longrightarrow> between 0x80 0xbf c \<Longrightarrow>
     (a = 0xe0 \<longrightarrow> between 0xa0 0xbf b) \<Longrightarrow> (a = 0xed \<longrightarrow> between 0x80 0x9f b) \<Longrightarrow>
     utf8_valid (a # b # c # xs) = utf8_valid xs"
  "between 0xf0 0xf4 a \<Longrightarrow> between 0x80 0xbf b \<Longrightarrow> between 0x80 0xbf c \<Longrightarrow> between 0x80 0xbf d \<Longrightarrow>
     (a = 0xf0 \<longrightarrow> between 0x90 0xbf b) \<Longrightarrow> (a = 0xf4 \<longrightarrow> between 0x80 0x8f b) \<Longrightarrow>
     utf8_valid (a # b # c # d # xs) = utf8_valid xs"
  by (auto simp: between_def word_le_nat_alt)

lemma utf8_valid_bytes:
  fixes a b n m :: nat
  shows "0xc2 \<le> a \<Longrightarrow> a \<le> 0xdf \<Longrightarrow>
      utf8_valid (map word_of_nat [a, 0x80 + n mod 64] @ xs) = utf8_valid xs"
    and "0xe0 \<le> a \<Longrightarrow> a \<le> 0xef \<Longrightarrow> 0x80 \<le> b \<Longrightarrow> b \<le> 0xbf \<Longrightarrow> (a = 0xe0 \<Longrightarrow> 0xa0 \<le> b) \<Longrightarrow>
      (a = 0xed \<Longrightarrow> b \<le> 0x9f) \<Longrightarrow>
      utf8_valid (map word_of_nat [a, b, 0x80 + n mod 64] @ xs) = utf8_valid xs"
    and "0xf0 \<le> a \<Longrightarrow> a \<le> 0xf4 \<Longrightarrow> 0x80 \<le> b \<Longrightarrow> b \<le> 0xbf \<Longrightarrow> (a = 0xf0 \<Longrightarrow> 0x90 \<le> b) \<Longrightarrow>
      (a = 0xf4 \<Longrightarrow> b \<le> 0x8f) \<Longrightarrow>
      utf8_valid (map word_of_nat [a, b, 0x80 + m mod 64, 0x80 + n mod 64] @ xs) = utf8_valid xs"
proof -
  have tail: "between 0x80 0xbf (word_of_nat (0x80 + n mod 64))" for n
    by (subst between_byte) simp_all
  show "0xc2 \<le> a \<Longrightarrow> a \<le> 0xdf \<Longrightarrow>
      utf8_valid (map word_of_nat [a, 0x80 + n mod 64] @ xs) = utf8_valid xs"
    by (simp only: list.map append.simps, rule utf8_valid_sequences(2)) (simp_all add: between_byte tail del: of_nat_add)
  show "0xe0 \<le> a \<Longrightarrow> a \<le> 0xef \<Longrightarrow> 0x80 \<le> b \<Longrightarrow> b \<le> 0xbf \<Longrightarrow> (a = 0xe0 \<Longrightarrow> 0xa0 \<le> b) \<Longrightarrow>
      (a = 0xed \<Longrightarrow> b \<le> 0x9f) \<Longrightarrow>
      utf8_valid (map word_of_nat [a, b, 0x80 + n mod 64] @ xs) = utf8_valid xs"
    by (simp only: list.map append.simps, rule utf8_valid_sequences(3))
       (simp_all add: between_byte byte_eq tail del: of_nat_add)
  show "0xf0 \<le> a \<Longrightarrow> a \<le> 0xf4 \<Longrightarrow> 0x80 \<le> b \<Longrightarrow> b \<le> 0xbf \<Longrightarrow> (a = 0xf0 \<Longrightarrow> 0x90 \<le> b) \<Longrightarrow>
      (a = 0xf4 \<Longrightarrow> b \<le> 0x8f) \<Longrightarrow>
      utf8_valid (map word_of_nat [a, b, 0x80 + m mod 64, 0x80 + n mod 64] @ xs) = utf8_valid xs"
    by (simp only: list.map append.simps, rule utf8_valid_sequences(4))
       (simp_all add: between_byte byte_eq tail del: of_nat_add)
qed

lemma utf8_valid_char:
  assumes c: "scalar_value c"
  shows "utf8_valid (utf8_char c @ xs) = utf8_valid xs"
proof -
  consider (1) "c < 0x80" | (2) "0x80 \<le> c" "c < 0x800" | (3) "0x800 \<le> c" "c < 0x10000"
    | (4) "0x10000 \<le> c" "c < 0x110000"
    using c by (fastforce simp: scalar_value_def)
  then show ?thesis
  proof cases
    case 1
    then show ?thesis
      by (simp add: utf8_char_def word_le_nat_alt)
  next
    case 2
    then have "utf8_char c = map word_of_nat [0xc0 + c div 64, 0x80 + c mod 64]"
      by (simp add: utf8_char_def)
    then show ?thesis
      using 2 by (simp only:) (rule utf8_valid_bytes(1); simp)
  next
    case 3
    have q: "32 \<le> c div 64" "c div 64 < 864 \<or> 896 \<le> c div 64" "c div 4096 = c div 64 div 64"
      using 3 c by (auto simp: scalar_value_def div_mult2_eq [symmetric])
    have "utf8_char c = map word_of_nat [0xe0 + c div 4096, 0x80 + c div 64 mod 64, 0x80 + c mod 64]"
      using 3 by (simp add: utf8_char_def)
    moreover have "0xe0 + c div 4096 \<le> 0xef"
      using 3 by simp
    ultimately show ?thesis
      using q div_mult_mod_eq [of "c div 64" 64]
      by (simp only:) (rule utf8_valid_bytes(2); linarith)
  next
    case 4
    have q: "16 \<le> c div 4096" "c div 4096 < 272" "c div 262144 = c div 4096 div 64"
      using 4 by (auto simp: div_mult2_eq [symmetric])
    have "utf8_char c = map word_of_nat [0xf0 + c div 262144, 0x80 + c div 4096 mod 64,
        0x80 + c div 64 mod 64, 0x80 + c mod 64]"
      using 4 by (simp add: utf8_char_def)
    then show ?thesis
      using q div_mult_mod_eq [of "c div 4096" 64]
      by (simp only:) (rule utf8_valid_bytes(3); linarith)
  qed
qed

lemma utf8_valid_text: "list_all scalar_value cs \<Longrightarrow> utf8_valid (concat (map utf8_char cs))"
  by (induction cs) (simp_all add: utf8_valid_char)

text \<open>
  C17: A text comes back as it was written. For every text record, in any of its forms, whose
  payload is a status byte, a language code of the length the status byte gives and the UTF-8
  encoding of a sequence of Unicode scalar values, parsing the record and taking its text
  yields exactly that encoding, whatever follows the record.
\<close>

theorem text_read_back:
  assumes "is_text_record flags ls is i (status # language @ concat (map utf8_char cs))"
    and "length language = unat (status AND 0b00111111)" and "list_all scalar_value cs"
  shows "ret_try (parse_ndef_text_record ([flags, 1] @ ls @ is @ [0x54] @ i @
      (status # language @ concat (map utf8_char cs)) @ rest)) record_text =
    Ret (Inr (concat (map utf8_char cs)))"
  using record_read_back [OF assms(1,2) utf8_valid_text [OF assms(3)]] .

theorem text_read_back_witness:
  "ret_try (parse_ndef_text_record
     [0xd1, 1, 6, 0x54, 2, 0x65, 0x6e, 0x48, 0xc3, 0xa9, 0xfe]) record_text =
   Ret (Inr [0x48, 0xc3, 0xa9])"
  using text_read_back [of "0xd1" "[6]" "[]" "[]" 2 "[0x65, 0x6e]" "[0x48, 0xe9]" "[0xfe]"]
  by (simp add: is_text_record_def utf8_char_def scalar_value_def)

text \<open>
  The status byte's top bit, which marks a UTF-16 text, is not looked at: such a text is taken
  for UTF-8, here the letter A for a NUL and an A.
\<close>

lemma utf16_taken_for_utf8:
  "record_text \<lparr>record_value = [0x82, 0x65, 0x6e, 0x00, 0x41]\<rparr> = Ret (Inr [0x00, 0x41])"
  by (simp add: record_text_run from_utf8_def Let_def)

end
