(* ===== verification/Mfrc522.thy ===== *)
theory Mfrc522
  imports Nfc_Reader Ndef Ndef_Text
begin

text \<open>
  \<open>src/nfc/mfrc522.rs\<close>: the built-in reader backend. The chip's driver is a parameter, the record
  of the commands the code gives it, each a function of the chip's state; so is the conversion
  of a UID. What the backend sends on a response channel is the list of its responses, in order.
\<close>

section \<open>The chip\<close>

datatype chip_error = Collision | OtherChipError string

record 'c chip =
  reqa :: "'c \<Rightarrow> (chip_error + bytes) \<times> 'c"
  select :: "bytes \<Rightarrow> 'c \<Rightarrow> (chip_error + bytes) \<times> 'c"
  wupa :: "'c \<Rightarrow> (chip_error + bytes) \<times> 'c"
  mf_read :: "u8 \<Rightarrow> 'c \<Rightarrow> (chip_error + bytes) \<times> 'c"
  nfc_uid_try_from :: "bytes \<Rightarrow> nfc_uid option"

section \<open>The adapter\<close>

definition nfc_uid_from_mfrc522 :: "'c chip \<Rightarrow> bytes \<Rightarrow> nfc_uid guarded" where
  "nfc_uid_from_mfrc522 C uid = (case nfc_uid_try_from C uid of None \<Rightarrow> Panic | Some u \<Rightarrow> Ret u)"

definition select_target :: "'c chip \<Rightarrow> 'c \<Rightarrow> nfc_uid option guarded \<times> 'c" where
  "select_target C c =
     (case reqa C c of
        (Inl _, c) \<Rightarrow> (Ret None, c)
      | (Inr atqa, c) \<Rightarrow>
          (case select C atqa c of
             (Inl _, c) \<Rightarrow> (Ret None, c)
           | (Inr uid, c) \<Rightarrow> (ret_bind (nfc_uid_from_mfrc522 C uid) (\<lambda>u. Ret (Some u)), c)))"

definition check_for_release :: "'c chip \<Rightarrow> 'c \<Rightarrow> bool \<times> 'c" where
  "check_for_release C c =
     (case wupa C c of
        (Inr _, c) \<Rightarrow> (False, c)
      | (Inl _, c) \<Rightarrow>
          (case wupa C c of
             (Inr _, c) \<Rightarrow> (False, c)
           | (Inl error, c) \<Rightarrow> (error \<noteq> Collision, c)))"

fun ndef_error_text :: "ndef_error \<Rightarrow> string" where
  "ndef_error_text (Truncated part) = ''record is truncated: '' @ part @ '' missing''"
| "ndef_error_text Chunked = ''chunked records are not supported''"
| "ndef_error_text NotWellKnown = ''not a well-known payload type''"
| "ndef_error_text NotTextRecord = ''not a text record''"
| "ndef_error_text InvalidUtf8 = ''text payload is not valid UTF-8''"

text \<open>The loop over the quads; a block address is an 8-bit product.\<close>

fun read_quads ::
  "'c chip \<Rightarrow> u8 list \<Rightarrow> ndef_message_parser \<Rightarrow> 'c \<Rightarrow> (string + ndef_message_parser) \<times> 'c" where
  "read_quads C [] parser c = (Inr parser, c)"
| "read_quads C (quad # quads) parser c =
     (case mf_read C (4 * quad) c of
        (Inl _, c) \<Rightarrow> (Inl (''failed to read block '' @ show_nat (unat (4 * quad))), c)
      | (Inr quad_data, c) \<Rightarrow>
          (let parser = add_data parser quad_data in
           if is_done parser then (Inr parser, c)
           else if quad = 2 \<and> \<not> has_started parser
             then (Inl ''no NDEF message found in first sector'', c)
           else read_quads C quads parser c))"

definition total_quads :: "bytes \<Rightarrow> u8" where
  "total_quads capabilities =
     (let total_bytes = unat (capabilities ! 2) * 8;
          total_pages = total_bytes div 4 in
      word_of_nat (min (total_pages div 4) 63))"

definition quad_range :: "u8 \<Rightarrow> u8 list" where
  "quad_range n = map word_of_nat [1..<unat (n + 1)]"

definition adapter_read_ndef_text :: "'c chip \<Rightarrow> 'c \<Rightarrow> (string + bytes) guarded \<times> 'c" where
  "adapter_read_ndef_text C c =
     (case mf_read C 3 c of
        (Inl _, c) \<Rightarrow> (Ret (Inl ''failed to read capability container''), c)
      | (Inr capabilities, c) \<Rightarrow>
          (case read_quads C (quad_range (total_quads capabilities)) parser_new c of
             (Inl e, c) \<Rightarrow> (Ret (Inl e), c)
           | (Inr parser, c) \<Rightarrow>
               (if \<not> is_done parser then (Ret (Inl ''NDEF message incomplete''), c)
                else (ret_try (ret_bind (parse_ndef_text_record (parser_data parser))
                        (\<lambda>r. Ret (map_err ndef_error_text r))) (\<lambda>record.
                      ret_bind (record_text record) (\<lambda>r. Ret (map_err ndef_error_text r))), c))))"

section \<open>Serving requests\<close>

text \<open>
  The polling loops. \<open>closed k\<close> is what \<open>is_closed\<close> reports at the \<open>k\<close>-th poll; a wait for a card
  that never comes, of a caller who never gives up, does not return.
\<close>

partial_function (option) poll_card ::
  "'c chip \<Rightarrow> (nat \<Rightarrow> bool) \<Rightarrow> nat \<Rightarrow> 'c \<Rightarrow> (nfc_uid option guarded \<times> 'c) option" where
  "poll_card C closed k c =
     (if closed k then Some (Ret None, c)
      else case select_target C c of
        (Panic, c) \<Rightarrow> Some (Panic, c)
      | (Ret (Some uid), c) \<Rightarrow> Some (Ret (Some uid), c)
      | (Ret None, c) \<Rightarrow> poll_card C closed (Suc k) c)"

partial_function (option) poll_removal ::
  "'c chip \<Rightarrow> (nat \<Rightarrow> bool) \<Rightarrow> nat \<Rightarrow> 'c \<Rightarrow> (bool \<times> 'c) option" where
  "poll_removal C closed k c =
     (if closed k then Some (False, c)
      else case check_for_release C c of
        (gone, c) \<Rightarrow> if gone then Some (True, c) else poll_removal C closed (Suc k) c)"

datatype nfc_response =
    CardResponse nat nfc_uid
  | RemovalResponse nat
  | TextResponse nat "string + bytes"

text \<open>The main loop, over the requests the channel delivers until it is closed.\<close>

fun serve ::
  "'c chip \<Rightarrow> (nat \<Rightarrow> nat \<Rightarrow> bool) \<Rightarrow> nfc_reader_request list \<Rightarrow> nfc_response list \<Rightarrow> 'c
     \<Rightarrow> (nfc_response list guarded \<times> 'c) option" where
  "serve C closed [] sent c = Some (Ret sent, c)"
| "serve C closed (WaitForCard response # requests) sent c =
     (case poll_card C (closed response) 0 c of
        None \<Rightarrow> None
      | Some (Panic, c) \<Rightarrow> Some (Panic, c)
      | Some (Ret None, c) \<Rightarrow> serve C closed requests sent c
      | Some (Ret (Some uid), c) \<Rightarrow>
          serve C closed requests (sent @ [CardResponse response uid]) c)"
| "serve C closed (WaitForRemoval response # requests) sent c =
     (case poll_removal C (closed response) 0 c of
        None \<Rightarrow> None
      | Some (False, c) \<Rightarrow> serve C closed requests sent c
      | Some (True, c) \<Rightarrow> serve C closed requests (sent @ [RemovalResponse response]) c)"
| "serve C closed (ReadNdefText response # requests) sent c =
     (case adapter_read_ndef_text C c of
        (Panic, c) \<Rightarrow> Some (Panic, c)
      | (Ret result, c) \<Rightarrow> serve C closed requests (sent @ [TextResponse response result]) c)"

section \<open>Starting the backend\<close>

datatype mfrc522_init_error = Io string | Gpio string | Chip string

record mfrc522_config =
  spi_dev_path :: string
  gpio_dev_path :: string
  reset_pin_line :: u32

definition config_default :: mfrc522_config where
  "config_default = \<lparr>spi_dev_path = ''/dev/spidev0.0'', gpio_dev_path = ''/dev/gpiochip0'',
     reset_pin_line = 25\<rparr>"

text \<open>
  The board: what opening and configuring the SPI device, requesting and driving the reset line
  and initialising the chip return, each when everything before it succeeded.
\<close>

record board =
  spidev_open :: "string \<Rightarrow> string + unit"
  spidev_configure :: "string + unit"
  request_line :: "string \<Rightarrow> u32 \<Rightarrow> string + unit"
  set_line_active :: "string + unit"
  chip_init :: "string + unit"

definition mfrc522_init :: "board \<Rightarrow> mfrc522_config \<Rightarrow> mfrc522_init_error + unit" where
  "mfrc522_init B config =
     and_then (map_err Io (spidev_open B (spi_dev_path config))) (\<lambda>_.
     and_then (map_err Io (spidev_configure B)) (\<lambda>_.
     and_then (map_err Gpio (request_line B (gpio_dev_path config) (reset_pin_line config))) (\<lambda>_.
     and_then (map_err Gpio (set_line_active B)) (\<lambda>_.
     map_err Chip (chip_init B)))))"

definition serve_blocking ::
  "board \<Rightarrow> mfrc522_config \<Rightarrow> 'c chip \<Rightarrow> (nat \<Rightarrow> nat \<Rightarrow> bool) \<Rightarrow> nfc_reader_request list \<Rightarrow> 'c
     \<Rightarrow> (mfrc522_init_error + nfc_response list guarded \<times> 'c) option" where
  "serve_blocking B config C closed requests c =
     (case mfrc522_init B config of
        Inl e \<Rightarrow> Some (Inl e)
      | Inr _ \<Rightarrow> map_option Inr (serve C closed requests [] c))"

text \<open>
  \<open>run\<close> reports the initialization on its channel before it serves; \<open>spawn\<close> starts the thread
  and returns what was reported, \<open>None\<close> being a thread that died without reporting.
\<close>

definition run_reports :: "board \<Rightarrow> mfrc522_config \<Rightarrow> mfrc522_init_error + unit" where
  "run_reports B config = (case mfrc522_init B config of Inr _ \<Rightarrow> Inr () | Inl e \<Rightarrow> Inl e)"

definition mfrc522_spawn ::
  "string + unit \<Rightarrow> (mfrc522_init_error + unit) option \<Rightarrow> mfrc522_init_error + unit" where
  "mfrc522_spawn thread reported =
     and_then (map_err Io thread) (\<lambda>_.
       case reported of
         None \<Rightarrow> Inl (Chip ''reader thread died during initialization'')
       | Some r \<Rightarrow> r)"

definition spawn_mfrc522 ::
  "string + unit \<Rightarrow> (mfrc522_init_error + unit) option \<Rightarrow> mfrc522_init_error + unit" where
  "spawn_mfrc522 thread reported = and_then (mfrc522_spawn thread reported) (\<lambda>_. Inr ())"

end
