(* ===== verification/Mfrc522_Properties.thy ===== *)
theory Mfrc522_Properties
  imports Mfrc522
begin

text \<open>
  What the MFRC522 backend guarantees: the blocks it reads, that a text on a tag is read back,
  when a card counts as gone, and that every request is answered.
\<close>

unbundle bit_operations_syntax

section \<open>Block addresses\<close>

lemma total_quads_bound: "unat (total_quads caps) = min (unat (caps ! 2) div 2) 63"
proof -
  have "unat (caps ! 2) * 8 div 4 div 4 = unat (caps ! 2) div 2"
    by simp
  then show ?thesis
    by (simp add: total_quads_def Let_def)
qed

lemma quad_range_nats: "unat n \<le> 63 \<Longrightarrow> quad_range n = map word_of_nat [1..<Suc (unat n)]"
  by (simp add: quad_range_def unat_word_ariths)

lemma quad_address: "q \<le> 63 \<Longrightarrow> unat (4 * word_of_nat q :: u8) = 4 * q"
  by (simp add: unat_word_ariths)

text \<open>A chip that also keeps the block addresses it was asked for.\<close>

definition logged :: "'c chip \<Rightarrow> ('c \<times> u8 list) chip" where
  "logged C =
     \<lparr>reqa = (\<lambda>(c, l). apsnd (\<lambda>c. (c, l)) (reqa C c)),
      select = (\<lambda>atqa (c, l). apsnd (\<lambda>c. (c, l)) (select C atqa c)),
      wupa = (\<lambda>(c, l). apsnd (\<lambda>c. (c, l)) (wupa C c)),
      mf_read = (\<lambda>b (c, l). apsnd (\<lambda>c. (c, l @ [b])) (mf_read C b c)),
      nfc_uid_try_from = nfc_uid_try_from C\<rparr>"

lemma mf_read_logged [simp]:
  "mf_read (logged C) b (c, l) = apsnd (\<lambda>c. (c, l @ [b])) (mf_read C b c)"
  by (simp add: logged_def)

lemma read_quads_logged:
  "\<exists>k \<le> length qs. snd (snd (read_quads (logged C) qs p (c, l))) = l @ map ((*) 4) (take k qs)"
proof (induction qs arbitrary: p c l)
  case (Cons q qs)
  obtain r c' where r: "mf_read C (4 * q) c = (r, c')"
    by fastforce
  have one: ?case if "snd (snd (read_quads (logged C) (q # qs) p (c, l))) = l @ [4 * q]"
    using that by (intro exI [of _ 1]) simp
  show ?case
  proof (cases r)
    case (Inl e)
    with r show ?thesis
      by (intro one) simp
  next
    case (Inr d)
    let ?p = "add_data p d"
    show ?thesis
    proof (cases "is_done ?p \<or> q = 2 \<and> \<not> has_started ?p")
      case True
      with r Inr show ?thesis
        by (intro one) (auto simp: Let_def)
    next
      case False
      obtain k where "k \<le> length qs"
          "snd (snd (read_quads (logged C) qs ?p (c', l @ [4 * q]))) =
             (l @ [4 * q]) @ map ((*) 4) (take k qs)"
        using Cons.IH by blast
      with r Inr False show ?thesis
        by (intro exI [of _ "Suc k"]) (auto simp: Let_def)
    qed
  qed
qed simp

text \<open>
  C39: Reading a tag never addresses a block outside the tag's 8-bit block space and always
  ends. Whatever the capability container claims and whatever the tag answers, the blocks read
  are block 3 and then 4, 8, 12 and so on in order, at most 63 of them, none above 252: the
  address computation does not wrap around.
\<close>

theorem read_addresses:
  "\<exists>k. k \<le> 63 \<and>
     map unat (snd (snd (adapter_read_ndef_text (logged C) (c, [])))) = 3 # map ((*) 4) [1..<Suc k]"
proof -
  obtain r c' where r: "mf_read C 3 c = (r, c')"
    by fastforce
  show ?thesis
  proof (cases r)
    case (Inl e)
    with r show ?thesis
      by (intro exI [of _ 0]) (simp add: adapter_read_ndef_text_def)
  next
    case (Inr caps)
    let ?n = "unat (total_quads caps)" and ?qs = "quad_range (total_quads caps)"
    have n: "?n \<le> 63"
      by (simp add: total_quads_bound)
    obtain k where k: "k \<le> length ?qs"
        "snd (snd (read_quads (logged C) ?qs parser_new (c', [3]))) = [3] @ map ((*) 4) (take k ?qs)"
      using read_quads_logged [of ?qs C parser_new c' "[3]"] by (elim exE conjE) simp
    have "take k ?qs = map word_of_nat [1..<Suc k]"
      using k(1) n by (simp add: quad_range_nats take_map del: upt_Suc)
    moreover have "k \<le> 63"
      using k(1) n by (simp add: quad_range_nats del: upt_Suc)
    moreover have "snd (snd (adapter_read_ndef_text (logged C) (c, []))) =
        snd (snd (read_quads (logged C) ?qs parser_new (c', [3])))"
      using r Inr by (simp add: adapter_read_ndef_text_def split: prod.split sum.split)
    ultimately show ?thesis
      using k(2) by (intro exI [of _ k]) (auto simp: quad_address simp del: upt_Suc)
  qed
qed

section \<open>Reading a tag\<close>

text \<open>
  The memory of a tag: block \<open>b\<close> is the four pages that start at page \<open>b\<close>. A chip with the tag in
  its field answers every read with the block, in whatever state the reads leave it.
\<close>

definition tag_block :: "bytes \<Rightarrow> u8 \<Rightarrow> bytes" where
  "tag_block mem b = take 16 (drop (4 * unat b) mem)"

definition tag_present :: "'c chip \<Rightarrow> ('c \<Rightarrow> bool) \<Rightarrow> bytes \<Rightarrow> bool" where
  "tag_present C S mem \<longleftrightarrow>
     (\<forall>c b. S c \<longrightarrow> (\<exists>c'. S c' \<and> mf_read C b c = (Inr (tag_block mem b), c')))"

lemma has_started_stays: "has_started p \<Longrightarrow> has_started (add_data p xs)"
  by (induction p xs rule: add_data.induct)
     (auto simp: has_started_def Let_def split: state.splits)

lemma done_started: "parser_inv p \<Longrightarrow> is_done p \<Longrightarrow> has_started p"
  by (auto simp: parser_inv_def is_done_def has_started_def)

lemma read_quads_feed:
  assumes tag: "tag_present C S mem" and "S c"
    and "\<And>us vs. qs = us @ 2 # vs \<Longrightarrow>
      has_started (feed p (map (\<lambda>q. tag_block mem (4 * q)) (us @ [2])))"
  shows "\<exists>c'. read_quads C qs p c = (Inr (feed p (map (\<lambda>q. tag_block mem (4 * q)) qs)), c')"
  using assms(2,3)
proof (induction qs arbitrary: p c)
  case (Cons q qs)
  obtain c' where c': "S c'" "mf_read C (4 * q) c = (Inr (tag_block mem (4 * q)), c')"
    using tag Cons.prems(1) unfolding tag_present_def by blast
  let ?p = "add_data p (tag_block mem (4 * q))"
  show ?case
  proof (cases "is_done ?p")
    case True
    with c' show ?thesis
      by (simp add: Let_def)
  next
    case False
    have "has_started (feed ?p (map (\<lambda>q. tag_block mem (4 * q)) (us @ [2])))"
      if "qs = us @ 2 # vs" for us vs
      using Cons.prems(2) [of "q # us" vs] that False by (simp add: Let_def)
    then obtain c'' where "read_quads C qs ?p c' = (Inr (feed ?p (map (\<lambda>q. tag_block mem (4 * q)) qs)), c'')"
      using Cons.IH [OF c'(1)] by blast
    moreover have "has_started ?p" if "q = 2"
      using Cons.prems(2) [of "[]" qs] that False by (simp add: Let_def)
    ultimately show ?thesis
      using c' False by (auto simp: Let_def)
  qed
qed simp

lemma tag_blocks:
  assumes "16 * (n + 1) \<le> length mem" and "n \<le> 63"
  shows "concat (map (\<lambda>q. tag_block mem (4 * q)) (map word_of_nat [1..<Suc n])) = take (16 * n) (drop 16 mem)"
  using assms
proof (induction n)
  case (Suc n)
  have "tag_block mem (4 * word_of_nat (Suc n)) = take 16 (drop (16 * n) (drop 16 mem))"
    using quad_address [of "Suc n"] Suc.prems by (simp add: tag_block_def add.commute del: of_nat_Suc)
  moreover have "take (16 * Suc n) (drop 16 mem) =
      take (16 * n) (drop 16 mem) @ take 16 (drop (16 * n) (drop 16 mem))"
    by (subst mult_Suc_right, subst add.commute, rule take_add)
  moreover have "[1..<Suc (Suc n)] = [1..<Suc n] @ [Suc n]"
    by simp
  ultimately show ?case
    using Suc.IH Suc.prems by (simp del: of_nat_Suc upt_Suc)
qed simp

lemma quads_start:
  assumes mem: "drop 16 mem = pad @ 3 # xs" and pad: "list_all (\<lambda>b. b \<noteq> 3) pad" "length pad < 32"
    and len: "16 * (n + 1) \<le> length mem" "n \<le> 63"
    and two: "map word_of_nat [1..<Suc n] = us @ (2 :: u8) # vs"
  shows "has_started (feed parser_new (map (\<lambda>q. tag_block mem (4 * q)) (us @ [2])))"
proof -
  have below: "length us < n"
    using arg_cong [OF two, of length] by (simp del: upt_Suc)
  have "(word_of_nat (1 + length us) :: u8) = 2"
    using arg_cong [OF two, of "\<lambda>l. l ! length us"] below by (simp del: upt_Suc of_nat_add)
  then have one: "length us = 1"
    using below len(2) by (simp add: byte_eq del: of_nat_add)
  then have n2: "2 \<le> n"
    using below by simp
  have "us = take 1 (map word_of_nat [1..<Suc n])"
    using two one by simp
  then have us: "us = [1]"
    using n2 by (simp add: take_map upt_conv_Cons del: upt_Suc)
  let ?b1 = "tag_block mem (4 * 1)" and ?b2 = "tag_block mem (4 * 2)"
  have "?b1 @ ?b2 = take 32 (drop 16 mem)"
    using tag_blocks [of 2 mem] n2 len by (simp add: upt_rec)
  also have "\<dots> = pad @ 3 # take (31 - length pad) xs"
  proof -
    have "32 - length pad = Suc (31 - length pad)"
      using pad(2) by simp
    with pad(2) show ?thesis
      by (simp add: mem)
  qed
  finally have blocks: "?b1 @ ?b2 = pad @ 3 # take (31 - length pad) xs" .
  have started: "has_started (add_data parser_new (?b1 @ ?b2))"
    unfolding blocks skips_padding [OF pad(1)]
    using has_started_stays [of "parser_new\<lparr>parser_state := Length\<rparr>"]
    by (simp add: parser_new_def has_started_def)
  show ?thesis
  proof (cases "is_done (add_data parser_new ?b1)")
    case True
    then show ?thesis
      using done_started [OF parser_inv_add_data [OF parser_inv_new]] by (simp add: us Let_def)
  next
    case False
    with add_data_append [OF False] started show ?thesis
      by (simp add: us Let_def)
  qed
qed

text \<open>The number of quads of the data area the capability container gives the reader.\<close>

abbreviation tag_quads :: "bytes \<Rightarrow> nat" where
  "tag_quads mem \<equiv> min (unat (mem ! 14) div 2) 63"

lemma tag_message_read:
  assumes tag: "tag_present C S mem" "S c"
    and area: "drop 16 mem = pad @ tlv_header (length m) @ m @ rest"
    and pad: "list_all (\<lambda>b. b \<noteq> 3) pad" "length pad < 32"
    and m: "0 < length m" "length m \<noteq> 255"
    and size: "16 * (tag_quads mem + 1) \<le> length mem"
      "length (pad @ tlv_header (length m) @ m) \<le> 16 * tag_quads mem"
  shows "fst (adapter_read_ndef_text C c) =
    ret_try (ret_bind (parse_ndef_text_record m) (\<lambda>r. Ret (map_err ndef_error_text r)))
      (\<lambda>record. ret_bind (record_text record) (\<lambda>r. Ret (map_err ndef_error_text r)))"
proof -
  let ?n = "tag_quads mem" and ?qs = "map word_of_nat [1..<Suc (tag_quads mem)]"
  let ?chunks = "map (\<lambda>q. tag_block mem (4 * q)) ?qs"
  have n: "?n \<le> 63" and m': "length m < 65536"
    using size(2) by simp_all
  obtain c1 where c1: "S c1" "mf_read C 3 c = (Inr (tag_block mem 3), c1)"
    using tag unfolding tag_present_def by blast
  have "tag_block mem 3 ! 2 = mem ! 14"
    using size(1) by (simp add: tag_block_def)
  then have qs: "quad_range (total_quads (tag_block mem 3)) = ?qs"
    using quad_range_nats [of "total_quads (tag_block mem 3)"] by (simp add: total_quads_bound del: upt_Suc)
  have "concat ?chunks = take (16 * ?n) (drop 16 mem)"
    by (rule tag_blocks [OF size(1) n])
  also have "\<dots> = pad @ tlv_header (length m) @ m @
      take (16 * ?n - length (pad @ tlv_header (length m) @ m)) rest"
    using size(2) by (simp add: area add.assoc)
  finally have fed: "feed parser_new ?chunks = collecting (length m) m"
    by (rule feed_extracts [OF pad(1) m m'])
  obtain ys where ys: "tlv_header (length m) = 3 # ys"
    by (cases "length m < 255") (auto simp: tlv_header_def)
  have start: "has_started (feed parser_new (map (\<lambda>q. tag_block mem (4 * q)) (us @ [2])))"
    if "?qs = us @ 2 # vs" for us vs
    using quads_start [OF _ pad size(1) n that, of "ys @ m @ rest"] area ys by simp
  have "\<exists>c2. read_quads C ?qs parser_new c1 = (Inr (feed parser_new ?chunks), c2)"
    by (rule read_quads_feed [OF tag(1) c1(1)]) (rule start)
  then obtain c2 where "read_quads C ?qs parser_new c1 = (Inr (collecting (length m) m), c2)"
    unfolding fed by (elim exE)
  then have "fst (adapter_read_ndef_text C c) =
      ret_try (ret_bind (parse_ndef_text_record (parser_data (collecting (length m) m)))
        (\<lambda>r. Ret (map_err ndef_error_text r)))
      (\<lambda>record. ret_bind (record_text record) (\<lambda>r. Ret (map_err ndef_error_text r)))"
    using c1(2) done_at_end [OF m'] by (simp add: adapter_read_ndef_text_def qs)
  then show ?thesis
    by (simp add: collecting_def)
qed

text \<open>
  C10: A text written to a tag is read back by the reader, through all its layers. Take a tag
  whose data area holds a text record in an NDEF TLV that starts in the first 32 bytes, after
  padding, and lies within the whole quads its capability container declares; the record may be
  in any form and the message may go on after it. Then reading the tag yields exactly the text.
\<close>

theorem tag_text_read:
  assumes m_def: "m = [flags, 1] @ ls @ is @ [0x54] @ i @
      (status # language @ concat (map utf8_char cs)) @ trailing"
    and "tag_present C S mem" "S c"
    and "drop 16 mem = pad @ tlv_header (length m) @ m @ rest"
    and "list_all (\<lambda>b. b \<noteq> 3) pad" "length pad < 32" "length m \<noteq> 255"
    and "16 * (tag_quads mem + 1) \<le> length mem"
      "length (pad @ tlv_header (length m) @ m) \<le> 16 * tag_quads mem"
    and "is_text_record flags ls is i (status # language @ concat (map utf8_char cs))"
      "length language = unat (status AND 0b00111111)" "list_all scalar_value cs"
  shows "fst (adapter_read_ndef_text C c) = Ret (Inr (concat (map utf8_char cs)))"
proof -
  have m: "0 < length m"
    by (simp add: m_def)
  have mapped: "ret_try (ret_bind x (\<lambda>r. Ret (map_err ndef_error_text r)))
      (\<lambda>a. ret_bind (f a) (\<lambda>r. Ret (map_err ndef_error_text r))) = Ret (Inr y)"
    if "ret_try x f = Ret (Inr y)" for x :: "(ndef_error + 'x) guarded" and f :: "'x \<Rightarrow> (ndef_error + 'y) guarded" and y
    using that by (auto simp: ret_try_def ret_bind_def split: guarded.splits sum.splits)
  have "ret_try (parse_ndef_text_record m) record_text = Ret (Inr (concat (map utf8_char cs)))"
    unfolding m_def using record_read_back [OF assms(10,11) utf8_valid_text [OF assms(12)]] by simp
  from mapped [OF this] tag_message_read [OF assms(2-6) m assms(7-9)] show ?thesis
    by simp
qed

text \<open>A chip with a 64-byte tag in its field.\<close>

definition simple_tag :: bytes where
  "simple_tag = replicate 14 0 @ [6, 0] @
     [0, 3, 10, 0xd1, 1, 6, 0x54, 2, 0x65, 0x6e, 0x48, 0xc3, 0xa9, 0xfe] @ replicate 34 0"

definition simple_chip :: "unit chip" where
  "simple_chip =
     \<lparr>reqa = (\<lambda>c. (Inr [0x44, 0x00], c)),
      select = (\<lambda>atqa c. (Inr [1, 2, 3, 4], c)),
      wupa = (\<lambda>c. (Inr [0x44, 0x00], c)),
      mf_read = (\<lambda>b c. (Inr (tag_block simple_tag b), c)),
      nfc_uid_try_from = Some\<rparr>"

theorem tag_text_read_witness:
  "fst (adapter_read_ndef_text simple_chip ()) = Ret (Inr [0x48, 0xc3, 0xa9])"
proof -
  have "tag_present simple_chip (\<lambda>_. True) simple_tag"
    by (simp add: tag_present_def simple_chip_def)
  moreover have "simple_tag ! 14 = 6" "length simple_tag = 64"
    "drop 16 simple_tag = [0, 3, 10, 0xd1, 1, 6, 0x54, 2, 0x65, 0x6e, 0x48, 0xc3, 0xa9, 0xfe] @ replicate 34 0"
    by (simp_all add: simple_tag_def nth_append)
  ultimately show ?thesis
    using tag_text_read [of "[0xd1, 1, 6, 0x54, 2, 0x65, 0x6e, 0x48, 0xc3, 0xa9]" "0xd1" "[6]" "[]" "[]"
      2 "[0x65, 0x6e]" "[0x48, 0xe9]" "[]" simple_chip "\<lambda>_. True" simple_tag "()" "[0]"
      "0xfe # replicate 34 0"]
    by (simp add: is_text_record_def utf8_char_def scalar_value_def tlv_header_def)
qed

text \<open>
  With an odd size byte the last eight bytes of the data area are in no whole quad: a message
  that reaches into them is not found, although it lies within the size the tag declares.
\<close>

lemma odd_size_cut: "16 * unat (total_quads caps) \<le> 8 * unat (caps ! 2) \<and>
  (odd (unat (caps ! 2)) \<longrightarrow> 16 * unat (total_quads caps) + 8 \<le> 8 * unat (caps ! 2))"
  by (auto simp: total_quads_bound elim!: oddE)

section \<open>Presence and removal\<close>

text \<open>
  A card is reported gone only when two wake-ups in a row failed and the second one not by a
  collision: a single missed answer, which the chip produces while the card is still there, is
  not a removal, and a collision means cards are present.
\<close>

lemma release_needs_two_failures:
  "fst (check_for_release C c) \<longleftrightarrow>
     (\<exists>e1 c1 e2 c2. wupa C c = (Inl e1, c1) \<and> wupa C c1 = (Inl e2, c2) \<and> e2 \<noteq> Collision)"
  by (auto simp: check_for_release_def split: prod.splits sum.splits)

section \<open>Serving\<close>

text \<open>The polling loops return once the caller gave up, or once the chip sees what they wait for.\<close>

lemma poll_card_returns:
  assumes "closed (k + n) \<or> fst (select_target C (((\<lambda>c. snd (select_target C c)) ^^ n) c)) \<noteq> Ret None"
  shows "\<exists>r c'. poll_card C closed k c = Some (r, c')"
  using assms
proof (induction n arbitrary: k c)
  case 0
  then show ?case
    by (subst poll_card.simps) (auto split: prod.splits guarded.splits option.splits)
next
  case (Suc n)
  have "closed (Suc k + n) \<or> fst (select_target C (((\<lambda>c. snd (select_target C c)) ^^ n) (snd (select_target C c)))) \<noteq> Ret None"
    using Suc.prems unfolding funpow_Suc_right by simp
  from Suc.IH [OF this] show ?case
    by (subst poll_card.simps) (auto split: prod.splits guarded.splits option.splits)
qed

lemma poll_removal_returns:
  assumes "closed (k + n) \<or> fst (check_for_release C (((\<lambda>c. snd (check_for_release C c)) ^^ n) c))"
  shows "\<exists>r c'. poll_removal C closed k c = Some (r, c')"
  using assms
proof (induction n arbitrary: k c)
  case 0
  then show ?case
    by (subst poll_removal.simps) (auto split: prod.splits)
next
  case (Suc n)
  have "closed (Suc k + n) \<or> fst (check_for_release C (((\<lambda>c. snd (check_for_release C c)) ^^ n) (snd (check_for_release C c))))"
    using Suc.prems unfolding funpow_Suc_right by simp
  from Suc.IH [OF this] show ?case
    by (subst poll_removal.simps) (auto split: prod.splits)
qed

text \<open>And they end without an answer only if the caller gave up.\<close>

lemma poll_card_result:
  assumes "poll_card C closed k c = Some rc"
  shows "(fst rc = Ret None \<longrightarrow> (\<exists>j. closed j)) \<and>
    (fst rc = Panic \<longrightarrow> (\<exists>c. fst (select_target C c) = Panic))"
proof (rule poll_card.raw_induct [OF _ assms], goal_cases)
  case (1 poll C closed k c rc)
  show ?case
  proof (cases "closed k")
    case True
    with 1(2) show ?thesis
      by auto
  next
    case False
    obtain r c' where r: "select_target C c = (r, c')"
      by fastforce
    with False 1 show ?thesis
      by (cases r; cases "case r of Ret x \<Rightarrow> x") (auto intro: exI [of _ c])
  qed
qed

lemma poll_removal_result:
  assumes "poll_removal C closed k c = Some rc"
  shows "\<not> fst rc \<longrightarrow> (\<exists>j. closed j)"
proof (rule poll_removal.raw_induct [OF _ assms], goal_cases)
  case (1 poll C closed k c rc)
  obtain gone c' where "check_for_release C c = (gone, c')"
    by fastforce
  with 1 show ?case
    by (cases "closed k"; cases gone) auto
qed

text \<open>
  What the documentation of the requests promises: a wait is answered unless its caller gave up,
  reading a tag is always answered.
\<close>

fun answers :: "(nat \<Rightarrow> nat \<Rightarrow> bool) \<Rightarrow> nfc_reader_request \<Rightarrow> nfc_response list \<Rightarrow> bool" where
  "answers closed (WaitForCard i) rs \<longleftrightarrow>
     (\<exists>uid. rs = [CardResponse i uid]) \<or> rs = [] \<and> (\<exists>k. closed i k)"
| "answers closed (WaitForRemoval i) rs \<longleftrightarrow>
     rs = [RemovalResponse i] \<or> rs = [] \<and> (\<exists>k. closed i k)"
| "answers closed (ReadNdefText i) rs \<longleftrightarrow> (\<exists>result. rs = [TextResponse i result])"

text \<open>A wait comes to an end: its caller gives up, or the chip sees the card come or go.\<close>

fun wait_ends :: "'c chip \<Rightarrow> (nat \<Rightarrow> nat \<Rightarrow> bool) \<Rightarrow> nfc_reader_request \<Rightarrow> bool" where
  "wait_ends C closed (WaitForCard i) \<longleftrightarrow>
     (\<exists>k. closed i k) \<or>
     (\<forall>c. \<exists>n. fst (select_target C (((\<lambda>c. snd (select_target C c)) ^^ n) c)) \<noteq> Ret None)"
| "wait_ends C closed (WaitForRemoval i) \<longleftrightarrow>
     (\<exists>k. closed i k) \<or>
     (\<forall>c. \<exists>n. fst (check_for_release C (((\<lambda>c. snd (check_for_release C c)) ^^ n) c)))"
| "wait_ends C closed (ReadNdefText i) \<longleftrightarrow> True"

definition uids_standard :: "'c chip \<Rightarrow> bool" where
  "uids_standard C \<longleftrightarrow>
     (\<forall>atqa c uid c'. select C atqa c = (Inr uid, c') \<longrightarrow> nfc_uid_try_from C uid \<noteq> None)"

lemma select_target_no_panic: "uids_standard C \<Longrightarrow> fst (select_target C c) \<noteq> Panic"
  by (auto simp: select_target_def nfc_uid_from_mfrc522_def
      split: prod.splits sum.splits option.splits) (metis uids_standard_def)

lemma read_no_panic: "\<exists>result. fst (adapter_read_ndef_text C c) = Ret result"
  by (auto simp: adapter_read_ndef_text_def parse_reads record_text_run ret_try_def
      split: prod.splits sum.splits)

lemma serve_one:
  assumes "uids_standard C" and "wait_ends C closed r"
  obtains rs c' where "answers closed r rs"
    and "\<And>rest sent. serve C closed (r # rest) sent c = serve C closed rest (sent @ rs) c'"
proof (cases r)
  case (WaitForCard i)
  have "\<exists>rc c'. poll_card C (closed i) 0 c = Some (rc, c')"
    using assms(2) WaitForCard poll_card_returns [of "closed i" 0] by fastforce
  then obtain rc c' where run: "poll_card C (closed i) 0 c = Some (rc, c')"
    by blast
  from poll_card_result [OF run] select_target_no_panic [OF assms(1)] have
    "rc \<noteq> Panic" "rc = Ret None \<longrightarrow> (\<exists>j. closed i j)"
    by auto
  then show thesis
    using that [of "case rc of Ret (Some uid) \<Rightarrow> [CardResponse i uid] | _ \<Rightarrow> []" c'] run WaitForCard
    by (cases rc; cases "case rc of Ret x \<Rightarrow> x") auto
next
  case (WaitForRemoval i)
  have "\<exists>rc c'. poll_removal C (closed i) 0 c = Some (rc, c')"
    using assms(2) WaitForRemoval poll_removal_returns [of "closed i" 0] by fastforce
  then obtain rc c' where run: "poll_removal C (closed i) 0 c = Some (rc, c')"
    by blast
  from poll_removal_result [OF run] show thesis
    using that [of "if rc then [RemovalResponse i] else []" c'] run WaitForRemoval
    by (cases rc) auto
next
  case (ReadNdefText i)
  obtain result c' where "adapter_read_ndef_text C c = (Ret result, c')"
    using read_no_panic by (metis prod.collapse)
  with ReadNdefText show thesis
    using that [of "[TextResponse i result]" c'] by simp
qed

text \<open>
  C40: The backend answers its requests one after the other and never gets stuck or panics, as
  long as every wait ends some time and the chip's UIDs have a standard length. It serves all
  requests of the channel, in their order: reading a tag is answered exactly once, a wait
  exactly once or, only if its caller gave up, not at all; nothing else is ever sent.
\<close>

theorem serve_answers:
  assumes "uids_standard C" and "list_all (wait_ends C closed) requests"
  shows "\<exists>responses c'. serve C closed requests [] c = Some (Ret (concat responses), c') \<and>
    list_all2 (answers closed) requests responses"
proof -
  have "\<exists>responses c'. serve C closed requests sent c = Some (Ret (sent @ concat responses), c') \<and>
      list_all2 (answers closed) requests responses" for sent
    using assms(2)
  proof (induction requests arbitrary: sent c)
    case (Cons r requests)
    from Cons.prems have "wait_ends C closed r"
      by simp
    then obtain rs c1 where one: "answers closed r rs"
        "\<And>rest sent. serve C closed (r # rest) sent c = serve C closed rest (sent @ rs) c1"
      by (rule serve_one [OF assms(1)]) blast
    from Cons obtain responses c' where
      "serve C closed requests (sent @ rs) c1 = Some (Ret ((sent @ rs) @ concat responses), c')"
      "list_all2 (answers closed) requests responses"
      by fastforce
    with one show ?case
      by (intro exI [of _ "rs # responses"]) auto
  qed simp
  from this [of "[]"] show ?thesis
    by simp
qed

theorem serve_answers_witness:
  "\<exists>responses c'. serve simple_chip (\<lambda>i k. i = 1 \<and> 5 \<le> k)
       [WaitForCard 0, ReadNdefText 2, WaitForRemoval 1] [] () = Some (Ret (concat responses), c') \<and>
     list_all2 (answers (\<lambda>i k. i = 1 \<and> 5 \<le> k))
       [WaitForCard 0, ReadNdefText 2, WaitForRemoval 1] responses"
proof (rule serve_answers)
  show "uids_standard simple_chip"
    by (simp add: uids_standard_def simple_chip_def)
  have "fst (select_target simple_chip c) \<noteq> Ret None" for c
    by (simp add: select_target_def simple_chip_def nfc_uid_from_mfrc522_def)
  then show "list_all (wait_ends simple_chip (\<lambda>i k. i = 1 \<and> 5 \<le> k))
      [WaitForCard 0, ReadNdefText 2, WaitForRemoval 1]"
    by auto
qed

section \<open>Starting\<close>

text \<open>
  A reader is handed out only if its hardware came up. Spawning the backend succeeds exactly
  when the thread was started and the SPI device, the reset line and the chip initialised, in
  that order; the first of them that fails determines the error, and a thread that dies
  without a report is an error as well. The backend that serves on the caller's thread fails
  with the same error and otherwise serves.
\<close>

lemma spawn_reports_init:
  "(spawn_mfrc522 thread (Some (run_reports B config)) = Inr () \<longleftrightarrow>
      thread = Inr () \<and> mfrc522_init B config = Inr ()) \<and>
   (spawn_mfrc522 (Inr ()) (Some (run_reports B config)) = mfrc522_init B config) \<and>
   (\<exists>reason. spawn_mfrc522 (Inr ()) None = Inl (Chip reason)) \<and>
   (mfrc522_init B config = Inr () \<longleftrightarrow>
      spidev_open B (spi_dev_path config) = Inr () \<and> spidev_configure B = Inr () \<and>
      request_line B (gpio_dev_path config) (reset_pin_line config) = Inr () \<and>
      set_line_active B = Inr () \<and> chip_init B = Inr ()) \<and>
   (serve_blocking B config C closed requests c = Some (Inl e) \<longleftrightarrow> mfrc522_init B config = Inl e)"
  by (auto simp: spawn_mfrc522_def mfrc522_spawn_def run_reports_def serve_blocking_def
      mfrc522_init_def and_then_def map_err_def split: sum.splits)

end
