(* ===== verification/Playback.thy ===== *)
theory Playback
  imports Protocol
begin

text \<open>
  \<open>src/audio.rs\<close>: playing one audio source. The closure that \<open>play_with\<close> hands to the blocking
  pool runs in parallel to the owner of the \<open>PlaybackHandle\<close>; they share the cancellation flag.
  The closure is a machine that makes one step per look at the flag or call into \<open>rodio\<close>, and
  its steps interleave in any way with the owner dropping or detaching the handle. What the
  audio stack answers is the parameter \<open>rodio\<close>; a volume is the bits of its \<open>f32\<close>.
\<close>

section \<open>Playing\<close>

datatype playback_error = Io io_error | Output string | Decode string | Task

record 'r rodio =
  open_default_sink :: "string + unit"
  decoder_new :: "'r \<Rightarrow> string + unit"
  player_empty :: "nat \<Rightarrow> bool"

datatype worker =
    Queued
  | OpeningSink
  | OpeningSource
  | Decoded
  | Polling nat
  | Sleeping nat
  | Ended "playback_error + unit"
  | Panicked

datatype player_event = SinkOpened | VolumeSet u32 | Appended

text \<open>
  The handle with the closure it belongs to. \<open>held\<close>: the handle has not been dropped. \<open>slept\<close>:
  the time the closure has slept. \<open>player_log\<close>: what it did to the output device.
\<close>

record playback =
  worker :: worker
  cancelled :: bool
  detached :: bool
  held :: bool
  slept :: duration
  player_log :: "player_event list"

text \<open>The handle's operations. \<open>detach\<close> consumes the handle, so it is dropped after it.\<close>

definition drop_handle :: "playback \<Rightarrow> playback" where
  "drop_handle s =
     (let s = (if \<not> detached s then s\<lparr>cancelled := True\<rparr> else s) in s\<lparr>held := False\<rparr>)"

definition detach :: "playback \<Rightarrow> playback" where
  "detach s = drop_handle (s\<lparr>detached := True\<rparr>)"

definition poll_handle :: "playback \<Rightarrow> (playback_error + unit) option" where
  "poll_handle s =
     (case worker s of Ended r \<Rightarrow> Some r | Panicked \<Rightarrow> Some (Inl Task) | _ \<Rightarrow> None)"

text \<open>The closure: where it is, and what it does next.\<close>

definition worker_step ::
  "'r rodio \<Rightarrow> (playback_error + 'r) \<Rightarrow> u32 \<Rightarrow> playback \<Rightarrow> playback" where
  "worker_step R opened volume s =
     (case worker s of
        Queued \<Rightarrow>
          if cancelled s then s\<lparr>worker := Ended (Inr ())\<rparr> else s\<lparr>worker := OpeningSink\<rparr>
      | OpeningSink \<Rightarrow>
          (case open_default_sink R of
             Inl error \<Rightarrow> s\<lparr>worker := Ended (Inl (Output error))\<rparr>
           | Inr _ \<Rightarrow> s\<lparr>worker := OpeningSource,
                       player_log := player_log s @ [SinkOpened, VolumeSet volume]\<rparr>)
      | OpeningSource \<Rightarrow>
          (case and_then opened (\<lambda>r. map_err Decode (decoder_new R r)) of
             Inl error \<Rightarrow> s\<lparr>worker := Ended (Inl error)\<rparr>
           | Inr _ \<Rightarrow> s\<lparr>worker := Decoded\<rparr>)
      | Decoded \<Rightarrow>
          if cancelled s then s\<lparr>worker := Ended (Inr ())\<rparr>
          else s\<lparr>worker := Polling 0, player_log := player_log s @ [Appended]\<rparr>
      | Polling n \<Rightarrow>
          if \<not> player_empty R n then s\<lparr>worker := Sleeping n\<rparr>
          else s\<lparr>worker := Ended (Inr ())\<rparr>
      | Sleeping n \<Rightarrow>
          (let s = s\<lparr>slept := slept s + 50\<rparr> in
           if cancelled s then s\<lparr>worker := Ended (Inr ())\<rparr>
           else s\<lparr>worker := Polling (Suc n)\<rparr>)
      | Ended r \<Rightarrow> s
      | Panicked \<Rightarrow> s)"

definition play_with :: playback where
  "play_with = \<lparr>worker = Queued, cancelled = False, detached = False, held = True, slept = 0,
     player_log = []\<rparr>"

text \<open>The sources the closure opens in \<open>play_file\<close> and \<open>play_reader\<close>.\<close>

definition play_file :: "('p \<Rightarrow> io_error + 'r) \<Rightarrow> 'p \<Rightarrow> playback_error + 'r" where
  "play_file file_open path = map_err Io (file_open path)"

definition play_reader :: "'r \<Rightarrow> playback_error + 'r" where
  "play_reader reader = Inr reader"

section \<open>The closure beside its owner\<close>

definition running :: "worker \<Rightarrow> bool" where
  "running k \<longleftrightarrow> (case k of Ended _ \<Rightarrow> False | Panicked \<Rightarrow> False | _ \<Rightarrow> True)"

inductive playback_step ::
  "'r rodio \<Rightarrow> (playback_error + 'r) \<Rightarrow> u32 \<Rightarrow> playback \<Rightarrow> playback \<Rightarrow> bool"
  for R opened volume where
  work: "running (worker s) \<Longrightarrow> playback_step R opened volume s (worker_step R opened volume s)"
| panic: "running (worker s) \<Longrightarrow> playback_step R opened volume s (s\<lparr>worker := Panicked\<rparr>)"
| drop: "held s \<Longrightarrow> playback_step R opened volume s (drop_handle s)"
| detach: "held s \<Longrightarrow> playback_step R opened volume s (detach s)"

inductive_cases playback_stepE: "playback_step R opened volume s s'"

text \<open>
  The result a playback that nobody stops is meant to have: the first of opening the output,
  opening the source and decoding it that fails determines the error.
\<close>

definition playback_outcome :: "'r rodio \<Rightarrow> (playback_error + 'r) \<Rightarrow> playback_error + unit" where
  "playback_outcome R opened =
     (case open_default_sink R of
        Inl e \<Rightarrow> Inl (Output e)
      | Inr _ \<Rightarrow>
          (case opened of
             Inl e \<Rightarrow> Inl e
           | Inr r \<Rightarrow> (case decoder_new R r of Inl e \<Rightarrow> Inl (Decode e) | Inr _ \<Rightarrow> Inr ())))"

text \<open>Played through: appended once, and asked every 50 ms until the player was empty.\<close>

definition played_through :: "'r rodio \<Rightarrow> u32 \<Rightarrow> playback \<Rightarrow> bool" where
  "played_through R volume s \<longleftrightarrow>
     player_log s = [SinkOpened, VolumeSet volume, Appended] \<and>
     (\<exists>n. player_empty R n \<and> (\<forall>k<n. \<not> player_empty R k) \<and> slept s = 50 * n)"

definition playback_inv :: "'r rodio \<Rightarrow> (playback_error + 'r) \<Rightarrow> u32 \<Rightarrow> playback \<Rightarrow> bool" where
  "playback_inv R opened volume s \<longleftrightarrow>
     (cancelled s \<longleftrightarrow> \<not> held s \<and> \<not> detached s) \<and> (detached s \<longrightarrow> \<not> held s) \<and>
     (case worker s of
        Queued \<Rightarrow> player_log s = [] \<and> slept s = 0
      | OpeningSink \<Rightarrow> player_log s = [] \<and> slept s = 0
      | OpeningSource \<Rightarrow> open_default_sink R = Inr () \<and> slept s = 0 \<and>
          player_log s = [SinkOpened, VolumeSet volume]
      | Decoded \<Rightarrow> playback_outcome R opened = Inr () \<and> slept s = 0 \<and>
          player_log s = [SinkOpened, VolumeSet volume]
      | Polling n \<Rightarrow> playback_outcome R opened = Inr () \<and> (\<forall>k<n. \<not> player_empty R k) \<and>
          slept s = 50 * n \<and> player_log s = [SinkOpened, VolumeSet volume, Appended]
      | Sleeping n \<Rightarrow> playback_outcome R opened = Inr () \<and> (\<forall>k\<le>n. \<not> player_empty R k) \<and>
          slept s = 50 * n \<and> player_log s = [SinkOpened, VolumeSet volume, Appended]
      | Ended r \<Rightarrow> r = Inr () \<and> cancelled s \<or>
          r = playback_outcome R opened \<and> (r = Inr () \<longrightarrow> played_through R volume s)
      | Panicked \<Rightarrow> True)"

lemma worker_step_frame [simp]:
  "cancelled (worker_step R opened volume s) = cancelled s"
  "detached (worker_step R opened volume s) = detached s"
  "held (worker_step R opened volume s) = held s"
  by (simp_all add: worker_step_def Let_def split: worker.split sum.split)

lemma worker_step_inv:
  assumes "playback_inv R opened volume s"
  shows "playback_inv R opened volume (worker_step R opened volume s)"
  using assms
  by (auto simp: playback_inv_def worker_step_def playback_outcome_def played_through_def Let_def
      and_then_def map_err_def less_Suc_eq_le le_less split: worker.splits sum.splits)

lemma playback_step_inv:
  assumes "playback_inv R opened volume s" and "playback_step R opened volume s s'"
  shows "playback_inv R opened volume s'"
  using assms(2)
proof cases
  case work
  with worker_step_inv [OF assms(1)] show ?thesis
    by simp
qed (use assms(1) in \<open>auto simp: playback_inv_def drop_handle_def detach_def played_through_def
    split: worker.splits\<close>)

lemma play_with_inv: "playback_inv R opened volume play_with"
  by (simp add: playback_inv_def play_with_def)

interpretation playing: invariant_system "\<lambda>s. s = play_with"
    "playback_step R opened volume" "playback_inv R opened volume" for R opened volume
  by unfold_locales (simp add: play_with_inv, rule playback_step_inv)

abbreviation playing_reach ::
  "'r rodio \<Rightarrow> (playback_error + 'r) \<Rightarrow> u32 \<Rightarrow> playback \<Rightarrow> bool" where
  "playing_reach R opened volume \<equiv> reach (\<lambda>s. s = play_with) (playback_step R opened volume)"

section \<open>Running to the end\<close>

lemma worker_steps_inv:
  "playback_inv R opened volume s \<Longrightarrow>
     playback_inv R opened volume ((worker_step R opened volume ^^ k) s)"
  by (induction k) (simp_all add: worker_step_inv)

text \<open>How many steps are left, when the player is empty at look \<open>n\<close>.\<close>

fun steps_left :: "nat \<Rightarrow> worker \<Rightarrow> nat" where
  "steps_left n Queued = 2 * n + 5"
| "steps_left n OpeningSink = 2 * n + 4"
| "steps_left n OpeningSource = 2 * n + 3"
| "steps_left n Decoded = 2 * n + 2"
| "steps_left n (Polling k) = 2 * (n - k) + 1"
| "steps_left n (Sleeping k) = 2 * (n - k)"
| "steps_left n _ = 0"

lemma steps_left_decreases:
  assumes "playback_inv R opened volume s" and "player_empty R n" and "running (worker s)"
  shows "steps_left n (worker (worker_step R opened volume s)) < steps_left n (worker s)"
proof -
  have "k < n \<and> Suc (2 * (n - Suc k)) < 2 * (n - k)" if "\<forall>j\<le>k. \<not> player_empty R j" for k
  proof -
    have "k < n"
      using that assms(2) by (meson not_le)
    then show ?thesis
      by simp
  qed
  with assms show ?thesis
    by (auto simp: playback_inv_def running_def worker_step_def Let_def
        split: worker.splits sum.splits)
qed

lemma worker_finishes:
  assumes "playback_inv R opened volume s" and "player_empty R n"
  shows "\<exists>k \<le> steps_left n (worker s). \<not> running (worker ((worker_step R opened volume ^^ k) s))"
  using assms(1)
proof (induction "steps_left n (worker s)" arbitrary: s rule: less_induct)
  case less
  show ?case
  proof (cases "running (worker s)")
    case True
    note dec = steps_left_decreases [OF less.prems assms(2) True]
    from less.hyps [OF dec worker_step_inv [OF less.prems]] obtain k
      where "k \<le> steps_left n (worker (worker_step R opened volume s))"
        and "\<not> running (worker ((worker_step R opened volume ^^ k) (worker_step R opened volume s)))"
      by blast
    with dec show ?thesis
      by (intro exI [of _ "Suc k"]) (simp add: funpow_swap1)
  qed (auto intro: exI [of _ 0])
qed

lemma steps_left_bound: "steps_left n k \<le> 2 * n + 5"
  by (cases k) auto

section \<open>What a playback does\<close>

text \<open>
  C32: What awaiting a playback means. As long as nobody dropped the handle, it resolves to the
  error of the first step that failed, in the order output device, source, decoder; to the
  failed-task error only if the closure panicked; and to success only after the source was
  played through: appended once at the requested volume, and the player seen empty.
\<close>

theorem playback_result:
  assumes "playing_reach R opened volume s" and "\<not> cancelled s" and "poll_handle s = Some r"
  shows "r = Inl Task \<and> worker s = Panicked \<or>
    r = playback_outcome R opened \<and> (r = Inr () \<longrightarrow> played_through R volume s)"
  using playing.reach_inv [OF assms(1)] assms(2,3)
  by (auto simp: playback_inv_def poll_handle_def split: worker.splits)

text \<open>
  C33: A playback whose source ends comes to an end by itself, detached or not: from every state
  it can be in, the closure's own steps finish it, in a number of steps bounded by the number
  of times the player will be found busy. Detaching never stops it.
\<close>

theorem playback_ends:
  assumes "playing_reach R opened volume s" and "player_empty R n"
  shows "(\<exists>k\<le>2 * n + 5. \<not> running (worker ((worker_step R opened volume ^^ k) s))) \<and>
    (detached s \<longrightarrow> \<not> cancelled s)"
  using worker_finishes [OF playing.reach_inv [OF assms(1)] assms(2)] steps_left_bound [of n "worker s"]
    playing.reach_inv [OF assms(1)] unfolding playback_inv_def by (meson le_trans)

section \<open>Dropping the handle\<close>

definition sounding :: "playback \<Rightarrow> bool" where
  "sounding s \<longleftrightarrow> (case worker s of Polling _ \<Rightarrow> True | Sleeping _ \<Rightarrow> True | _ \<Rightarrow> False)"

text \<open>What stays true after the flag was set in state \<open>s\<close>.\<close>

definition silencing :: "playback \<Rightarrow> playback \<Rightarrow> bool" where
  "silencing s s' \<longleftrightarrow> cancelled s' \<and> \<not> held s' \<and> (sounding s' \<longrightarrow> sounding s) \<and>
     (worker s = Queued \<longrightarrow> \<not> (worker s' = OpeningSink \<or> worker s' = OpeningSource \<or> worker s' = Decoded) \<and>
        player_log s' = player_log s)"

lemma silencing_step:
  assumes "silencing s s'" and "playback_step R opened volume s' t"
  shows "silencing s t"
  using assms(2)
proof cases
  case work
  with assms(1) show ?thesis
    by (auto simp: silencing_def sounding_def worker_step_def Let_def split: worker.splits sum.splits)
qed (use assms(1) in \<open>auto simp: silencing_def sounding_def\<close>)

interpretation stopping: invariant_system "silencing s" "playback_step R opened volume" "silencing s"
  for s R opened volume
  by unfold_locales (assumption, rule silencing_step)

text \<open>With the flag set, the closure is at most three steps from its end.\<close>

fun steps_to_stop :: "worker \<Rightarrow> nat" where
  "steps_to_stop OpeningSink = 3"
| "steps_to_stop OpeningSource = 2"
| "steps_to_stop (Polling n) = 2"
| "steps_to_stop (Ended r) = 0"
| "steps_to_stop Panicked = 0"
| "steps_to_stop _ = 1"

lemma cancelled_step:
  assumes "cancelled s" and "running (worker s)"
  shows "steps_to_stop (worker (worker_step R opened volume s)) < steps_to_stop (worker s)"
    and "slept (worker_step R opened volume s) = slept s \<or>
      \<not> running (worker (worker_step R opened volume s)) \<and>
      slept (worker_step R opened volume s) = slept s + 50"
  using assms
  by (auto simp: worker_step_def running_def Let_def split: worker.splits sum.splits)

lemma cancelled_ends:
  assumes "cancelled s"
  shows "\<exists>k \<le> steps_to_stop (worker s). \<not> running (worker ((worker_step R opened volume ^^ k) s)) \<and>
    slept ((worker_step R opened volume ^^ k) s) \<le> slept s + 50"
  using assms
proof (induction "steps_to_stop (worker s)" arbitrary: s rule: less_induct)
  case less
  let ?t = "worker_step R opened volume s"
  show ?case
  proof (cases "running (worker s)")
    case True
    note step = cancelled_step [OF less.prems True, of R opened volume]
    show ?thesis
    proof (cases "running (worker ?t)")
      case False
      with step show ?thesis
        by (intro exI [of _ 1]) auto
    next
      case run: True
      have "cancelled ?t"
        using less.prems by simp
      from less.hyps [OF step(1) this] obtain k where "k \<le> steps_to_stop (worker ?t)"
        and "\<not> running (worker ((worker_step R opened volume ^^ k) ?t))"
        and "slept ((worker_step R opened volume ^^ k) ?t) \<le> slept ?t + 50"
        by blast
      with step run show ?thesis
        by (intro exI [of _ "Suc k"]) (auto simp: funpow_swap1)
    qed
  qed (auto intro: exI [of _ 0])
qed

lemma silenced_soon:
  assumes "cancelled s"
  shows "\<exists>k\<le>3. \<not> running (worker ((worker_step R opened volume ^^ k) s)) \<and>
    slept ((worker_step R opened volume ^^ k) s) \<le> slept s + 50"
proof -
  have "steps_to_stop (worker s) \<le> 3"
    by (cases "worker s") auto
  with cancelled_ends [OF assms, of R opened volume] show ?thesis
    by (meson le_trans)
qed

text \<open>
  C14: Dropping the handle silences the playback. If it was dropped before the closure started,
  the output device is never touched; if it was dropped before the source was appended, no
  sound is ever made; and a sound that is playing stops within one poll interval of 50 ms, after
  at most three more steps of the closure, however long the source is.
\<close>

theorem dropped_falls_silent:
  assumes "playing_reach R opened volume s" and "held s"
    and "(playback_step R opened volume)\<^sup>*\<^sup>* (drop_handle s) s'"
  shows "(worker s = Queued \<longrightarrow> player_log s' = []) \<and> (sounding s' \<longrightarrow> sounding s) \<and>
    (\<exists>k\<le>3. \<not> running (worker ((worker_step R opened volume ^^ k) s')) \<and>
       slept ((worker_step R opened volume ^^ k) s') \<le> slept s' + 50)"
proof -
  have inv: "playback_inv R opened volume s"
    by (rule playing.reach_inv [OF assms(1)])
  with assms(2) have "silencing s (drop_handle s)"
    by (auto simp: silencing_def sounding_def playback_inv_def drop_handle_def split: worker.splits)
  then have "silencing s s'"
    by (rule stopping.steps_inv [OF assms(3)])
  with inv silenced_soon [of s'] show ?thesis
    by (auto simp: silencing_def playback_inv_def)
qed

section \<open>A concrete playback\<close>

text \<open>A source that is played after the second look.\<close>

definition simple_rodio :: "bytes rodio" where
  "simple_rodio = \<lparr>open_default_sink = Inr (),
     decoder_new = (\<lambda>r. if r = [] then Inl ''empty'' else Inr ()), player_empty = (\<lambda>n. 1 \<le> n)\<rparr>"

abbreviation simple_work :: "playback \<Rightarrow> playback" where
  "simple_work \<equiv> worker_step simple_rodio (play_reader [1, 2]) 7"

lemma worker_steps_reach:
  assumes "playing_reach R opened volume s"
  shows "playing_reach R opened volume ((worker_step R opened volume ^^ k) s)"
proof (induction k)
  case (Suc k)
  let ?t = "(worker_step R opened volume ^^ k) s"
  show ?case
  proof (cases "running (worker ?t)")
    case True
    with Suc show ?thesis
      by (auto intro: reach_step work)
  next
    case False
    then have "worker_step R opened volume ?t = ?t"
      by (simp add: worker_step_def running_def split: worker.splits)
    with Suc show ?thesis
      by simp
  qed
qed (simp add: assms)

lemma simple_reached:
  "playing_reach simple_rodio (play_reader [1, 2]) 7 ((simple_work ^^ k) play_with)"
  by (intro worker_steps_reach reach_init) simp

lemma simple_played:
  "(simple_work ^^ 7) play_with = play_with\<lparr>worker := Ended (Inr ()), slept := 50,
     player_log := [SinkOpened, VolumeSet 7, Appended]\<rparr>"
  "(simple_work ^^ 5) play_with = play_with\<lparr>worker := Sleeping 0,
     player_log := [SinkOpened, VolumeSet 7, Appended]\<rparr>"
  by (simp_all add: eval_nat_numeral worker_step_def simple_rodio_def play_with_def play_reader_def)

theorem playback_result_witness:
  "played_through simple_rodio 7 ((simple_work ^^ 7) play_with)"
  using playback_result [OF simple_reached [of 7], of "Inr ()"] unfolding simple_played
  by (auto simp: poll_handle_def play_with_def)

theorem playback_ends_witness:
  "\<exists>k\<le>7. \<not> running (worker ((simple_work ^^ k) play_with))"
  using playback_ends [OF simple_reached [of 0], of 1] by (simp add: simple_rodio_def)

theorem dropped_falls_silent_witness:
  "\<exists>k\<le>3. \<not> running (worker ((simple_work ^^ k) (drop_handle ((simple_work ^^ 5) play_with))))"
proof -
  have "held ((simple_work ^^ 5) play_with)"
    unfolding simple_played by (simp add: play_with_def)
  from dropped_falls_silent [OF simple_reached [of 5] this] show ?thesis
    by blast
qed

end
