(* ===== verification/Spec2Isabelle.thy ===== *)
theory Spec2Isabelle
  imports Preload Mfrc522_Properties Playback
begin

text \<open>
  A verification of \<open>bloop-client-framework\<close>, the Rust library a Bloop box runs on: a client that
  keeps a connection to a Bloop server, a cache for the audio the server provides, playback of
  that audio, and an NFC reader.

  \<^bold>\<open>The program and its models.\<close> Each source file has its theories, in the order the code calls
  each other.

    \<^item> \<open>src/request.rs\<close> is \<open>Request\<close>: \<open>request_error\<close> and \<open>decode_response\<close>.

    \<^item> \<open>src/connection.rs\<close> is \<open>Connection\<close>: resolving, connecting, the version handshake, the
      authentication (\<open>connect\<close> with its parts \<open>establish\<close>, \<open>open_stream\<close>, \<open>login\<close>,
      \<open>negotiate_version\<close>, \<open>authenticate\<close>), the exchanges on a connection (\<open>request_raw\<close>, \<open>ping\<close>,
      \<open>quit\<close>) and the session of the on-connect hook (\<open>session_*\<close>). \<open>Wire\<close> adds the discipline of
      a stream, an automaton over the events of the history.

    \<^item> \<open>src/tls.rs\<close> is \<open>Tls\<close>: the choice of the certificate verifier.

    \<^item> \<open>src/client.rs\<close> is \<open>Client_Types\<close> (configuration, status, policy), \<open>Client_Task\<close> (the
      connection task: the record \<open>client_task\<close> is \<open>ClientTask\<close>, and \<open>handle_command\<close>, \<open>handle_tick\<close>,
      \<open>try_connect\<close>, \<open>drop_connection\<close>, \<open>set_status\<close> are its methods) and \<open>Client\<close> (the builder, the
      operations of \<open>BloopClient\<close>, and the whole as the step relation \<open>client_step\<close>: the task's
      \<open>select!\<close> loop, the bounded command channel and the handles, in any order of steps).
      \<open>Client_Wire\<close> carries the stream discipline through the handlers, and \<open>Client_Properties\<close>
      has the properties of the system.

    \<^item> \<open>src/audio_cache.rs\<close> is \<open>Audio_Cache\<close> (\<open>ensure\<close>, \<open>sync\<close>, the names of files, the file
      operations) and \<open>Audio_Cache_Properties\<close>.

    \<^item> \<open>src/audio.rs\<close> is \<open>Playback\<close>: the handle and the closure that plays, as an interleaving.

    \<^item> \<open>src/nfc/ndef.rs\<close> is \<open>Ndef\<close> (the incremental message parser, \<open>add_data\<close>) and \<open>Ndef_Text\<close>
      (\<open>parse_ndef_text_record\<close>, \<open>record_text\<close>).

    \<^item> \<open>src/nfc/mod.rs\<close> is \<open>Nfc_Reader\<close>, and \<open>src/nfc/mfrc522.rs\<close> is \<open>Mfrc522\<close> (the adapter, the
      backend's loop, the initialisation) with \<open>Mfrc522_Properties\<close>.

    \<^item> \<open>Preload\<close> composes client and cache: the cache in the client's on-connect hook.

  \<^bold>\<open>How effects are modelled.\<close> \<open>Prelude\<close> has results (\<open>'e + 'a\<close>), panics (\<open>guarded\<close>), decimal
  printing, and reachability with its contract \<open>invariant_system\<close>. \<open>Runtime\<close> has the asynchronous
  computations: a function of the world, which holds the clock, the deadline in force, the
  files and the history of observable events, that returns a value or is dropped when an
  enclosing timeout expires. Every answer of the network, the server and the file system is an
  arbitrary function of the history (\<open>env\<close>), so the theorems hold whatever these do. Computations
  are classified once and for all: \<open>tame\<close> (respects clock and deadline), \<open>emits\<close> (what events it
  may cause), \<open>serves\<close> (keeps the stream discipline), \<open>keeps_files\<close>; each class has its collection
  of introduction rules, from which the facts about the handlers follow.

  \<^bold>\<open>Parameters.\<close> Code outside the repository is a parameter: the codecs of the protocol crate
  (\<open>protocol\<close>), rustls, the printing of IDs and hashes (\<open>display\<close>), the chip's driver and the
  board (\<open>chip\<close>, \<open>board\<close>), the audio stack (\<open>rodio\<close>). What is relied on is a named predicate:
  \<open>opcode_checked\<close> (a decoder rejects frames of another opcode), \<open>displays\<close> (different values print
  differently, without separators), \<open>uids_standard\<close> (UIDs have a length the protocol knows),
  \<open>hook_ok\<close> (a hook does its I/O through its session). Each has a concrete instance on which the
  theorems are applied: a small codec, server, chip, tag, directory and source.

  \<^bold>\<open>What is shown.\<close> Of decoding: errors never decode as data. Of connecting: what is on the wire
  for each outcome, that credentials leave only after the version was agreed, that nothing is
  read beyond 1024 bytes before authentication, and that stalls end. Of the task: the result of
  every handler on every branch and its time bound, the latch for refused credentials, that
  \<open>Connected\<close> is reported only after the hook succeeded, that shutdown is final. Of the system, by
  invariants over all interleavings: the status is always true, requests are answered once and
  in order, each stream is used strictly request by request and never after an abandoned
  exchange, the queue drains, dropping the last handle winds down. Of the cache: no torn file
  under a final name whatever is interrupted, the results of \<open>ensure\<close> and \<open>sync\<close>, no name
  collisions. Of playback: results, termination, and silence after the handle was dropped. Of
  NFC: the parser is total and equal to a front-to-back reference, accepts exactly the text
  records, gives back the text that was written, through all layers down to the blocks of a tag;
  block addresses never wrap; the backend answers every request. Across components: a client that
  preloads in its hook is connected only with its audio on disk.

  \<^bold>\<open>Interfaces.\<close> \<open>invariant_system\<close> is interpreted for the client (\<open>client_system\<close>), for the client
  after shutdown (\<open>after_shutdown\<close>), for a playback (\<open>playing\<close>) and after its handle was dropped
  (\<open>stopping\<close>), and instantiated for the preloading client (\<open>preloading_system\<close>). \<open>audio_provider\<close> is
  the trait the cache relies on, with the cache's lemmas inside it, interpreted for the two
  implementations of the repository, the session (\<open>session_audio\<close>) and the client
  (\<open>client_audio\<close>).

  \<^bold>\<open>Bounds and loops.\<close> The handlers, parsers, \<open>prune\<close> and \<open>sync_records\<close> recurse over their data.
  The two polling loops of the NFC backend may run for ever and are \<open>partial_function\<close>s;
  \<open>serve_answers\<close> shows that the backend returns when every wait ends some time. The playback
  closure is stepped, and \<open>playback_ends\<close> bounds its steps. There is no fuel. Widths are kept where
  they matter: bytes and opcodes, the parser's 32-bit length, 8-bit block addresses, the 64-bit
  counter of temporary files; durations are natural numbers of milliseconds.

  \<^bold>\<open>What is not modelled.\<close> \<open>src/lib.rs\<close> (re-exports), logging, \<open>Debug\<close> and \<open>Default\<close>
  implementations, the tests, and the getters of the status watch. A task that panics inside a
  crate, other than in playback, is not modelled. The interval timer is, in that a tick may
  come at any time. The order in which a directory is read is that of the store. Other
  processes that change the cache directory are not modelled.

  Lemmas next to the definitions record inputs on which the code departs from what it means to
  do: \<open>split_length_done_early\<close>, \<open>empty_message_overrun\<close>, \<open>lock_control_misread\<close> (\<open>Ndef\<close>),
  \<open>utf16_taken_for_utf8\<close> (\<open>Ndef_Text\<close>), \<open>odd_size_cut\<close> (\<open>Mfrc522_Properties\<close>).
\<close>

text \<open>
  C1: Connected means ready to play. Let the on-connect hook bring the audio cache in line with
  the records and fail when audio is missing. Then the hook meets the contract of hooks, so all
  guarantees of the client hold with it; and in every state the client can reach, whatever the
  server, the network and the disk did before, if the status is \<open>Connected\<close> then the audio of
  every record is in the cache.
\<close>

theorem connected_with_audio:
  assumes "displays F" and "reach (preloading_init P F E cache recs) (client_step P E) s"
    and "status (task s) = Connected caps" and "rec \<in> set recs" and "path_for F cache rec = Some p"
  shows "hook_ok (preload_hook P F E cache recs) \<and> map_of (files (world s)) p \<noteq> None"
proof -
  have "preloaded P F E cache recs s"
    by (rule invariant_system.reach_inv [OF preloading_system [OF assms(1)] assms(2)])
  moreover from this have "connection (task s) \<noteq> None"
    using assms(3)
    by (auto simp: preloaded_def system_inv_def task_inv_def split: if_splits option.splits)
  ultimately show ?thesis
    using assms(4,5) preload_hook_ok by (auto simp: preloaded_def audio_ready_def)
qed

theorem connected_with_audio_witness:
  "\<exists>s. reach (preloading_init simple_protocol simple_display simple_env simple_cache [simple_record])
       (client_step simple_protocol simple_env) s \<and>
     status (task s) = Connected {PreloadCheckCapability} \<and>
     map_of (files (world s)) simple_path \<noteq> None"
proof -
  let ?s = "spawn (builder_task (set_on_connect simple_preload simple_builder)) fresh_world"
  obtain t w where run: "handle_tick simple_protocol simple_env (task ?s) (world ?s) = (Done t, w)"
    and status: "status t = Connected {PreloadCheckCapability}"
    using simple_preload_tick by (auto simp: spawn_def)
  have "preloading_init simple_protocol simple_display simple_env simple_cache [simple_record] ?s"
    unfolding preloading_init_def by (rule exI [of _ simple_builder], rule exI [of _ fresh_world]) simp
  moreover have "client_step simple_protocol simple_env ?s (?s\<lparr>task := t, world := w\<rparr>)"
    by (rule client_step.tick [OF _ run]) (simp add: spawn_def)
  ultimately have reach: "reach
      (preloading_init simple_protocol simple_display simple_env simple_cache [simple_record])
      (client_step simple_protocol simple_env) (?s\<lparr>task := t, world := w\<rparr>)"
    by (rule reach_step [OF reach_init])
  have "status (task (?s\<lparr>task := t, world := w\<rparr>)) = Connected {PreloadCheckCapability}"
    using status by simp
  from connected_with_audio [OF simple_displays reach this _ simple_path_for] reach this show ?thesis
    by auto
qed

end
